theory Spec2Isabelle
  imports Main "HOL-Library.AList" "HOL-Library.Word"
begin

section \<open>Data model\<close>

text \<open>
  The values that identifiers take after \<^verbatim>\<open>JSON.parse\<close>: a field that is missing
  reads as \<open>Undefined\<close>, a JSON \<^verbatim>\<open>null\<close> as \<open>Null\<close>. On these primitive values the
  strict equality \<^verbatim>\<open>===\<close> of the source is equality of the constructors and their
  arguments, so it is written \<open>=\<close> below.
\<close>

datatype jsval = Undefined | Null | Num int | Str string

text \<open>Any other JSON payload (section properties, fields the serializer only copies).\<close>

datatype json =
    JNull
  | JBool bool
  | JNum int
  | JStr string
  | JArr "json list"
  | JObj "(string \<times> json) list"

text \<open>
  Modelled from the spec: the declarations of \<^verbatim>\<open>shared/types/ui.types\<close> are not among
  the sources. The fields are those the serializer reads and writes; an optional field
  (\<^verbatim>\<open>script?\<close>) is an \<open>option\<close>, \<open>None\<close> when the property is missing. The field
  names carry a prefix because record fields are global constants.
\<close>

record Tab =
  tab_id :: jsval
  tab_name :: string

record LegacySection =
  sec_id :: jsval
  sec_parentId :: jsval
  sec_page :: jsval
  sec_label :: string
  sec_script :: "string option"
  sec_styles :: "string option"
  sec_template :: "string option"
  sec_properties :: "json option"
  sec_scriptUrl :: "string option"
  sec_stylesUrl :: "string option"
  sec_templateUrl :: "string option"
  sec_propertiesUrl :: "string option"
  sec_rest :: "(string \<times> json) list"

datatype UiElement =
  UiElement
    (el_script: "string option")
    (el_styles: "string option")
    (el_template: "string option")
    (el_children: "UiElement list")
    (el_rest: "(string \<times> json) list")

text \<open>
  One entry of a record's definitions document. The three collections are optional, so
  that every shape \<^verbatim>\<open>JSON.parse\<close> can hand over is a value: a legacy definition has
  \<open>ui_tabs\<close> and \<open>ui_sections\<close>, a modern one has \<open>ui_children\<close>.
\<close>

record UiDef =
  ui_name :: string
  ui_tabs :: "Tab list option"
  ui_sections :: "LegacySection list option"
  ui_children :: "UiElement list option"
  ui_rest :: "(string \<times> json) list"

text \<open>
  What a written file holds: decoded text, or the \<^verbatim>\<open>JSON.stringify\<close> rendering of a
  value, kept as the value. \<open>UiMetadataJson rest names\<close> is the modern
  \<^verbatim>\<open>metadata.json\<close> (\<^verbatim>\<open>{...rest, children: names}\<close> followed by a newline),
  \<open>LegacyMetadataJson\<close> the record-wide legacy one.
\<close>

datatype content =
    Text string
  | PropertiesJson json
  | UiMetadataJson UiDef "string list"
  | LegacyMetadataJson "UiDef list"

text \<open>
  The file system as the serializer changes it: the directories created so far (a created
  directory stands for its ancestors too) and the files written, oldest first.
\<close>

record fs =
  dirs :: "string list"
  files :: "(string \<times> string \<times> content) list"

datatype exn = SyntaxError | TypeError | RangeError | Thrown string

text \<open>
  The helpers imported from \<^verbatim>\<open>shared/utils/ui.utils\<close> and the platform's
  \<^verbatim>\<open>JSON.parse\<close>, none of them among the sources, are parameters of the model.
  \<open>extractName s\<close> stands for \<^verbatim>\<open>extractElementMetadata(s).name\<close>: it may throw, it
  may be \<^verbatim>\<open>undefined\<close> (\<open>Inr None\<close>) or a string. \<open>parseUiDefs\<close> is
  \<^verbatim>\<open>JSON.parse(content) as UiDef[]\<close>: a syntax error, the value \<^verbatim>\<open>null\<close>
  (\<open>Inr None\<close>) or an array of definitions.
\<close>

record deps =
  fromBase64 :: "string \<Rightarrow> string"
  extractName :: "string \<Rightarrow> exn + string option"
  isLegacyDefinition :: "UiDef \<Rightarrow> exn + bool"
  parseUiDefs :: "string \<Rightarrow> exn + UiDef list option"

section \<open>Writing files\<close>

definition mkdirIfAbsent :: "string \<Rightarrow> fs \<Rightarrow> fs" where
  "mkdirIfAbsent dir st =
     (if dir \<in> set (dirs st) then st else st\<lparr>dirs := dirs st @ [dir]\<rparr>)"

text \<open>
  Modelled from the spec: \<^verbatim>\<open>writeFileSafe\<close> of \<^verbatim>\<open>shared/utils/common.utils\<close> is not
  among the sources. "Directory creation is idempotent (create-if-absent); writing a file
  must create its parent directory first."
\<close>

definition writeFileSafe :: "string \<Rightarrow> string \<Rightarrow> content \<Rightarrow> fs \<Rightarrow> fs" where
  "writeFileSafe dir fileName c st =
     (let st1 = mkdirIfAbsent dir st in st1\<lparr>files := files st1 @ [(dir, fileName, c)]\<rparr>)"

text \<open>The truthiness test \<^verbatim>\<open>if (section.script)\<close>: a string that is present and not empty.\<close>

definition blob :: "string option \<Rightarrow> string option" where
  "blob x = (case x of None \<Rightarrow> None | Some b \<Rightarrow> if b = [] then None else Some b)"

fun truthy :: "json \<Rightarrow> bool" where
  "truthy JNull = False"
| "truthy (JBool b) = b"
| "truthy (JNum n) = (n \<noteq> 0)"
| "truthy (JStr s) = (s \<noteq> [])"
| "truthy (JArr xs) = True"
| "truthy (JObj kvs) = True"

definition jblob :: "json option \<Rightarrow> json option" where
  "jblob x = (case x of None \<Rightarrow> None | Some v \<Rightarrow> if truthy v then Some v else None)"

section \<open>Legacy serializer\<close>

text \<open>
  \<^verbatim>\<open>saveLegacySectionFiles(section, dir, metadata)\<close>. The state is the list
  \<^verbatim>\<open>metadata.sections\<close> together with the file system.
\<close>

definition saveScript :: "deps \<Rightarrow> LegacySection \<Rightarrow> string \<Rightarrow> LegacySection \<times> fs \<Rightarrow> LegacySection \<times> fs" where
  "saveScript D section dir ms =
     (case blob (sec_script section) of
        None \<Rightarrow> ms
      | Some b \<Rightarrow>
          let fileName = sec_label section @ ''.js'' in
          ((fst ms)\<lparr>sec_script := None, sec_scriptUrl := Some (dir @ ''/'' @ fileName)\<rparr>,
           writeFileSafe dir fileName (Text (fromBase64 D b)) (snd ms)))"

definition saveStyles :: "deps \<Rightarrow> LegacySection \<Rightarrow> string \<Rightarrow> LegacySection \<times> fs \<Rightarrow> LegacySection \<times> fs" where
  "saveStyles D section dir ms =
     (case blob (sec_styles section) of
        None \<Rightarrow> ms
      | Some b \<Rightarrow>
          let fileName = sec_label section @ ''.css'' in
          ((fst ms)\<lparr>sec_styles := None, sec_scriptUrl := Some (dir @ ''/'' @ fileName)\<rparr>,
           writeFileSafe dir fileName (Text (fromBase64 D b)) (snd ms)))"

definition saveTemplate :: "deps \<Rightarrow> LegacySection \<Rightarrow> string \<Rightarrow> LegacySection \<times> fs \<Rightarrow> LegacySection \<times> fs" where
  "saveTemplate D section dir ms =
     (case blob (sec_template section) of
        None \<Rightarrow> ms
      | Some b \<Rightarrow>
          let fileName = sec_label section @ ''.html'' in
          ((fst ms)\<lparr>sec_template := None, sec_templateUrl := Some (dir @ ''/'' @ fileName)\<rparr>,
           writeFileSafe dir fileName (Text (fromBase64 D b)) (snd ms)))"

definition saveProperties :: "LegacySection \<Rightarrow> string \<Rightarrow> LegacySection \<times> fs \<Rightarrow> LegacySection \<times> fs" where
  "saveProperties section dir ms =
     (case jblob (sec_properties section) of
        None \<Rightarrow> ms
      | Some v \<Rightarrow>
          let fileName = sec_label section @ ''.json'' in
          ((fst ms)\<lparr>sec_properties := None, sec_propertiesUrl := Some (dir @ ''/'' @ fileName)\<rparr>,
           writeFileSafe dir fileName (PropertiesJson v) (snd ms)))"

definition sectionMetaFiles :: "deps \<Rightarrow> LegacySection \<Rightarrow> string \<Rightarrow> fs \<Rightarrow> LegacySection \<times> fs" where
  "sectionMetaFiles D section dir st =
     saveProperties section dir
       (saveTemplate D section dir
         (saveStyles D section dir
           (saveScript D section dir (section, st))))"

definition saveLegacySectionFiles ::
  "deps \<Rightarrow> LegacySection \<Rightarrow> string \<Rightarrow> LegacySection list \<times> fs \<Rightarrow> LegacySection list \<times> fs" where
  "saveLegacySectionFiles D section dir ms =
     (let (sectionMeta, st) = sectionMetaFiles D section dir (snd ms)
      in (fst ms @ [sectionMeta], st))"


text \<open>
  Sequencing with exceptions: a step returns \<open>Inl e\<close> when it throws, together with the
  state reached so far; \<^verbatim>\<open>forEach\<close> stops at the first step that throws.
\<close>

fun forEach :: "('a \<Rightarrow> 's \<Rightarrow> (exn + unit) \<times> 's) \<Rightarrow> 'a list \<Rightarrow> 's \<Rightarrow> (exn + unit) \<times> 's" where
  "forEach f [] s = (Inr (), s)"
| "forEach f (x # xs) s =
     (case f x s of
        (Inl e, s') \<Rightarrow> (Inl e, s')
      | (Inr _, s') \<Rightarrow> forEach f xs s')"

text \<open>
  \<^verbatim>\<open>saveLegacySections(sections, path, metadata, parentId?)\<close>. The function calls itself
  once per child, with nothing that bounds the depth, so the model carries the depth of
  call stack that is left: at depth \<open>0\<close> the call does not return, which the platform
  reports as a \<^verbatim>\<open>RangeError\<close>. The first call passes no \<^verbatim>\<open>parentId\<close>, that is
  \<open>Undefined\<close>.
\<close>

fun saveLegacySections ::
  "deps \<Rightarrow> nat \<Rightarrow> LegacySection list \<Rightarrow> string \<Rightarrow> jsval \<Rightarrow>
     LegacySection list \<times> fs \<Rightarrow> (exn + unit) \<times> (LegacySection list \<times> fs)" where
  "saveLegacySections D 0 sections path parentId ms = (Inl RangeError, ms)"
| "saveLegacySections D (Suc n) sections path parentId ms =
     (let firstChildren = filter (\<lambda>s. sec_parentId s = parentId) sections in
      forEach
        (\<lambda>c ms1.
           let childPath = path @ ''/'' @ sec_label c in
           saveLegacySections D n sections childPath (sec_id c)
             (saveLegacySectionFiles D c childPath ms1))
        firstChildren ms)"

text \<open>
  \<^verbatim>\<open>saveLegacyUiDefinition(ui, path, metadataArray)\<close>. Reading \<^verbatim>\<open>ui.tabs.forEach\<close> or
  \<^verbatim>\<open>ui.sections.filter\<close> on a missing collection throws a \<^verbatim>\<open>TypeError\<close>. The
  metadata object is pushed only when every tab has been laid out.
\<close>

definition saveLegacyTab ::
  "deps \<Rightarrow> nat \<Rightarrow> UiDef \<Rightarrow> string \<Rightarrow> Tab \<Rightarrow>
     LegacySection list \<times> fs \<Rightarrow> (exn + unit) \<times> (LegacySection list \<times> fs)" where
  "saveLegacyTab D n ui path tab ms =
     (let tabPath = path @ ''/'' @ tab_name tab in
      case ui_sections ui of
        None \<Rightarrow> (Inl TypeError, ms)
      | Some sections \<Rightarrow>
          let tabSections = filter (\<lambda>section. sec_page section = tab_id tab) sections in
          saveLegacySections D n tabSections tabPath Undefined ms)"

definition saveLegacyUiDefinition ::
  "deps \<Rightarrow> nat \<Rightarrow> UiDef \<Rightarrow> string \<Rightarrow> UiDef list \<times> fs \<Rightarrow> (exn + unit) \<times> (UiDef list \<times> fs)" where
  "saveLegacyUiDefinition D n ui path ma =
     (case ui_tabs ui of
        None \<Rightarrow> (Inl TypeError, ma)
      | Some tabs \<Rightarrow>
          (case forEach (saveLegacyTab D n ui path) tabs ([], snd ma) of
             (Inl e, (secs, st)) \<Rightarrow> (Inl e, (fst ma, st))
           | (Inr _, (secs, st)) \<Rightarrow>
               (Inr (), (fst ma @ [ui\<lparr>ui_sections := Some secs\<rparr>], st))))"

section \<open>Modern serializer\<close>

text \<open>The template literal \<^verbatim>\<open>`${path}/${elName}`\<close> renders a missing name as "undefined".\<close>

definition showName :: "string option \<Rightarrow> string" where
  "showName elName = (case elName of None \<Rightarrow> ''undefined'' | Some n \<Rightarrow> n)"

text \<open>
  \<^verbatim>\<open>saveElement(el, path)\<close> returns the element's name, or nothing for an element
  without script. \<open>saveElementChildren\<close> is its loop
  \<^verbatim>\<open>el.children.forEach(c => saveElement(c, elDir))\<close>, which drops the names.
\<close>

fun saveElement :: "deps \<Rightarrow> UiElement \<Rightarrow> string \<Rightarrow> fs \<Rightarrow> (exn + string option) \<times> fs"
  and saveElementChildren :: "deps \<Rightarrow> UiElement list \<Rightarrow> string \<Rightarrow> fs \<Rightarrow> (exn + unit) \<times> fs" where
  "saveElement D (UiElement script0 styles0 template0 children0 rest0) path st =
     (case blob script0 of
        None \<Rightarrow> (Inr None, st)
      | Some b \<Rightarrow>
          let script = fromBase64 D b in
          if script = [] then (Inr None, st)
          else
            (case extractName D script of
               Inl e \<Rightarrow> (Inl e, st)
             | Inr elName \<Rightarrow>
                 let elDir = path @ ''/'' @ showName elName;
                     st1 = mkdirIfAbsent elDir st;
                     st2 = writeFileSafe elDir ''script.ts'' (Text script) st1;
                     st3 = (case blob styles0 of
                              None \<Rightarrow> st2
                            | Some c \<Rightarrow> writeFileSafe elDir ''styles.css'' (Text (fromBase64 D c)) st2);
                     st4 = (case blob template0 of
                              None \<Rightarrow> st3
                            | Some c \<Rightarrow> writeFileSafe elDir ''template.html'' (Text (fromBase64 D c)) st3)
                 in (case saveElementChildren D children0 elDir st4 of
                       (Inl e, st5) \<Rightarrow> (Inl e, st5)
                     | (Inr _, st5) \<Rightarrow> (Inr elName, st5))))"
| "saveElementChildren D [] path st = (Inr (), st)"
| "saveElementChildren D (c # cs) path st =
     (case saveElement D c path st of
        (Inl e, st') \<Rightarrow> (Inl e, st')
      | (Inr _, st') \<Rightarrow> saveElementChildren D cs path st')"

text \<open>
  The \<^verbatim>\<open>children.reduce\<close> of \<^verbatim>\<open>saveUiDefinition\<close>: a name is appended when it is truthy
  (\<^verbatim>\<open>elName ? [...acc, elName] : acc\<close>).
\<close>

definition appendName :: "string list \<Rightarrow> string option \<Rightarrow> string list" where
  "appendName acc elName =
     (case elName of None \<Rightarrow> acc | Some n \<Rightarrow> if n = [] then acc else acc @ [n])"

fun saveChildren ::
  "deps \<Rightarrow> UiElement list \<Rightarrow> string \<Rightarrow> string list \<Rightarrow> fs \<Rightarrow> (exn + string list) \<times> fs" where
  "saveChildren D [] path acc st = (Inr acc, st)"
| "saveChildren D (child # others) path acc st =
     (case saveElement D child path st of
        (Inl e, st') \<Rightarrow> (Inl e, st')
      | (Inr elName, st') \<Rightarrow> saveChildren D others path (appendName acc elName) st')"

text \<open>
  \<^verbatim>\<open>saveUiDefinition(ui, path)\<close>: \<^verbatim>\<open>children.reduce\<close> on a definition without
  \<^verbatim>\<open>children\<close> throws a \<^verbatim>\<open>TypeError\<close>.
\<close>

definition saveUiDefinition :: "deps \<Rightarrow> UiDef \<Rightarrow> string \<Rightarrow> fs \<Rightarrow> (exn + unit) \<times> fs" where
  "saveUiDefinition D ui path st =
     (case ui_children ui of
        None \<Rightarrow> (Inl TypeError, st)
      | Some children \<Rightarrow>
          (case saveChildren D children path [] st of
             (Inl e, st') \<Rightarrow> (Inl e, st')
           | (Inr childrenNames, st') \<Rightarrow>
               (Inr (),
                writeFileSafe path ''metadata.json''
                  (UiMetadataJson (ui\<lparr>ui_children := None\<rparr>) childrenNames) st')))"


section \<open>Pull\<close>

text \<open>
  Modelled from the spec: \<^verbatim>\<open>ProductModel\<close> of \<^verbatim>\<open>shared/types/productModel.types\<close> is
  not among the sources; the serializer reads the name and the reference of the
  definitions document (\<^verbatim>\<open>VELOCPQ__UiDefinitionsId__c\<close>).
\<close>

record ProductModel =
  pm_Id :: string
  pm_Name :: string
  pm_UiDefinitionsId :: "string option"

text \<open>\<^verbatim>\<open>String.prototype.split\<close> with a separator of one character.\<close>

fun split_str :: "char \<Rightarrow> string \<Rightarrow> string list" where
  "split_str sep [] = [[]]"
| "split_str sep (c # cs) =
     (if c = sep then [] # split_str sep cs
      else (case split_str sep cs of
              [] \<Rightarrow> [[c]]
            | w # ws \<Rightarrow> (c # w) # ws))"

text \<open>Reading an array at an index: \<^verbatim>\<open>undefined\<close> (\<open>None\<close>) past its end.\<close>

fun at :: "'a list \<Rightarrow> nat \<Rightarrow> 'a option" where
  "at [] i = None"
| "at (x # xs) 0 = Some x"
| "at (x # xs) (Suc i) = at xs i"

text \<open>
  The \<^verbatim>\<open>reduce\<close> of \<^verbatim>\<open>pullUI\<close> that builds \<^verbatim>\<open>uiDefNamesMap\<close> from the entries
  \<^verbatim>\<open>model:definition\<close> of \<^verbatim>\<open>uisToDump\<close>, a set listed in insertion order: a later entry
  for the same model replaces the earlier one. The accumulator is an object literal, which
  inherits from \<^verbatim>\<open>Object.prototype\<close>: an assignment to \<^verbatim>\<open>__proto__\<close> of a value that is
  no object is void, and reading a key that is no own property gives the inherited member
  where the key names one (\<open>objectPrototypeKeys\<close>, the members of the platform's
  \<^verbatim>\<open>Object.prototype\<close>), a function or, for \<^verbatim>\<open>__proto__\<close>, the prototype itself: a truthy
  value that is equal to no string.
\<close>

definition objectPrototypeKeys :: "string list" where
  "objectPrototypeKeys =
     [''constructor'', ''__defineGetter__'', ''__defineSetter__'', ''hasOwnProperty'',
      ''__lookupGetter__'', ''__lookupSetter__'', ''isPrototypeOf'', ''propertyIsEnumerable'',
      ''toString'', ''valueOf'', ''__proto__'', ''toLocaleString'']"

definition uiDefNamesMap :: "string list \<Rightarrow> (string \<times> string option) list" where
  "uiDefNamesMap uisToDump =
     foldl
       (\<lambda>acc ui.
          let parts = split_str CHR '':'' ui in
          (case at parts 0 of
             None \<Rightarrow> acc
           | Some modelName \<Rightarrow>
               if modelName = ''__proto__'' then acc
               else AList.update modelName (at parts 1) acc))
       [] uisToDump"

text \<open>
  What \<^verbatim>\<open>uiDefNamesMap[Name]\<close> reads: a string or \<^verbatim>\<open>undefined\<close>, or an inherited
  member; and the test \<^verbatim>\<open>!\<close> of it.
\<close>

datatype lookup = Inherited | Plain "string option"

definition namesMapAt :: "(string \<times> string option) list \<Rightarrow> string \<Rightarrow> lookup" where
  "namesMapAt m Name =
     (case map_of m Name of
        Some v \<Rightarrow> Plain v
      | None \<Rightarrow> if Name \<in> set objectPrototypeKeys then Inherited else Plain None)"

definition falsy :: "lookup \<Rightarrow> bool" where
  "falsy x = (case x of Inherited \<Rightarrow> False | Plain v \<Rightarrow> blob v = None)"

text \<open>
  The inclusion filter of \<^verbatim>\<open>pullUI\<close>:
  \<^verbatim>\<open>dumpAll || !uiDefNamesMap[Name] || uiDefNamesMap[Name] === ui.name\<close>.
\<close>

definition includeUiName :: "bool \<Rightarrow> string list \<Rightarrow> string \<Rightarrow> UiDef \<Rightarrow> bool" where
  "includeUiName dumpAll uisToDump Name ui =
     (dumpAll \<or> falsy (namesMapAt (uiDefNamesMap uisToDump) Name)
        \<or> namesMapAt (uiDefNamesMap uisToDump) Name = Plain (Some (ui_name ui)))"

text \<open>
  The command's \<^verbatim>\<open>getMembersByTypes\<close> over the flag \<^verbatim>\<open>--members\<close>
  (\<^verbatim>\<open>type:model:definition\<close> entries separated by commas), and the inclusion filter of
  \<^verbatim>\<open>fetchUiDefinitions\<close>. \<open>memberUi\<close> is the constant \<^verbatim>\<open>Member.ui\<close>, whose declaration
  is not among the sources.
\<close>

definition getMembersByTypes :: "string list \<Rightarrow> string option \<Rightarrow> string list list" where
  "getMembersByTypes memberTypes flagsMembers =
     (let members = (case blob flagsMembers of None \<Rightarrow> [] | Some m \<Rightarrow> m) in
      filter
        (\<lambda>member. case at member 0 of None \<Rightarrow> False | Some type \<Rightarrow> type \<in> set memberTypes)
        (map (split_str CHR '':'') (split_str CHR '','' members)))"

definition includeUiNameCli :: "string \<Rightarrow> string option \<Rightarrow> string \<Rightarrow> UiDef \<Rightarrow> bool" where
  "includeUiNameCli memberUi flagsMembers Name ui =
     (let uiDefMembers = getMembersByTypes [memberUi] flagsMembers in
      blob flagsMembers = None
      \<or> list_ex (\<lambda>member. blob (at member 2) = None \<or> at member 2 = Some (ui_name ui))
           (filter (\<lambda>member. at member 1 = Some Name) uiDefMembers))"

text \<open>
  The body of \<^verbatim>\<open>uiDefs?.forEach\<close>, the same text in \<^verbatim>\<open>pullUI\<close> and in
  \<^verbatim>\<open>fetchUiDefinitions\<close> but for the filter \<open>incl\<close>. The state is
  \<^verbatim>\<open>legacyMetadataArray\<close> and the file system.
\<close>

definition pullDefinition ::
  "deps \<Rightarrow> nat \<Rightarrow> (UiDef \<Rightarrow> bool) \<Rightarrow> string \<Rightarrow> UiDef \<Rightarrow>
     UiDef list \<times> fs \<Rightarrow> (exn + unit) \<times> (UiDef list \<times> fs)" where
  "pullDefinition D n incl path ui ma =
     (if \<not> incl ui then (Inr (), ma)
      else
        let uiDir = path @ ''/'' @ ui_name ui in
        (case isLegacyDefinition D ui of
           Inl e \<Rightarrow> (Inl e, ma)
         | Inr True \<Rightarrow> saveLegacyUiDefinition D n ui uiDir ma
         | Inr False \<Rightarrow>
             (case saveUiDefinition D ui uiDir (snd ma) of
                (r, st) \<Rightarrow> (r, (fst ma, st)))))"

text \<open>
  What a pull changes: the file system, the lines logged and the set
  \<^verbatim>\<open>uiPmsToDump\<close> (in insertion order).
\<close>

record pull_state =
  ps_fs :: fs
  ps_log :: "string list"
  ps_uiPmsToDump :: "string list"

definition setAdd :: "'a \<Rightarrow> 'a list \<Rightarrow> 'a list" where
  "setAdd x xs = (if x \<in> set xs then xs else xs @ [x])"

text \<open>
  The body of \<^verbatim>\<open>contents.forEach\<close> for one pair of a record and its decoded document.
  \<open>mark\<close> tells the two copies apart: \<^verbatim>\<open>pullUI\<close> ends with
  \<^verbatim>\<open>uiPmsToDump.add(Name)\<close>, \<^verbatim>\<open>fetchUiDefinitions\<close> does not.
\<close>

definition pullRecord ::
  "deps \<Rightarrow> nat \<Rightarrow> (string \<Rightarrow> UiDef \<Rightarrow> bool) \<Rightarrow> bool \<Rightarrow> string \<Rightarrow>
     ProductModel \<times> string \<Rightarrow> pull_state \<Rightarrow> (exn + unit) \<times> pull_state" where
  "pullRecord D n incl mark sourcepath pc s =
     (let Name = pm_Name (fst pc) in
      case parseUiDefs D (snd pc) of
        Inl err \<Rightarrow>
          (Inr (), s\<lparr>ps_log := ps_log s @ [''Failed to parse document content: '' @ Name]\<rparr>)
      | Inr uiDefs \<Rightarrow>
          let path = sourcepath @ ''/'' @ Name in
          (case forEach (pullDefinition D n (incl Name) path)
                  (case uiDefs of None \<Rightarrow> [] | Some l \<Rightarrow> l) ([], ps_fs s) of
             (Inl e, (legacyMetadataArray, st)) \<Rightarrow> (Inl e, s\<lparr>ps_fs := st\<rparr>)
           | (Inr _, (legacyMetadataArray, st)) \<Rightarrow>
               let st1 = (if legacyMetadataArray \<noteq> []
                          then writeFileSafe path ''metadata.json''
                                 (LegacyMetadataJson legacyMetadataArray) st
                          else st)
               in (Inr (),
                   s\<lparr>ps_fs := st1,
                     ps_uiPmsToDump :=
                       (if mark then setAdd Name (ps_uiPmsToDump s) else ps_uiPmsToDump s)\<rparr>)))"

record UiReturn =
  uiRecords :: "ProductModel list"
  uiPmsToDump :: "string list"

text \<open>
  \<^verbatim>\<open>pullUI\<close> from the point where the records and their documents have been fetched:
  \<open>contents\<close> pairs each record of \<^verbatim>\<open>uiDefProductModels\<close> with the text of its
  document. The result is the returned value, or the exception that rejects the promise,
  and the state reached.
\<close>

definition pullUI ::
  "deps \<Rightarrow> nat \<Rightarrow> string \<Rightarrow> bool \<Rightarrow> string list \<Rightarrow> (ProductModel \<times> string) list \<Rightarrow> fs \<Rightarrow>
     (exn + UiReturn) \<times> pull_state" where
  "pullUI D n sourcepath dumpAll uisToDump contents st =
     (case forEach (pullRecord D n (includeUiName dumpAll uisToDump) True sourcepath) contents
             \<lparr>ps_fs = st, ps_log = [], ps_uiPmsToDump = []\<rparr> of
        (Inl e, s) \<Rightarrow> (Inl e, s)
      | (Inr _, s) \<Rightarrow>
          (Inr \<lparr>uiRecords = map fst contents, uiPmsToDump = ps_uiPmsToDump s\<rparr>, s))"

text \<open>The \<^verbatim>\<open>contents.forEach\<close> of the command's \<^verbatim>\<open>fetchUiDefinitions\<close>.\<close>

definition fetchUiDefinitions ::
  "deps \<Rightarrow> nat \<Rightarrow> string \<Rightarrow> string \<Rightarrow> string option \<Rightarrow> (ProductModel \<times> string) list \<Rightarrow> fs \<Rightarrow>
     (exn + unit) \<times> pull_state" where
  "fetchUiDefinitions D n memberUi sourcepath flagsMembers contents st =
     forEach (pullRecord D n (includeUiNameCli memberUi flagsMembers) False sourcepath) contents
       \<lparr>ps_fs = st, ps_log = [], ps_uiPmsToDump = []\<rparr>"


section \<open>Layout of the legacy sections\<close>

text \<open>
  The calls \<^verbatim>\<open>saveLegacySectionFiles(c, childPath, metadata)\<close> that
  \<^verbatim>\<open>saveLegacySections\<close> makes, in order, as pairs of the directory and the section:
  \<open>None\<close> when the call stack does not suffice.
\<close>

fun concat_opt :: "'a list option list \<Rightarrow> 'a list option" where
  "concat_opt [] = Some []"
| "concat_opt (x # xs) =
     (case x of None \<Rightarrow> None | Some l \<Rightarrow> map_option ((@) l) (concat_opt xs))"

fun layout :: "nat \<Rightarrow> LegacySection list \<Rightarrow> string \<Rightarrow> jsval \<Rightarrow> (string \<times> LegacySection) list option" where
  "layout 0 sections path parentId = None"
| "layout (Suc n) sections path parentId =
     concat_opt
       (map (\<lambda>c. let childPath = path @ ''/'' @ sec_label c in
                 map_option ((#) (childPath, c)) (layout n sections childPath (sec_id c)))
          (filter (\<lambda>s. sec_parentId s = parentId) sections))"

text \<open>
  A chain below \<open>parentId\<close>: sections of the list, the first with that parent, each next
  one with the previous one's id as its parent. \<open>chainPath\<close> is the directory of the
  chain's last section.
\<close>

fun chain :: "LegacySection list \<Rightarrow> jsval \<Rightarrow> LegacySection list \<Rightarrow> bool" where
  "chain sections parentId [] = True"
| "chain sections parentId (c # cs) =
     (c \<in> set sections \<and> sec_parentId c = parentId \<and> chain sections (sec_id c) cs)"

definition chainPath :: "string \<Rightarrow> LegacySection list \<Rightarrow> string" where
  "chainPath path cs = path @ concat (map (\<lambda>c. ''/'' @ sec_label c) cs)"

section \<open>Transport codec\<close>

text \<open>
  Buffers and texts are lists of bytes (\<open>char\<close> is a byte), a text being its UTF-8
  bytes; on the ASCII text of a base64 rendering \<^verbatim>\<open>Buffer.from(text)\<close> and
  \<^verbatim>\<open>toString()\<close> are the identity. \<open>base64\<close> is \<^verbatim>\<open>buffer.toString('base64')\<close>,
  \<open>unbase64\<close> is \<^verbatim>\<open>Buffer.from(text, 'base64')\<close>, which reads up to the first padding
  character, skips what is not in the alphabet and takes \<^verbatim>\<open>-\<close> and \<^verbatim>\<open>_\<close> (codes 45
  and 95) for \<^verbatim>\<open>+\<close> and \<^verbatim>\<open>/\<close> (codes 43 and 47). A text to decode is taken to have
  no code unit above 255, as no base64 rendering has: of such a unit the platform reads
  the low byte, where the bytes of its UTF-8 form would be skipped here.
\<close>

definition b64char :: "nat \<Rightarrow> char" where
  "b64char i =
     (if i < 26 then char_of (65 + i)
      else if i < 52 then char_of (71 + i)
      else if i < 62 then char_of (i - 4)
      else if i = 62 then CHR ''+'' else CHR ''/'')"

definition b64val :: "char \<Rightarrow> nat option" where
  "b64val c =
     (let k = (of_char c :: nat) in
      if 65 \<le> k \<and> k \<le> 90 then Some (k - 65)
      else if 97 \<le> k \<and> k \<le> 122 then Some (k - 71)
      else if 48 \<le> k \<and> k \<le> 57 then Some (k + 4)
      else if k = 43 \<or> k = 45 then Some 62
      else if k = 47 \<or> k = 95 then Some 63
      else None)"

fun base64 :: "string \<Rightarrow> string" where
  "base64 (a # b # c # bs) =
     (let x = (of_char a :: nat); y = (of_char b :: nat); z = (of_char c :: nat) in
      b64char (x div 4) # b64char (x mod 4 * 16 + y div 16)
        # b64char (y mod 16 * 4 + z div 64) # b64char (z mod 64) # base64 bs)"
| "base64 [a, b] =
     (let x = (of_char a :: nat); y = (of_char b :: nat) in
      [b64char (x div 4), b64char (x mod 4 * 16 + y div 16), b64char (y mod 16 * 4), CHR ''=''])"
| "base64 [a] =
     (let x = (of_char a :: nat) in
      [b64char (x div 4), b64char (x mod 4 * 16), CHR ''='', CHR ''=''])"
| "base64 [] = []"

fun sextets :: "string \<Rightarrow> nat list" where
  "sextets [] = []"
| "sextets (c # cs) =
     (if c = CHR ''='' then []
      else (case b64val c of None \<Rightarrow> sextets cs | Some v \<Rightarrow> v # sextets cs))"

fun unsextets :: "nat list \<Rightarrow> string" where
  "unsextets (p # q # r # s # vs) =
     char_of (p * 4 + q div 16) # char_of (q mod 16 * 16 + r div 4)
       # char_of (r mod 4 * 64 + s) # unsextets vs"
| "unsextets [p, q, r] = [char_of (p * 4 + q div 16), char_of (q mod 16 * 16 + r div 4)]"
| "unsextets [p, q] = [char_of (p * 4 + q div 16)]"
| "unsextets [p] = []"
| "unsextets [] = []"

definition unbase64 :: "string \<Rightarrow> string" where
  "unbase64 text = unsextets (sextets text)"

text \<open>The platform's \<^verbatim>\<open>zlib\<close>: \<^verbatim>\<open>gunzipSync\<close> throws on bytes that are no gzip stream.\<close>

record zlib =
  gzipSync :: "string \<Rightarrow> string"
  gunzipSync :: "string \<Rightarrow> exn + string"

text \<open>
  \<^verbatim>\<open>pushUI\<close>, the encoding of the body:
  \<^verbatim>\<open>Buffer.from(gzipSync(output).toString('base64')).toString('base64')\<close>.
\<close>

definition encode :: "zlib \<Rightarrow> string \<Rightarrow> string" where
  "encode Z output = (let gzipped = gzipSync Z output in base64 (base64 gzipped))"

text \<open>
  The store, on a read, undoes one base64 rendering of the body it was sent ("it will be
  decoded on reads automatically by SF").
\<close>

definition stripOneLayer :: "string \<Rightarrow> string" where
  "stripOneLayer body = unbase64 body"

text \<open>
  \<^verbatim>\<open>getDocumentAttachmentContent\<close>, from the response on:
  \<^verbatim>\<open>gunzipSync(Buffer.from(res.toString(), 'base64')).toString()\<close>.
\<close>

definition decode :: "zlib \<Rightarrow> string \<Rightarrow> exn + string" where
  "decode Z res = (let gzipped = unbase64 res in gunzipSync Z gzipped)"

section \<open>Push\<close>

text \<open>
  Modelled from the spec: the store operations of \<^verbatim>\<open>shared/utils/document.utils\<close> and
  \<^verbatim>\<open>shared/utils/folder.utils\<close> are not among the sources. What the store answers is a
  parameter: \<open>fetchFolder\<close> and \<open>fetchDocument\<close> give the \<^verbatim>\<open>Id\<close> of what they find,
  \<open>createFolder\<close> the \<^verbatim>\<open>id\<close> of the folder it creates. What \<^verbatim>\<open>pushUI\<close> asks the
  store to change is the list of its calls.
\<close>

record remote =
  fetchFolder :: "string \<Rightarrow> string option"
  createFolder :: "string \<Rightarrow> string option"
  fetchDocument :: "string option \<Rightarrow> string option"

record DocumentBody =
  db_folderId :: "string option"
  db_body :: string
  db_name :: string

datatype call =
    CreateFolder string
  | UpdateDocument string DocumentBody
  | CreateDocument DocumentBody

record PushReturn =
  push_uiRecords :: "string list"
  push_uiPmsToUpload :: "string list"

definition FOLDER_NAME :: string where
  "FOLDER_NAME = ''velo_product_models''"

text \<open>
  The callback of \<^verbatim>\<open>productModels.map\<close> for one record. \<open>packJson sourcepath Name\<close>
  stands for \<^verbatim>\<open>JSON.stringify(new UiDefinitionsBuilder(sourcepath, Name).pack(), null, 2)\<close>,
  the builder not being among the sources.
\<close>

definition pushRecord ::
  "zlib \<Rightarrow> remote \<Rightarrow> (string \<Rightarrow> string \<Rightarrow> string) \<Rightarrow> string \<Rightarrow> string option \<Rightarrow> ProductModel \<Rightarrow> call" where
  "pushRecord Z R packJson sourcepath folderId pm =
     (let output = packJson sourcepath (pm_Name pm);
          b64Data = encode Z output;
          documentBody = \<lparr>db_folderId = folderId, db_body = b64Data, db_name = pm_Name pm\<rparr>
      in case blob (fetchDocument R (pm_UiDefinitionsId pm)) of
           Some docId \<Rightarrow> UpdateDocument docId documentBody
         | None \<Rightarrow> CreateDocument documentBody)"

text \<open>
  \<^verbatim>\<open>pushUI\<close> from the point where the records have been fetched. The calls of the
  records are listed in the order of the records; each record makes one.
\<close>

definition pushUI ::
  "zlib \<Rightarrow> remote \<Rightarrow> (string \<Rightarrow> string \<Rightarrow> string) \<Rightarrow> string \<Rightarrow> ProductModel list \<Rightarrow> PushReturn \<times> call list" where
  "pushUI Z R packJson sourcepath productModels =
     (let found = blob (fetchFolder R FOLDER_NAME);
          folderId = (case found of None \<Rightarrow> createFolder R FOLDER_NAME | Some i \<Rightarrow> Some i);
          calls0 = (case found of None \<Rightarrow> [CreateFolder FOLDER_NAME] | Some i \<Rightarrow> [])
      in (\<lparr>push_uiRecords = [], push_uiPmsToUpload = []\<rparr>,
          calls0 @ map (pushRecord Z R packJson sourcepath folderId) productModels))"


section \<open>Notions used in the statements\<close>

text \<open>The files a present blob adds (none when it is missing or falsy).\<close>

definition blobFile ::
  "string \<Rightarrow> string \<Rightarrow> 'a option \<Rightarrow> ('a \<Rightarrow> content) \<Rightarrow> (string \<times> string \<times> content) list" where
  "blobFile dir fileName x f = (case x of None \<Rightarrow> [] | Some b \<Rightarrow> [(dir, fileName, f b)])"

text \<open>The calls of a layout carried out in order on the metadata list and the file system.\<close>

definition runLayout :: "deps \<Rightarrow> (string \<times> LegacySection) list \<Rightarrow> LegacySection list \<times> fs \<Rightarrow> LegacySection list \<times> fs" where
  "runLayout D l ms = foldl (\<lambda>ms1 pc. saveLegacySectionFiles D (snd pc) (fst pc) ms1) ms l"

text \<open>The directory and the section at the end of every non-empty chain below \<open>parentId\<close>.\<close>

definition chainsBelow :: "LegacySection list \<Rightarrow> string \<Rightarrow> jsval \<Rightarrow> (string \<times> LegacySection) set" where
  "chainsBelow secs path pid = {(chainPath path ch, last ch) | ch. ch \<noteq> [] \<and> chain secs pid ch}"

text \<open>
  An element \<^verbatim>\<open>saveElement\<close> returns from at once: its script is missing, empty, or
  decodes to the empty text.
\<close>

definition scriptless :: "deps \<Rightarrow> UiElement \<Rightarrow> bool" where
  "scriptless D el =
     (case blob (el_script el) of None \<Rightarrow> True | Some b \<Rightarrow> fromBase64 D b = [])"

text \<open>The name an element contributes to the list of its definition: none unless the
  script is there and the extractor gives a non-empty name.\<close>

definition elementName :: "deps \<Rightarrow> UiElement \<Rightarrow> string option" where
  "elementName D el =
     (case blob (el_script el) of
        None \<Rightarrow> None
      | Some b \<Rightarrow>
          if fromBase64 D b = [] then None
          else (case extractName D (fromBase64 D b) of
                  Inl e \<Rightarrow> None
                | Inr None \<Rightarrow> None
                | Inr (Some n) \<Rightarrow> if n = [] then None else Some n))"

text \<open>The line logged for a record whose document does not parse.\<close>

definition failedToParse :: "ProductModel \<times> string \<Rightarrow> string" where
  "failedToParse pc = ''Failed to parse document content: '' @ pm_Name (fst pc)"

text \<open>Two states of a pull with the same files and directories and the same set of names.\<close>

definition sameOutput :: "pull_state \<Rightarrow> pull_state \<Rightarrow> bool" where
  "sameOutput s t = (ps_fs s = ps_fs t \<and> ps_uiPmsToDump s = ps_uiPmsToDump t)"

text \<open>
  What processing a definition without \<^verbatim>\<open>tabs\<close> and without \<^verbatim>\<open>children\<close> throws: the
  detector's own exception, or the \<^verbatim>\<open>TypeError\<close> of the branch the detector chose.
\<close>

definition shapeError :: "deps \<Rightarrow> UiDef \<Rightarrow> exn" where
  "shapeError D ui = (case isLegacyDefinition D ui of Inl e \<Rightarrow> e | Inr b \<Rightarrow> TypeError)"

text \<open>The state in which the loop over the records starts.\<close>

definition startState :: "fs \<Rightarrow> pull_state" where
  "startState st = \<lparr>ps_fs = st, ps_log = [], ps_uiPmsToDump = []\<rparr>"

text \<open>The record's document parses.\<close>

definition parsed :: "deps \<Rightarrow> ProductModel \<times> string \<Rightarrow> bool" where
  "parsed D pc = (case parseUiDefs D (snd pc) of Inl e \<Rightarrow> False | Inr uiDefs \<Rightarrow> True)"

text \<open>The exception of a pull, or the names in the set it returns.\<close>

definition returnedNames :: "exn + UiReturn \<Rightarrow> exn + string list" where
  "returnedNames r = (case r of Inl e \<Rightarrow> Inl e | Inr v \<Rightarrow> Inr (uiPmsToDump v))"

text \<open>
  The folder \<^verbatim>\<open>pushUI\<close> uses, found or created, and the body it sends for a record.
\<close>

definition containerFolder :: "remote \<Rightarrow> string option" where
  "containerFolder R =
     (case blob (fetchFolder R FOLDER_NAME) of None \<Rightarrow> createFolder R FOLDER_NAME | Some i \<Rightarrow> Some i)"

definition bodyOf :: "zlib \<Rightarrow> remote \<Rightarrow> (string \<Rightarrow> string \<Rightarrow> string) \<Rightarrow> string \<Rightarrow> ProductModel \<Rightarrow> DocumentBody" where
  "bodyOf Z R packJson sp p =
     \<lparr>db_folderId = containerFolder R, db_body = encode Z (packJson sp (pm_Name p)),
      db_name = pm_Name p\<rparr>"

text \<open>
  The files a modern element is to leave, in the order of writing, each with its directory,
  its name and its content: none for an element \<^verbatim>\<open>saveElement\<close> returns from at once;
  otherwise \<^verbatim>\<open>script.ts\<close>, then \<^verbatim>\<open>styles.css\<close> and \<^verbatim>\<open>template.html\<close> for the blobs
  that are there, in the directory named after the element, then the files of its children
  below that directory. \<open>extractorAnswers\<close> says that the name extractor throws on none of
  the scripts that are reached (the files are meant under it).
\<close>

fun elementFiles :: "deps \<Rightarrow> UiElement \<Rightarrow> string \<Rightarrow> (string \<times> string \<times> content) list"
  and childrenFiles :: "deps \<Rightarrow> UiElement list \<Rightarrow> string \<Rightarrow> (string \<times> string \<times> content) list" where
  "elementFiles D (UiElement script0 styles0 template0 children0 rest0) path =
     (case blob script0 of
        None \<Rightarrow> []
      | Some b \<Rightarrow>
          if fromBase64 D b = [] then []
          else
            (case extractName D (fromBase64 D b) of
               Inl e \<Rightarrow> []
             | Inr elName \<Rightarrow>
                 (path @ ''/'' @ showName elName, ''script.ts'', Text (fromBase64 D b))
                 # blobFile (path @ ''/'' @ showName elName) ''styles.css'' (blob styles0)
                     (\<lambda>c. Text (fromBase64 D c))
                 @ blobFile (path @ ''/'' @ showName elName) ''template.html'' (blob template0)
                     (\<lambda>c. Text (fromBase64 D c))
                 @ childrenFiles D children0 (path @ ''/'' @ showName elName)))"
| "childrenFiles D [] path = []"
| "childrenFiles D (c # cs) path = elementFiles D c path @ childrenFiles D cs path"

fun extractorAnswers :: "deps \<Rightarrow> UiElement \<Rightarrow> bool"
  and extractorAnswersAll :: "deps \<Rightarrow> UiElement list \<Rightarrow> bool" where
  "extractorAnswers D (UiElement script0 styles0 template0 children0 rest0) =
     (case blob script0 of
        None \<Rightarrow> True
      | Some b \<Rightarrow>
          if fromBase64 D b = [] then True
          else
            (case extractName D (fromBase64 D b) of
               Inl e \<Rightarrow> False
             | Inr elName \<Rightarrow> extractorAnswersAll D children0))"
| "extractorAnswersAll D [] = True"
| "extractorAnswersAll D (c # cs) = (extractorAnswers D c \<and> extractorAnswersAll D cs)"

text \<open>
  Between the file systems \<open>st\<close> and \<open>st'\<close> exactly the files \<open>new\<close> were written, in that
  order, and the directories made are those of these files.
\<close>

definition wrote :: "fs \<Rightarrow> fs \<Rightarrow> (string \<times> string \<times> content) list \<Rightarrow> bool" where
  "wrote st st' new =
     (files st' = files st @ new \<and> set (dirs st') = set (dirs st) \<union> set (map fst new))"

text \<open>
  The files a legacy section is to leave in its directory, one for each truthy blob, and
  the metadata object to record for it: each truthy blob dropped and the URL fields set as
  \<^verbatim>\<open>saveLegacySectionFiles\<close> sets them. Then the files and the metadata objects of a
  layout, in its order.
\<close>

definition sectionFiles :: "deps \<Rightarrow> LegacySection \<Rightarrow> string \<Rightarrow> (string \<times> string \<times> content) list" where
  "sectionFiles D s dir =
     blobFile dir (sec_label s @ ''.js'') (blob (sec_script s)) (\<lambda>b. Text (fromBase64 D b))
     @ blobFile dir (sec_label s @ ''.css'') (blob (sec_styles s)) (\<lambda>b. Text (fromBase64 D b))
     @ blobFile dir (sec_label s @ ''.html'') (blob (sec_template s)) (\<lambda>b. Text (fromBase64 D b))
     @ blobFile dir (sec_label s @ ''.json'') (jblob (sec_properties s)) PropertiesJson"

definition sectionMeta :: "LegacySection \<Rightarrow> string \<Rightarrow> LegacySection" where
  "sectionMeta s dir =
     s\<lparr>sec_script := (case blob (sec_script s) of None \<Rightarrow> sec_script s | Some b \<Rightarrow> None),
       sec_styles := (case blob (sec_styles s) of None \<Rightarrow> sec_styles s | Some b \<Rightarrow> None),
       sec_template := (case blob (sec_template s) of None \<Rightarrow> sec_template s | Some b \<Rightarrow> None),
       sec_properties :=
         (case jblob (sec_properties s) of None \<Rightarrow> sec_properties s | Some b \<Rightarrow> None),
       sec_scriptUrl :=
         (case blob (sec_styles s) of
            Some b \<Rightarrow> Some (dir @ ''/'' @ sec_label s @ ''.css'')
          | None \<Rightarrow> (case blob (sec_script s) of
                       Some b \<Rightarrow> Some (dir @ ''/'' @ sec_label s @ ''.js'')
                     | None \<Rightarrow> sec_scriptUrl s)),
       sec_templateUrl :=
         (case blob (sec_template s) of
            Some b \<Rightarrow> Some (dir @ ''/'' @ sec_label s @ ''.html'')
          | None \<Rightarrow> sec_templateUrl s),
       sec_propertiesUrl :=
         (case jblob (sec_properties s) of
            Some b \<Rightarrow> Some (dir @ ''/'' @ sec_label s @ ''.json'')
          | None \<Rightarrow> sec_propertiesUrl s)\<rparr>"

definition layoutFiles :: "deps \<Rightarrow> (string \<times> LegacySection) list \<Rightarrow> (string \<times> string \<times> content) list" where
  "layoutFiles D l = concat (map (\<lambda>pc. sectionFiles D (snd pc) (fst pc)) l)"

definition layoutMetas :: "(string \<times> LegacySection) list \<Rightarrow> LegacySection list" where
  "layoutMetas l = map (\<lambda>pc. sectionMeta (snd pc) (fst pc)) l"

text \<open>
  The output a pull is to leave, level by level, \<open>None\<close> where the processing throws. A
  tab: the layout of the sections of its page below the directory of the tab. A legacy
  definition: the files of the layouts of its tabs, and the definition with the metadata
  objects of its sections for the \<^verbatim>\<open>metadata.json\<close> of the record. A modern definition:
  the files of its elements, then its own \<^verbatim>\<open>metadata.json\<close> with the definition less its
  children and the names of the children. A definition: nothing when the filter leaves it
  out, else what its kind gives in the directory named after it. A record: nothing when its
  document does not parse; else the files of its definitions in order, then the
  \<^verbatim>\<open>metadata.json\<close> of the record when there is a legacy definition among them. A batch:
  the files of its records in order.
\<close>

definition expectedTab :: "nat \<Rightarrow> UiDef \<Rightarrow> string \<Rightarrow> Tab \<Rightarrow> (string \<times> LegacySection) list option" where
  "expectedTab n ui path tab =
     (case ui_sections ui of
        None \<Rightarrow> None
      | Some sections \<Rightarrow>
          layout n (filter (\<lambda>section. sec_page section = tab_id tab) sections)
            (path @ ''/'' @ tab_name tab) Undefined)"

definition expectedLegacy ::
  "deps \<Rightarrow> nat \<Rightarrow> UiDef \<Rightarrow> string \<Rightarrow> ((string \<times> string \<times> content) list \<times> UiDef) option" where
  "expectedLegacy D n ui path =
     (case ui_tabs ui of
        None \<Rightarrow> None
      | Some tabs \<Rightarrow>
          map_option (\<lambda>l. (layoutFiles D l, ui\<lparr>ui_sections := Some (layoutMetas l)\<rparr>))
            (concat_opt (map (expectedTab n ui path) tabs)))"

definition expectedModern :: "deps \<Rightarrow> UiDef \<Rightarrow> string \<Rightarrow> (string \<times> string \<times> content) list option" where
  "expectedModern D ui path =
     (case ui_children ui of
        None \<Rightarrow> None
      | Some cs \<Rightarrow>
          if extractorAnswersAll D cs
          then Some (childrenFiles D cs path
                     @ [(path, ''metadata.json'',
                         UiMetadataJson (ui\<lparr>ui_children := None\<rparr>)
                           (List.map_filter (elementName D) cs))])
          else None)"

definition expectedDefinition ::
  "deps \<Rightarrow> nat \<Rightarrow> (UiDef \<Rightarrow> bool) \<Rightarrow> string \<Rightarrow> UiDef \<Rightarrow>
     ((string \<times> string \<times> content) list \<times> UiDef list) option" where
  "expectedDefinition D n incl path ui =
     (if \<not> incl ui then Some ([], [])
      else
        (case isLegacyDefinition D ui of
           Inl e \<Rightarrow> None
         | Inr True \<Rightarrow>
             map_option (\<lambda>fm. (fst fm, [snd fm])) (expectedLegacy D n ui (path @ ''/'' @ ui_name ui))
         | Inr False \<Rightarrow>
             map_option (\<lambda>f. (f, [])) (expectedModern D ui (path @ ''/'' @ ui_name ui))))"

fun expectedDefinitions ::
  "deps \<Rightarrow> nat \<Rightarrow> (UiDef \<Rightarrow> bool) \<Rightarrow> string \<Rightarrow> UiDef list \<Rightarrow>
     ((string \<times> string \<times> content) list \<times> UiDef list) option" where
  "expectedDefinitions D n incl path [] = Some ([], [])"
| "expectedDefinitions D n incl path (ui # uis) =
     (case expectedDefinition D n incl path ui of
        None \<Rightarrow> None
      | Some fm \<Rightarrow>
          (case expectedDefinitions D n incl path uis of
             None \<Rightarrow> None
           | Some fms \<Rightarrow> Some (fst fm @ fst fms, snd fm @ snd fms)))"

definition expectedRecord ::
  "deps \<Rightarrow> nat \<Rightarrow> (string \<Rightarrow> UiDef \<Rightarrow> bool) \<Rightarrow> string \<Rightarrow> ProductModel \<times> string \<Rightarrow>
     (string \<times> string \<times> content) list option" where
  "expectedRecord D n incl sourcepath pc =
     (case parseUiDefs D (snd pc) of
        Inl e \<Rightarrow> Some []
      | Inr uiDefs \<Rightarrow>
          (case expectedDefinitions D n (incl (pm_Name (fst pc)))
                  (sourcepath @ ''/'' @ pm_Name (fst pc))
                  (case uiDefs of None \<Rightarrow> [] | Some l \<Rightarrow> l) of
             None \<Rightarrow> None
           | Some fm \<Rightarrow>
               Some (fst fm
                     @ (if snd fm \<noteq> []
                        then [(sourcepath @ ''/'' @ pm_Name (fst pc), ''metadata.json'',
                               LegacyMetadataJson (snd fm))]
                        else []))))"

definition expectedBatch ::
  "deps \<Rightarrow> nat \<Rightarrow> (string \<Rightarrow> UiDef \<Rightarrow> bool) \<Rightarrow> string \<Rightarrow> (ProductModel \<times> string) list \<Rightarrow>
     (string \<times> string \<times> content) list option" where
  "expectedBatch D n incl sourcepath contents =
     concat_opt (map (expectedRecord D n incl sourcepath) contents)"

section \<open>Example inputs\<close>

text \<open>Concrete helpers and inputs at which the theorems below are evaluated.\<close>

definition exDeps :: deps where
  "exDeps =
     \<lparr>fromBase64 = unbase64,
      extractName = (\<lambda>s. Inr (Some s)),
      isLegacyDefinition = (\<lambda>ui. Inr (ui_tabs ui \<noteq> None)),
      parseUiDefs = (\<lambda>c. Inl SyntaxError)\<rparr>"

definition emptyFs :: fs where
  "emptyFs = \<lparr>dirs = [], files = []\<rparr>"

definition plainSection :: "jsval \<Rightarrow> jsval \<Rightarrow> string \<Rightarrow> LegacySection" where
  "plainSection i p l =
     \<lparr>sec_id = i, sec_parentId = p, sec_page = Str ''page'', sec_label = l,
      sec_script = None, sec_styles = None, sec_template = None, sec_properties = None,
      sec_scriptUrl = None, sec_stylesUrl = None, sec_templateUrl = None,
      sec_propertiesUrl = None, sec_rest = []\<rparr>"

definition styledSection :: LegacySection where
  "styledSection =
     (plainSection (Num 1) Undefined ''A'')\<lparr>sec_script := Some ''YQ=='', sec_styles := Some ''Yg==''\<rparr>"

definition emptyScriptSection :: LegacySection where
  "emptyScriptSection = (plainSection (Num 1) Undefined ''A'')\<lparr>sec_script := Some []\<rparr>"

text \<open>
  The three sections \<^verbatim>\<open>A\<close>, \<^verbatim>\<open>B\<close> below \<^verbatim>\<open>A\<close> and \<^verbatim>\<open>C\<close> below \<^verbatim>\<open>B\<close>, with ids 1, 2, 3; \<open>root\<close> is
  the \<^verbatim>\<open>parentId\<close> of \<^verbatim>\<open>A\<close>.
\<close>

definition abcSections :: "jsval \<Rightarrow> LegacySection list" where
  "abcSections root =
     [plainSection (Num 1) root ''A'', plainSection (Num 2) (Num 1) ''B'',
      plainSection (Num 3) (Num 2) ''C'']"

definition exTab :: Tab where
  "exTab = \<lparr>tab_id = Str ''page'', tab_name = ''tab''\<rparr>"

definition legacyUi :: "LegacySection list \<Rightarrow> UiDef" where
  "legacyUi secs =
     \<lparr>ui_name = ''ui'', ui_tabs = Some [exTab], ui_sections = Some secs,
      ui_children = None, ui_rest = []\<rparr>"

fun exRank :: "jsval \<Rightarrow> nat" where
  "exRank Undefined = 3"
| "exRank (Num i) = 3 - nat i"
| "exRank v = 0"

text \<open>
  Two sections with the same id, the second its own child; and the three sections with a
  script each.
\<close>

definition cyclicSections :: "LegacySection list" where
  "cyclicSections = [plainSection (Num 1) Undefined ''A'', plainSection (Num 1) (Num 1) ''B'']"

definition scriptedSections :: "LegacySection list" where
  "scriptedSections = map (\<lambda>s. s\<lparr>sec_script := Some ''YQ==''\<rparr>) (abcSections Undefined)"

text \<open>The example helpers with another extractor, and elements with and without script.\<close>

definition withExtractor :: "(string \<Rightarrow> exn + string option) \<Rightarrow> deps" where
  "withExtractor f = exDeps\<lparr>extractName := f\<rparr>"

definition scriptEl :: "string \<Rightarrow> UiElement list \<Rightarrow> UiElement" where
  "scriptEl b cs = UiElement (Some b) None None cs []"

definition noScriptEl :: "UiElement list \<Rightarrow> UiElement" where
  "noScriptEl cs = UiElement None None None cs []"

text \<open>An element with the script \<^verbatim>\<open>b\<close>, styles, a template and one child.\<close>

definition fullEl :: UiElement where
  "fullEl = UiElement (Some ''Yg=='') (Some ''YQ=='') (Some ''Yg=='') [scriptEl ''YQ=='' []] []"

text \<open>
  Documents for the examples: \<^verbatim>\<open>m\<close> holds one modern definition with one named element,
  \<^verbatim>\<open>l\<close> one legacy definition, \<^verbatim>\<open>s\<close> a definition with no collection followed by the
  modern one; any other text does not parse. \<open>byTabs\<close> is a detector that looks for
  \<^verbatim>\<open>tabs\<close>.
\<close>

definition modernUi :: UiDef where
  "modernUi =
     \<lparr>ui_name = ''m'', ui_tabs = None, ui_sections = None,
      ui_children = Some [scriptEl ''YQ=='' []], ui_rest = []\<rparr>"

definition shapelessUi :: UiDef where
  "shapelessUi =
     \<lparr>ui_name = ''odd'', ui_tabs = None, ui_sections = None, ui_children = None, ui_rest = []\<rparr>"

definition docDeps :: "(UiDef \<Rightarrow> exn + bool) \<Rightarrow> deps" where
  "docDeps detector =
     \<lparr>fromBase64 = unbase64,
      extractName = (\<lambda>s. Inr (Some s)),
      isLegacyDefinition = detector,
      parseUiDefs =
        (\<lambda>c. if c = ''m'' then Inr (Some [modernUi])
             else if c = ''l'' then Inr (Some [legacyUi (abcSections Undefined)])
             else if c = ''s'' then Inr (Some [shapelessUi, modernUi])
             else Inl SyntaxError)\<rparr>"

definition byTabs :: "UiDef \<Rightarrow> exn + bool" where
  "byTabs ui = Inr (ui_tabs ui \<noteq> None)"

definition pm :: "string \<Rightarrow> ProductModel" where
  "pm name = \<lparr>pm_Id = name, pm_Name = name, pm_UiDefinitionsId = Some name\<rparr>"

text \<open>A stand-in for the compression (a marker in front of the bytes) and a store.\<close>

definition exZlib :: zlib where
  "exZlib =
     \<lparr>gzipSync = (\<lambda>x. ''gz:'' @ x),
      gunzipSync = (\<lambda>y. if take 3 y = ''gz:'' then Inr (drop 3 y)
                         else Inl (Thrown ''incorrect header check''))\<rparr>"

definition exRemote :: remote where
  "exRemote =
     \<lparr>fetchFolder = (\<lambda>name. None),
      createFolder = (\<lambda>name. Some ''F1''),
      fetchDocument = (\<lambda>ref. if ref = Some ''A'' then Some ''D1'' else None)\<rparr>"

definition exPack :: "string \<Rightarrow> string \<Rightarrow> string" where
  "exPack sourcepath Name = ''[]''"

section \<open>Transport codec: proofs\<close>

lemma b64char_range:
  "i < 64 \<Longrightarrow> (of_char (b64char i) :: nat) =
     (if i < 26 then 65 + i else if i < 52 then 71 + i else if i < 62 then i - 4
      else if i = 62 then 43 else 47)"
  by (simp add: b64char_def)

lemma b64val_b64char: "i < 64 \<Longrightarrow> b64val (b64char i) = Some i"
proof -
  assume i: "i < 64"
  consider "i < 26" | "26 \<le> i" "i < 52" | "52 \<le> i" "i < 62" | "i = 62" | "i = 63"
    using i by linarith
  then show ?thesis
    by cases (auto simp: b64val_def b64char_def Let_def)
qed

lemma b64char_not_pad: "i < 64 \<Longrightarrow> b64char i \<noteq> CHR ''=''"
proof
  assume i: "i < 64" and e: "b64char i = CHR ''=''"
  from e have "(of_char (b64char i) :: nat) = 61" by simp
  with b64char_range[OF i] show False by (simp split: if_splits)
qed

lemma sextets_b64char: "i < 64 \<Longrightarrow> sextets (b64char i # cs) = i # sextets cs"
  by (simp add: b64val_b64char b64char_not_pad)

lemma sextets_pad: "sextets (CHR ''='' # cs) = []"
  by simp

lemma sextet_bounds:
  fixes x y z :: nat
  assumes "x < 256" "y < 256" "z < 256"
  shows "x div 4 < 64" "x mod 4 * 16 + y div 16 < 64" "y mod 16 * 4 + z div 64 < 64" "z mod 64 < 64"
    "x mod 4 * 16 < 64" "y mod 16 * 4 < 64"
  using assms by linarith+

lemma regroup1:
  fixes x y :: nat
  assumes "y < 256"
  shows "x div 4 * 4 + (x mod 4 * 16 + y div 16) div 16 = x"
proof -
  have "y div 16 < 16" using assms by linarith
  then have "(x mod 4 * 16 + y div 16) div 16 = x mod 4" by simp
  then show ?thesis by simp
qed

lemma regroup2:
  fixes x y z :: nat
  assumes "y < 256" "z < 256"
  shows "(x mod 4 * 16 + y div 16) mod 16 * 16 + (y mod 16 * 4 + z div 64) div 4 = y"
proof -
  have a: "y div 16 < 16" using assms by linarith
  have b: "z div 64 < 4" using assms by linarith
  from a have "(x mod 4 * 16 + y div 16) mod 16 = y div 16" by simp
  moreover from b have "(y mod 16 * 4 + z div 64) div 4 = y mod 16" by simp
  ultimately show ?thesis by simp
qed

lemma regroup3:
  fixes y z :: nat
  assumes "z < 256"
  shows "(y mod 16 * 4 + z div 64) mod 4 * 64 + z mod 64 = z"
proof -
  have b: "z div 64 < 4" using assms by linarith
  then have "(y mod 16 * 4 + z div 64) mod 4 = z div 64" by simp
  then show ?thesis by simp
qed

lemma regroup4:
  fixes x :: nat
  shows "x div 4 * 4 + (x mod 4 * 16) div 16 = x"
  by simp

lemma regroup5:
  fixes x y :: nat
  assumes "y < 256"
  shows "(x mod 4 * 16 + y div 16) mod 16 * 16 + (y mod 16 * 4) div 4 = y"
proof -
  have a: "y div 16 < 16" using assms by linarith
  then have "(x mod 4 * 16 + y div 16) mod 16 = y div 16" by simp
  then show ?thesis by simp
qed

lemma unsextets_group3:
  fixes x y z :: nat
  assumes "y < 256" "z < 256"
  shows "unsextets (x div 4 # (x mod 4 * 16 + y div 16) # (y mod 16 * 4 + z div 64) # z mod 64 # vs)
           = char_of x # char_of y # char_of z # unsextets vs"
  by (simp only: unsextets.simps regroup1[OF assms(1)] regroup2[OF assms] regroup3[OF assms(2)])

lemma unsextets_group2:
  fixes x y :: nat
  assumes "y < 256"
  shows "unsextets [x div 4, x mod 4 * 16 + y div 16, y mod 16 * 4] = [char_of x, char_of y]"
  by (simp only: unsextets.simps regroup1[OF assms] regroup5[OF assms])

lemma unsextets_group1:
  fixes x :: nat
  shows "unsextets [x div 4, x mod 4 * 16] = [char_of x]"
  by (simp only: unsextets.simps regroup4)

lemma unbase64_base64: "unbase64 (base64 bs) = bs"
proof (induction bs rule: base64.induct)
  case (1 a b c bs)
  define x y z where "x = (of_char a :: nat)" and "y = (of_char b :: nat)" and "z = (of_char c :: nat)"
  have lt: "x < 256" "y < 256" "z < 256" by (simp_all add: x_def y_def z_def)
  note bd = sextet_bounds[OF lt]
  have e: "base64 (a # b # c # bs) =
      b64char (x div 4) # b64char (x mod 4 * 16 + y div 16)
        # b64char (y mod 16 * 4 + z div 64) # b64char (z mod 64) # base64 bs"
    by (simp only: base64.simps Let_def x_def y_def z_def)
  have s: "sextets (base64 (a # b # c # bs)) =
      x div 4 # (x mod 4 * 16 + y div 16) # (y mod 16 * 4 + z div 64) # z mod 64
        # sextets (base64 bs)"
    by (simp only: e sextets_b64char[OF bd(1)] sextets_b64char[OF bd(2)]
          sextets_b64char[OF bd(3)] sextets_b64char[OF bd(4)])
  have ih: "unsextets (sextets (base64 bs)) = bs"
    using 1[OF refl refl refl] by (simp only: unbase64_def)
  have "unbase64 (base64 (a # b # c # bs)) = char_of x # char_of y # char_of z # bs"
    by (simp only: unbase64_def s unsextets_group3[OF lt(2,3)] ih)
  then show ?case
    by (simp only: x_def y_def z_def char_of_char)
next
  case (2 a b)
  define x y where "x = (of_char a :: nat)" and "y = (of_char b :: nat)"
  have lt: "x < 256" "y < 256" by (simp_all add: x_def y_def)
  note bd = sextet_bounds[OF lt lt(2)]
  have e: "base64 [a, b] =
      [b64char (x div 4), b64char (x mod 4 * 16 + y div 16), b64char (y mod 16 * 4), CHR ''='']"
    by (simp only: base64.simps Let_def x_def y_def)
  have s: "sextets (base64 [a, b]) = [x div 4, x mod 4 * 16 + y div 16, y mod 16 * 4]"
    by (simp only: e sextets_b64char[OF bd(1)] sextets_b64char[OF bd(2)]
          sextets_b64char[OF bd(6)] sextets_pad)
  have "unbase64 (base64 [a, b]) = [char_of x, char_of y]"
    by (simp only: unbase64_def s unsextets_group2[OF lt(2)])
  then show ?case
    by (simp only: x_def y_def char_of_char)
next
  case (3 a)
  define x where "x = (of_char a :: nat)"
  have lt: "x < 256" by (simp add: x_def)
  note bd = sextet_bounds[OF lt lt lt]
  have e: "base64 [a] = [b64char (x div 4), b64char (x mod 4 * 16), CHR ''='', CHR ''='']"
    by (simp only: base64.simps Let_def x_def)
  have s: "sextets (base64 [a]) = [x div 4, x mod 4 * 16]"
    by (simp only: e sextets_b64char[OF bd(1)] sextets_b64char[OF bd(5)] sextets_pad)
  have "unbase64 (base64 [a]) = [char_of x]"
    by (simp only: unbase64_def s unsextets_group1)
  then show ?case
    by (simp only: x_def char_of_char)
next
  case 4
  show ?case by (simp add: unbase64_def)
qed

text \<open>
  Claim C2. The encoder compresses and renders in base64 twice; stripping one rendering
  leaves the base64 text of the compressed bytes, and the decoder, which undoes one
  rendering and decompresses, gives the text back, for every text that the platform's
  decompression restores from its compression.
\<close>

theorem decode_after_one_layer_stripped:
  assumes "gunzipSync Z (gzipSync Z x) = Inr x"
  shows "encode Z x = base64 (base64 (gzipSync Z x))
       \<and> stripOneLayer (encode Z x) = base64 (gzipSync Z x)
       \<and> decode Z (base64 (gzipSync Z x)) = Inr x
       \<and> decode Z (stripOneLayer (encode Z x)) = Inr x"
  using assms by (simp add: encode_def decode_def stripOneLayer_def unbase64_base64 Let_def)

lemma wire_example: "encode exZlib ''[]'' = ''WjNvNlcxMD0=''"
  unfolding encode_def exZlib_def by simp code_simp

text \<open>Claim C2 at the text \<^verbatim>\<open>[]\<close>.\<close>

theorem decode_after_one_layer_stripped_witness:
  "gunzipSync exZlib (gzipSync exZlib ''[]'') = Inr ''[]''
   \<and> encode exZlib ''[]'' = ''WjNvNlcxMD0=''
   \<and> decode exZlib (stripOneLayer (encode exZlib ''[]'')) = Inr ''[]''"
proof -
  have h: "gunzipSync exZlib (gzipSync exZlib ''[]'') = Inr ''[]''"
    by (simp add: exZlib_def)
  from decode_after_one_layer_stripped[OF h]
  have d: "decode exZlib (stripOneLayer (encode exZlib ''[]'')) = Inr ''[]''" by blast
  from h wire_example d show ?thesis by (intro conjI)
qed

lemma unbase64_a: "unbase64 ''YQ=='' = ''a''" by code_simp

lemma unbase64_b: "unbase64 ''Yg=='' = ''b''" by code_simp

section \<open>Legacy section files\<close>

lemma files_writeFileSafe: "files (writeFileSafe d f c st) = files st @ [(d, f, c)]"
  by (simp add: writeFileSafe_def mkdirIfAbsent_def Let_def)

lemma wrote_nothing: "wrote st st []"
  by (simp add: wrote_def)

lemma wrote_then: "wrote st st1 a \<Longrightarrow> wrote st1 st2 b \<Longrightarrow> wrote st st2 (a @ b)"
  by (auto simp: wrote_def)

lemma wrote_writeFileSafe: "wrote st (writeFileSafe d f c st) [(d, f, c)]"
  by (auto simp: wrote_def writeFileSafe_def mkdirIfAbsent_def Let_def)

lemma wrote_mkdir_write: "wrote st (writeFileSafe d f c (mkdirIfAbsent d st)) [(d, f, c)]"
  by (auto simp: wrote_def writeFileSafe_def mkdirIfAbsent_def Let_def)

lemma wrote_blobFile:
  "wrote st (case x of None \<Rightarrow> st | Some c \<Rightarrow> writeFileSafe d f (g c) st) (blobFile d f x g)"
  by (cases x) (simp_all add: blobFile_def wrote_nothing wrote_writeFileSafe)

lemma dirs_writeFileSafe: "set (dirs (writeFileSafe d f c st)) = insert d (set (dirs st))"
  by (auto simp: writeFileSafe_def mkdirIfAbsent_def Let_def)

lemmas sectionMeta_defs =
  sectionMetaFiles_def saveScript_def saveStyles_def saveTemplate_def saveProperties_def

text \<open>
  Claim C10. For a legacy section whose \<^verbatim>\<open>script\<close> and \<^verbatim>\<open>styles\<close> are both present
  (non-empty, as the source tests them), the metadata object pushed for it has the path of
  the \<^verbatim>\<open>.css\<close> file in \<^verbatim>\<open>scriptUrl\<close>, in place of the path of the \<^verbatim>\<open>.js\<close> file
  that was written; \<^verbatim>\<open>stylesUrl\<close> is left as the section had it, and the other two URL
  fields are either left as they were or hold the \<^verbatim>\<open>.html\<close> and \<^verbatim>\<open>.json\<close> paths,
  none of which is the \<^verbatim>\<open>.js\<close> path.
\<close>

theorem scriptUrl_records_styles_path:
  assumes "blob (sec_script s) = Some a" and "blob (sec_styles s) = Some b"
  shows "let r = saveLegacySectionFiles D s dir (ms, st);
             m = last (fst r);
             js = dir @ ''/'' @ sec_label s @ ''.js'';
             css = dir @ ''/'' @ sec_label s @ ''.css'';
             html = dir @ ''/'' @ sec_label s @ ''.html'';
             json = dir @ ''/'' @ sec_label s @ ''.json''
         in fst r = ms @ [m]
          \<and> (dir, sec_label s @ ''.js'', Text (fromBase64 D a)) \<in> set (files (snd r))
          \<and> (dir, sec_label s @ ''.css'', Text (fromBase64 D b)) \<in> set (files (snd r))
          \<and> sec_scriptUrl m = Some css
          \<and> css \<noteq> js \<and> html \<noteq> js \<and> json \<noteq> js
          \<and> sec_stylesUrl m = sec_stylesUrl s
          \<and> (sec_templateUrl m = sec_templateUrl s \<or> sec_templateUrl m = Some html)
          \<and> (sec_propertiesUrl m = sec_propertiesUrl s \<or> sec_propertiesUrl m = Some json)"
  using assms
  by (auto simp: saveLegacySectionFiles_def sectionMeta_defs Let_def files_writeFileSafe
           split: option.splits prod.splits)

text \<open>Claim C10 at a section with the script \<^verbatim>\<open>a\<close> and the styles \<^verbatim>\<open>b\<close>.\<close>

theorem scriptUrl_records_styles_path_witness:
  "blob (sec_script styledSection) = Some ''YQ==''
   \<and> blob (sec_styles styledSection) = Some ''Yg==''
   \<and> sec_scriptUrl (last (fst (saveLegacySectionFiles exDeps styledSection ''d/A'' ([], emptyFs))))
       = Some ''d/A/A.css''
   \<and> (''d/A'', ''A.js'', Text ''a'')
       \<in> set (files (snd (saveLegacySectionFiles exDeps styledSection ''d/A'' ([], emptyFs))))"
proof -
  have h1: "blob (sec_script styledSection) = Some ''YQ==''"
    by (simp add: styledSection_def plainSection_def blob_def)
  have h2: "blob (sec_styles styledSection) = Some ''Yg==''"
    by (simp add: styledSection_def plainSection_def blob_def)
  have u: "fromBase64 exDeps ''YQ=='' = ''a''"
    unfolding exDeps_def by simp code_simp
  have l: "sec_label styledSection = ''A''"
    by (simp add: styledSection_def plainSection_def)
  from scriptUrl_records_styles_path[OF h1 h2, of exDeps "''d/A''" "[]" emptyFs]
  show ?thesis using h1 h2 by (simp add: Let_def u l)
qed

lemma files_sectionMetaFiles:
  "files (snd (sectionMetaFiles D s dir st)) =
     files st
     @ blobFile dir (sec_label s @ ''.js'') (blob (sec_script s)) (\<lambda>b. Text (fromBase64 D b))
     @ blobFile dir (sec_label s @ ''.css'') (blob (sec_styles s)) (\<lambda>b. Text (fromBase64 D b))
     @ blobFile dir (sec_label s @ ''.html'') (blob (sec_template s)) (\<lambda>b. Text (fromBase64 D b))
     @ blobFile dir (sec_label s @ ''.json'') (jblob (sec_properties s)) PropertiesJson"
  by (simp add: sectionMeta_defs blobFile_def Let_def files_writeFileSafe split: option.splits)

lemma meta_sectionMetaFiles:
  "fst (sectionMetaFiles D s dir st) =
     s\<lparr>sec_script := (case blob (sec_script s) of None \<Rightarrow> sec_script s | Some b \<Rightarrow> None),
       sec_styles := (case blob (sec_styles s) of None \<Rightarrow> sec_styles s | Some b \<Rightarrow> None),
       sec_template := (case blob (sec_template s) of None \<Rightarrow> sec_template s | Some b \<Rightarrow> None),
       sec_properties :=
         (case jblob (sec_properties s) of None \<Rightarrow> sec_properties s | Some b \<Rightarrow> None),
       sec_scriptUrl :=
         (case blob (sec_styles s) of
            Some b \<Rightarrow> Some (dir @ ''/'' @ sec_label s @ ''.css'')
          | None \<Rightarrow> (case blob (sec_script s) of
                       Some b \<Rightarrow> Some (dir @ ''/'' @ sec_label s @ ''.js'')
                     | None \<Rightarrow> sec_scriptUrl s)),
       sec_templateUrl :=
         (case blob (sec_template s) of
            Some b \<Rightarrow> Some (dir @ ''/'' @ sec_label s @ ''.html'')
          | None \<Rightarrow> sec_templateUrl s),
       sec_propertiesUrl :=
         (case jblob (sec_properties s) of
            Some b \<Rightarrow> Some (dir @ ''/'' @ sec_label s @ ''.json'')
          | None \<Rightarrow> sec_propertiesUrl s)\<rparr>"
  by (simp add: sectionMeta_defs Let_def split: option.splits)

lemma saveLegacySectionFiles_eq:
  "saveLegacySectionFiles D s dir (ms, st) =
     (ms @ [fst (sectionMetaFiles D s dir st)], snd (sectionMetaFiles D s dir st))"
  by (simp add: saveLegacySectionFiles_def split: prod.splits)

lemma dirs_sectionMetaFiles:
  "set (dirs (snd (sectionMetaFiles D s dir st))) = set (dirs st) \<union> set (map fst (sectionFiles D s dir))"
  by (simp add: sectionMeta_defs sectionFiles_def blobFile_def Let_def dirs_writeFileSafe
        split: option.splits)

lemma saveLegacySectionFiles_writes:
  "\<exists>st'. saveLegacySectionFiles D s dir (ms, st) = (ms @ [sectionMeta s dir], st')
         \<and> wrote st st' (sectionFiles D s dir)"
  unfolding saveLegacySectionFiles_eq
  by (simp add: wrote_def files_sectionMetaFiles dirs_sectionMetaFiles meta_sectionMetaFiles
        sectionMeta_def sectionFiles_def)

text \<open>
  Claim C6, as the code has it. The metadata object pushed for a section drops each of
  \<^verbatim>\<open>script\<close>, \<^verbatim>\<open>styles\<close>, \<^verbatim>\<open>template\<close>, \<^verbatim>\<open>properties\<close> that is truthy, the blob
  being written to the file named from the label; a field that is missing or falsy (the
  empty string) stays as it is. \<^verbatim>\<open>templateUrl\<close> and \<^verbatim>\<open>propertiesUrl\<close> hold the
  path of the file written for their blob and are otherwise unchanged; \<^verbatim>\<open>scriptUrl\<close>
  holds the path of the \<^verbatim>\<open>.js\<close> file when only the script is truthy and is unchanged
  when neither script nor styles is (nothing is said of it when styles is truthy). The
  fields \<^verbatim>\<open>id\<close>, \<^verbatim>\<open>parentId\<close>, \<^verbatim>\<open>page\<close>, \<^verbatim>\<open>label\<close>, \<^verbatim>\<open>stylesUrl\<close> and the rest
  are carried over. The files written are those of the truthy fields and no other, in the
  order \<^verbatim>\<open>.js\<close>, \<^verbatim>\<open>.css\<close>, \<^verbatim>\<open>.html\<close>, \<^verbatim>\<open>.json\<close>: a field that is missing or
  falsy has no file.
\<close>

theorem section_metadata_replaces_truthy_blobs:
  "let r = saveLegacySectionFiles D s dir (ms, st);
       m = last (fst r);
       written = (\<lambda>ext c. (dir, sec_label s @ ext, c) \<in> set (files (snd r)));
       url = (\<lambda>ext. Some (dir @ ''/'' @ sec_label s @ ext))
   in fst r = ms @ [m]
    \<and> (case blob (sec_script s) of
          None \<Rightarrow> sec_script m = sec_script s
        | Some b \<Rightarrow> sec_script m = None \<and> written ''.js'' (Text (fromBase64 D b)))
    \<and> (case blob (sec_styles s) of
          None \<Rightarrow> sec_styles m = sec_styles s
        | Some b \<Rightarrow> sec_styles m = None \<and> written ''.css'' (Text (fromBase64 D b)))
    \<and> (case blob (sec_template s) of
          None \<Rightarrow> sec_template m = sec_template s \<and> sec_templateUrl m = sec_templateUrl s
        | Some b \<Rightarrow> sec_template m = None \<and> written ''.html'' (Text (fromBase64 D b))
                     \<and> sec_templateUrl m = url ''.html'')
    \<and> (case jblob (sec_properties s) of
          None \<Rightarrow> sec_properties m = sec_properties s \<and> sec_propertiesUrl m = sec_propertiesUrl s
        | Some v \<Rightarrow> sec_properties m = None \<and> written ''.json'' (PropertiesJson v)
                     \<and> sec_propertiesUrl m = url ''.json'')
    \<and> (if blob (sec_styles s) \<noteq> None then True
        else if blob (sec_script s) \<noteq> None then sec_scriptUrl m = url ''.js''
        else sec_scriptUrl m = sec_scriptUrl s)
    \<and> sec_id m = sec_id s \<and> sec_parentId m = sec_parentId s \<and> sec_page m = sec_page s
    \<and> sec_label m = sec_label s \<and> sec_stylesUrl m = sec_stylesUrl s \<and> sec_rest m = sec_rest s
    \<and> files (snd r) =
        files st
        @ blobFile dir (sec_label s @ ''.js'') (blob (sec_script s)) (\<lambda>b. Text (fromBase64 D b))
        @ blobFile dir (sec_label s @ ''.css'') (blob (sec_styles s)) (\<lambda>b. Text (fromBase64 D b))
        @ blobFile dir (sec_label s @ ''.html'') (blob (sec_template s)) (\<lambda>b. Text (fromBase64 D b))
        @ blobFile dir (sec_label s @ ''.json'') (jblob (sec_properties s)) PropertiesJson"
  unfolding saveLegacySectionFiles_eq Let_def fst_conv snd_conv last_snoc
    files_sectionMetaFiles meta_sectionMetaFiles
  by (simp add: blobFile_def split: option.splits)

text \<open>
  Claim C6 as stated fails. A section whose \<^verbatim>\<open>script\<close> is the empty string keeps the
  inline field in its metadata, with no file and no URL for it. And for a section with a
  script and styles both files are written, but the metadata holds the \<^verbatim>\<open>.css\<close> path in
  \<^verbatim>\<open>scriptUrl\<close> and no reference to the \<^verbatim>\<open>.js\<close> file.
\<close>

theorem section_metadata_keeps_empty_script:
  "sec_script (last (fst (saveLegacySectionFiles exDeps emptyScriptSection ''d/A'' ([], emptyFs))))
     = Some []
   \<and> sec_scriptUrl (last (fst (saveLegacySectionFiles exDeps emptyScriptSection ''d/A'' ([], emptyFs))))
     = None
   \<and> files (snd (saveLegacySectionFiles exDeps emptyScriptSection ''d/A'' ([], emptyFs))) = []
   \<and> files (snd (saveLegacySectionFiles exDeps styledSection ''d/A'' ([], emptyFs)))
     = [(''d/A'', ''A.js'', Text ''a''), (''d/A'', ''A.css'', Text ''b'')]
   \<and> sec_scriptUrl (last (fst (saveLegacySectionFiles exDeps styledSection ''d/A'' ([], emptyFs))))
     = Some ''d/A/A.css''
   \<and> sec_stylesUrl (last (fst (saveLegacySectionFiles exDeps styledSection ''d/A'' ([], emptyFs))))
     = None"
  unfolding saveLegacySectionFiles_eq fst_conv snd_conv last_snoc
    files_sectionMetaFiles meta_sectionMetaFiles
  by (simp add: emptyScriptSection_def styledSection_def plainSection_def blob_def jblob_def
        emptyFs_def blobFile_def exDeps_def unbase64_a unbase64_b)

section \<open>Layout of the legacy sections: proofs\<close>

lemma runLayout_append: "runLayout D (xs @ ys) ms = runLayout D ys (runLayout D xs ms)"
  by (simp add: runLayout_def)

lemma runLayout_Cons: "runLayout D ((p, c) # xs) ms = runLayout D xs (saveLegacySectionFiles D c p ms)"
  by (simp add: runLayout_def)

lemma forEach_layout:
  assumes IH: "\<And>path pid ms l. layout n secs path pid = Some l \<Longrightarrow>
                 saveLegacySections D n secs path pid ms = (Inr (), runLayout D l ms)"
  shows "concat_opt (map (\<lambda>c. let childPath = path @ ''/'' @ sec_label c in
                 map_option ((#) (childPath, c)) (layout n secs childPath (sec_id c))) cs) = Some l
     \<Longrightarrow> forEach (\<lambda>c ms1. let childPath = path @ ''/'' @ sec_label c in
           saveLegacySections D n secs childPath (sec_id c)
             (saveLegacySectionFiles D c childPath ms1)) cs ms = (Inr (), runLayout D l ms)"
proof (induction cs arbitrary: ms l)
  case Nil
  then show ?case by (simp add: runLayout_def)
next
  case (Cons c cs)
  from Cons.prems obtain lc lr where
    lc: "layout n secs (path @ ''/'' @ sec_label c) (sec_id c) = Some lc" and
    lr: "concat_opt (map (\<lambda>c. let childPath = path @ ''/'' @ sec_label c in
                 map_option ((#) (childPath, c)) (layout n secs childPath (sec_id c))) cs) = Some lr" and
    l: "l = ((path @ ''/'' @ sec_label c, c) # lc) @ lr"
    by (auto simp: Let_def split: option.splits)
  show ?case
    using IH[OF lc] Cons.IH[OF lr]
    by (simp add: Let_def l runLayout_append runLayout_Cons)
qed

lemma saveLegacySections_layout:
  "layout n secs path pid = Some l \<Longrightarrow>
     saveLegacySections D n secs path pid ms = (Inr (), runLayout D l ms)"
proof (induction n arbitrary: path pid ms l)
  case 0
  then show ?case by simp
next
  case (Suc n)
  show ?case
    using forEach_layout[where D=D and n=n and secs=secs, OF Suc.IH] Suc.prems
    by (simp add: Let_def)
qed

lemma chainPath_Cons: "chainPath path (c # cs) = chainPath (path @ ''/'' @ sec_label c) cs"
  by (simp add: chainPath_def)

lemma chainPath_Nil: "chainPath path [] = path"
  by (simp add: chainPath_def)

lemma chainsBelow_unfold:
  "chainsBelow secs path pid =
     (\<Union>c \<in> {c \<in> set secs. sec_parentId c = pid}.
        insert (path @ ''/'' @ sec_label c, c) (chainsBelow secs (path @ ''/'' @ sec_label c) (sec_id c)))"
proof (rule set_eqI, clarify)
  fix p s
  show "(p, s) \<in> chainsBelow secs path pid \<longleftrightarrow>
        (p, s) \<in> (\<Union>c \<in> {c \<in> set secs. sec_parentId c = pid}.
          insert (path @ ''/'' @ sec_label c, c) (chainsBelow secs (path @ ''/'' @ sec_label c) (sec_id c)))"
  proof
    assume "(p, s) \<in> chainsBelow secs path pid"
    then obtain ch where ch: "ch \<noteq> []" "chain secs pid ch" "p = chainPath path ch" "s = last ch"
      by (auto simp: chainsBelow_def)
    then obtain c cs where c: "ch = c # cs" by (cases ch) auto
    with ch have m: "c \<in> set secs" "sec_parentId c = pid" "chain secs (sec_id c) cs" by auto
    show "(p, s) \<in> (\<Union>c \<in> {c \<in> set secs. sec_parentId c = pid}.
          insert (path @ ''/'' @ sec_label c, c) (chainsBelow secs (path @ ''/'' @ sec_label c) (sec_id c)))"
    proof (cases "cs = []")
      case True
      with ch c m show ?thesis by (auto simp: chainPath_Cons chainPath_Nil)
    next
      case False
      with ch c m have "(p, s) \<in> chainsBelow secs (path @ ''/'' @ sec_label c) (sec_id c)"
        unfolding chainsBelow_def by (auto simp: chainPath_Cons intro!: exI[of _ cs])
      with m show ?thesis by blast
    qed
  next
    assume "(p, s) \<in> (\<Union>c \<in> {c \<in> set secs. sec_parentId c = pid}.
          insert (path @ ''/'' @ sec_label c, c) (chainsBelow secs (path @ ''/'' @ sec_label c) (sec_id c)))"
    then obtain c where c: "c \<in> set secs" "sec_parentId c = pid"
      and d: "(p, s) = (path @ ''/'' @ sec_label c, c) \<or> (p, s) \<in> chainsBelow secs (path @ ''/'' @ sec_label c) (sec_id c)"
      by auto
    from d show "(p, s) \<in> chainsBelow secs path pid"
    proof
      assume "(p, s) = (path @ ''/'' @ sec_label c, c)"
      with c show ?thesis
        unfolding chainsBelow_def by (auto simp: chainPath_Cons chainPath_Nil intro!: exI[of _ "[c]"])
    next
      assume "(p, s) \<in> chainsBelow secs (path @ ''/'' @ sec_label c) (sec_id c)"
      then obtain cs where cs: "cs \<noteq> []" "chain secs (sec_id c) cs" "p = chainPath (path @ ''/'' @ sec_label c) cs" "s = last cs"
        by (auto simp: chainsBelow_def)
      with c show ?thesis
        unfolding chainsBelow_def by (auto simp: chainPath_Cons intro!: exI[of _ "c # cs"])
    qed
  qed
qed

lemma set_layout_children:
  assumes IH: "\<And>path pid l. layout n secs path pid = Some l \<Longrightarrow> set l = chainsBelow secs path pid"
  shows "concat_opt (map (\<lambda>c. let childPath = path @ ''/'' @ sec_label c in
                 map_option ((#) (childPath, c)) (layout n secs childPath (sec_id c))) cs) = Some l
     \<Longrightarrow> set l = (\<Union>c \<in> set cs.
        insert (path @ ''/'' @ sec_label c, c) (chainsBelow secs (path @ ''/'' @ sec_label c) (sec_id c)))"
proof (induction cs arbitrary: l)
  case Nil
  then show ?case by simp
next
  case (Cons c cs)
  from Cons.prems obtain lc lr where
    lc: "layout n secs (path @ ''/'' @ sec_label c) (sec_id c) = Some lc" and
    lr: "concat_opt (map (\<lambda>c. let childPath = path @ ''/'' @ sec_label c in
                 map_option ((#) (childPath, c)) (layout n secs childPath (sec_id c))) cs) = Some lr" and
    l: "l = ((path @ ''/'' @ sec_label c, c) # lc) @ lr"
    by (auto simp: Let_def split: option.splits)
  show ?case using IH[OF lc] Cons.IH[OF lr] by (simp add: l)
qed

lemma set_layout: "layout n secs path pid = Some l \<Longrightarrow> set l = chainsBelow secs path pid"
proof (induction n arbitrary: path pid l)
  case 0
  then show ?case by simp
next
  case (Suc n)
  have "set l = (\<Union>c \<in> set (filter (\<lambda>s. sec_parentId s = pid) secs).
        insert (path @ ''/'' @ sec_label c, c) (chainsBelow secs (path @ ''/'' @ sec_label c) (sec_id c)))"
    using set_layout_children[where n=n and secs=secs, OF Suc.IH] Suc.prems by simp
  then show ?case by (subst chainsBelow_unfold) simp
qed

lemma concat_opt_Some:
  "(\<And>x. x \<in> set xs \<Longrightarrow> \<exists>l. f x = Some l) \<Longrightarrow> \<exists>l. concat_opt (map f xs) = Some l"
proof (induction xs)
  case Nil
  then show ?case by simp
next
  case (Cons x xs)
  then obtain l where "f x = Some l" by auto
  moreover from Cons obtain r where "concat_opt (map f xs) = Some r" by auto
  ultimately show ?case by simp
qed

lemma layout_returns:
  assumes rk: "\<forall>c \<in> set secs. rank (sec_id c) < rank (sec_parentId c)"
  shows "rank pid < n \<Longrightarrow> \<exists>l. layout n secs path pid = Some l"
proof (induction n arbitrary: path pid)
  case 0
  then show ?case by simp
next
  case (Suc n)
  have "\<exists>l. concat_opt (map (\<lambda>c. let childPath = path @ ''/'' @ sec_label c in
                 map_option ((#) (childPath, c)) (layout n secs childPath (sec_id c)))
          (filter (\<lambda>s. sec_parentId s = pid) secs)) = Some l"
  proof (rule concat_opt_Some)
    fix c assume "c \<in> set (filter (\<lambda>s. sec_parentId s = pid) secs)"
    then have "c \<in> set secs" "sec_parentId c = pid" by auto
    with rk have "rank (sec_id c) < rank pid" by auto
    with Suc.prems have "rank (sec_id c) < n" by simp
    from Suc.IH[OF this] obtain l where "layout n secs (path @ ''/'' @ sec_label c) (sec_id c) = Some l"
      by blast
    then show "\<exists>l. (let childPath = path @ ''/'' @ sec_label c in
                 map_option ((#) (childPath, c)) (layout n secs childPath (sec_id c))) = Some l"
      by (simp add: Let_def)
  qed
  then show ?case by simp
qed

lemma layout_abc:
  "layout 4 (abcSections Undefined) ''ui/tab'' Undefined =
     Some [(''ui/tab/A'', plainSection (Num 1) Undefined ''A''),
           (''ui/tab/A/B'', plainSection (Num 2) (Num 1) ''B''),
           (''ui/tab/A/B/C'', plainSection (Num 3) (Num 2) ''C'')]"
  by (simp add: eval_nat_numeral abcSections_def plainSection_def)

text \<open>
  Claim C1, as the code has it. For a tab of a legacy definition whose sections (those of
  the tab's page) have parent links without a cycle, \<open>rank\<close> decreasing from parent to
  child, and a call stack deeper than the rank of the root: \<^verbatim>\<open>saveLegacySections\<close>
  returns, having saved the sections in the order of the layout, and the layout consists
  of the chains that start at a section whose \<^verbatim>\<open>parentId\<close> is missing (\<open>Undefined\<close>)
  and go from a section to a section of the same list whose \<^verbatim>\<open>parentId\<close> equals its
  \<^verbatim>\<open>id\<close>, each at the directory named by the labels along the chain. For the sections
  A (id 1, no parent), B (id 2, parent 1), C (id 3, parent 2) the directories are
  \<^verbatim>\<open>A\<close>, \<^verbatim>\<open>A/B\<close>, \<^verbatim>\<open>A/B/C\<close> under the tab's directory.
\<close>

theorem legacy_tab_layout:
  assumes "ui_sections ui = Some sections"
    and "tabSections = filter (\<lambda>section. sec_page section = tab_id tab) sections"
    and "\<forall>c \<in> set tabSections. rank (sec_id c) < rank (sec_parentId c)"
    and "rank Undefined < n"
  shows "(\<exists>l. layout n tabSections (path @ ''/'' @ tab_name tab) Undefined = Some l
           \<and> saveLegacyTab D n ui path tab ms = (Inr (), runLayout D l ms)
           \<and> set l = chainsBelow tabSections (path @ ''/'' @ tab_name tab) Undefined)
       \<and> layout 4 (abcSections Undefined) ''ui/tab'' Undefined =
           Some [(''ui/tab/A'', plainSection (Num 1) Undefined ''A''),
                 (''ui/tab/A/B'', plainSection (Num 2) (Num 1) ''B''),
                 (''ui/tab/A/B/C'', plainSection (Num 3) (Num 2) ''C'')]"
proof -
  from layout_returns[OF assms(3) assms(4)] obtain l where
    l: "layout n tabSections (path @ ''/'' @ tab_name tab) Undefined = Some l" by blast
  have "saveLegacyTab D n ui path tab ms = (Inr (), runLayout D l ms)"
    using saveLegacySections_layout[OF l, of D ms] assms(1,2)
    by (simp add: saveLegacyTab_def Let_def)
  with l set_layout[OF l] layout_abc show ?thesis by blast
qed

lemma tab_abc: "filter (\<lambda>section. sec_page section = tab_id exTab) (abcSections r) = abcSections r"
  by (simp add: abcSections_def plainSection_def exTab_def)

text \<open>
  Claim C1 at the sections A, B below A, C below B, the first without \<^verbatim>\<open>parentId\<close>.
\<close>

theorem legacy_tab_layout_witness:
  "ui_sections (legacyUi (abcSections Undefined)) = Some (abcSections Undefined)
   \<and> abcSections Undefined = filter (\<lambda>section. sec_page section = tab_id exTab) (abcSections Undefined)
   \<and> list_all (\<lambda>c. exRank (sec_id c) < exRank (sec_parentId c)) (abcSections Undefined)
   \<and> exRank Undefined < 4
   \<and> saveLegacyTab exDeps 4 (legacyUi (abcSections Undefined)) ''ui'' exTab ([], emptyFs)
       = (Inr (), (abcSections Undefined, emptyFs))
   \<and> chainsBelow (abcSections Undefined) ''ui/tab'' Undefined =
       {(''ui/tab/A'', plainSection (Num 1) Undefined ''A''),
        (''ui/tab/A/B'', plainSection (Num 2) (Num 1) ''B''),
        (''ui/tab/A/B/C'', plainSection (Num 3) (Num 2) ''C'')}"
proof -
  have h1: "ui_sections (legacyUi (abcSections Undefined)) = Some (abcSections Undefined)"
    by (simp add: legacyUi_def)
  have h2: "abcSections Undefined = filter (\<lambda>section. sec_page section = tab_id exTab) (abcSections Undefined)"
    by (simp add: tab_abc)
  have h3: "\<forall>c \<in> set (abcSections Undefined). exRank (sec_id c) < exRank (sec_parentId c)"
    by (simp add: abcSections_def plainSection_def)
  have h4: "exRank Undefined < 4" by simp
  have p: "''ui'' @ ''/'' @ tab_name exTab = ''ui/tab''" by (simp add: exTab_def)
  have r: "runLayout exDeps
             [(''ui/tab/A'', plainSection (Num 1) Undefined ''A''),
              (''ui/tab/A/B'', plainSection (Num 2) (Num 1) ''B''),
              (''ui/tab/A/B/C'', plainSection (Num 3) (Num 2) ''C'')] ([], emptyFs)
           = (abcSections Undefined, emptyFs)"
    unfolding runLayout_def foldl.simps fst_conv snd_conv saveLegacySectionFiles_eq
      meta_sectionMetaFiles
    by (simp add: plainSection_def blob_def jblob_def abcSections_def sectionMeta_defs)
  from legacy_tab_layout[OF h1 h2 h3 h4, of "''ui''" exDeps "([], emptyFs)"]
  obtain l where
    a: "layout 4 (abcSections Undefined) ''ui/tab'' Undefined = Some l" and
    b: "saveLegacyTab exDeps 4 (legacyUi (abcSections Undefined)) ''ui'' exTab ([], emptyFs)
          = (Inr (), runLayout exDeps l ([], emptyFs))" and
    c: "set l = chainsBelow (abcSections Undefined) ''ui/tab'' Undefined"
    unfolding p by blast
  from a layout_abc have l:
    "l = [(''ui/tab/A'', plainSection (Num 1) Undefined ''A''),
          (''ui/tab/A/B'', plainSection (Num 2) (Num 1) ''B''),
          (''ui/tab/A/B/C'', plainSection (Num 3) (Num 2) ''C'')]"
    by simp
  from b have b': "saveLegacyTab exDeps 4 (legacyUi (abcSections Undefined)) ''ui'' exTab ([], emptyFs)
          = (Inr (), (abcSections Undefined, emptyFs))"
    unfolding l r .
  from c have c': "chainsBelow (abcSections Undefined) ''ui/tab'' Undefined =
       {(''ui/tab/A'', plainSection (Num 1) Undefined ''A''),
        (''ui/tab/A/B'', plainSection (Num 2) (Num 1) ''B''),
        (''ui/tab/A/B/C'', plainSection (Num 3) (Num 2) ''C'')}"
    unfolding l by simp
  have h3': "list_all (\<lambda>c. exRank (sec_id c) < exRank (sec_parentId c)) (abcSections Undefined)"
    using h3 by (simp add: list_all_iff)
  from h1 tab_abc[of Undefined] h3' h4 b' c' show ?thesis by simp
qed

text \<open>
  Claim C1 as stated fails at its own example: with \<^verbatim>\<open>parentId: null\<close> on section A no
  section equals the missing \<^verbatim>\<open>parentId\<close> of the first call
  (\<^verbatim>\<open>null === undefined\<close> is false), so nothing is laid out.
\<close>

theorem null_parent_is_not_a_root:
  "layout 4 (filter (\<lambda>section. sec_page section = tab_id exTab) (abcSections Null)) ''ui/tab'' Undefined
     = Some []
   \<and> saveLegacyTab exDeps 4 (legacyUi (abcSections Null)) ''ui'' exTab ([], emptyFs)
     = (Inr (), ([], emptyFs))"
  by (simp add: tab_abc saveLegacyTab_def legacyUi_def Let_def eval_nat_numeral abcSections_def plainSection_def)

lemma cyclic_below_1:
  "fst (saveLegacySections D n cyclicSections path (Num 1) ms) = Inl RangeError"
proof (induction n arbitrary: path ms)
  case 0
  show ?case by simp
next
  case (Suc n)
  have f: "filter (\<lambda>s. sec_parentId s = Num 1) cyclicSections = [plainSection (Num 1) (Num 1) ''B'']"
    by (simp add: cyclicSections_def plainSection_def)
  have i: "sec_id (plainSection (Num 1) (Num 1) ''B'') = Num 1" by (simp add: plainSection_def)
  obtain r s where c: "saveLegacySections D n cyclicSections
        (path @ ''/'' @ sec_label (plainSection (Num 1) (Num 1) ''B'')) (Num 1)
        (saveLegacySectionFiles D (plainSection (Num 1) (Num 1) ''B'')
           (path @ ''/'' @ sec_label (plainSection (Num 1) (Num 1) ''B'')) ms) = (r, s)"
    by (metis surj_pair)
  with Suc[of "path @ ''/'' @ sec_label (plainSection (Num 1) (Num 1) ''B'')"
      "saveLegacySectionFiles D (plainSection (Num 1) (Num 1) ''B'')
           (path @ ''/'' @ sec_label (plainSection (Num 1) (Num 1) ''B'')) ms"]
  have r: "r = Inl RangeError" by simp
  show ?case
    unfolding saveLegacySections.simps Let_def f forEach.simps i c r by simp
qed

text \<open>
  Without the hypothesis on the parent links the call need not return: on two sections
  that share an id, the second being its own child, it exhausts any call stack.
\<close>

lemma cyclic_sections_exhaust_stack:
  "fst (saveLegacySections D n cyclicSections path Undefined ms) = Inl RangeError"
proof (cases n)
  case 0
  then show ?thesis by simp
next
  case (Suc k)
  have f: "filter (\<lambda>s. sec_parentId s = Undefined) cyclicSections = [plainSection (Num 1) Undefined ''A'']"
    by (simp add: cyclicSections_def plainSection_def)
  have i: "sec_id (plainSection (Num 1) Undefined ''A'') = Num 1" by (simp add: plainSection_def)
  obtain r s where c: "saveLegacySections D k cyclicSections
        (path @ ''/'' @ sec_label (plainSection (Num 1) Undefined ''A'')) (Num 1)
        (saveLegacySectionFiles D (plainSection (Num 1) Undefined ''A'')
           (path @ ''/'' @ sec_label (plainSection (Num 1) Undefined ''A'')) ms) = (r, s)"
    by (metis surj_pair)
  with cyclic_below_1[of D k "path @ ''/'' @ sec_label (plainSection (Num 1) Undefined ''A'')"
      "saveLegacySectionFiles D (plainSection (Num 1) Undefined ''A'')
           (path @ ''/'' @ sec_label (plainSection (Num 1) Undefined ''A'')) ms"]
  have r: "r = Inl RangeError" by simp
  show ?thesis
    unfolding Suc saveLegacySections.simps Let_def f forEach.simps i c r by simp
qed

text \<open>The same three sections with a script each: the files show the nesting.\<close>

lemma scripted_files:
  "files (snd (snd (saveLegacyTab exDeps 4 (legacyUi scriptedSections) ''ui'' exTab ([], emptyFs))))
     = [(''ui/tab/A'', ''A.js'', Text ''a''),
        (''ui/tab/A/B'', ''B.js'', Text ''a''),
        (''ui/tab/A/B/C'', ''C.js'', Text ''a'')]"
proof -
  have u: "fromBase64 exDeps ''YQ=='' = ''a''" by (simp add: exDeps_def unbase64_a)
  have t: "filter (\<lambda>section. sec_page section = tab_id exTab) scriptedSections = scriptedSections"
    by (simp add: scriptedSections_def abcSections_def plainSection_def exTab_def)
  show ?thesis
    unfolding saveLegacyTab_def legacyUi_def Let_def
    by (simp add: t eval_nat_numeral scriptedSections_def abcSections_def plainSection_def
          saveLegacySectionFiles_eq files_sectionMetaFiles blobFile_def blob_def jblob_def u
          exTab_def emptyFs_def)
qed

lemma runLayout_writes:
  "\<exists>st'. runLayout D l (ms, st) = (ms @ layoutMetas l, st') \<and> wrote st st' (layoutFiles D l)"
proof (induction l arbitrary: ms st)
  case Nil
  show ?case by (simp add: runLayout_def layoutMetas_def layoutFiles_def wrote_nothing)
next
  case (Cons pc l)
  obtain p c where pc: "pc = (p, c)" by (cases pc)
  from saveLegacySectionFiles_writes[of D c p ms st] obtain st1 where
    s1: "saveLegacySectionFiles D c p (ms, st) = (ms @ [sectionMeta c p], st1)" and
    w1: "wrote st st1 (sectionFiles D c p)" by blast
  from Cons.IH[of "ms @ [sectionMeta c p]" st1] obtain st2 where
    s2: "runLayout D l (ms @ [sectionMeta c p], st1) = ((ms @ [sectionMeta c p]) @ layoutMetas l, st2)" and
    w2: "wrote st1 st2 (layoutFiles D l)" by blast
  from wrote_then[OF w1 w2] have "wrote st st2 (layoutFiles D (pc # l))"
    by (simp add: layoutFiles_def pc)
  moreover have "runLayout D (pc # l) (ms, st) = (ms @ layoutMetas (pc # l), st2)"
    using s1 s2 by (simp add: pc runLayout_Cons layoutMetas_def)
  ultimately show ?case by blast
qed

lemma saveLegacyTab_expected:
  "expectedTab n ui path tab = Some l \<Longrightarrow> saveLegacyTab D n ui path tab ms = (Inr (), runLayout D l ms)"
  by (auto simp: expectedTab_def saveLegacyTab_def Let_def saveLegacySections_layout
           split: option.splits)

lemma forEach_tabs_expected:
  "concat_opt (map (expectedTab n ui path) tabs) = Some l \<Longrightarrow>
     forEach (saveLegacyTab D n ui path) tabs ms = (Inr (), runLayout D l ms)"
proof (induction tabs arbitrary: ms l)
  case Nil
  then show ?case by (simp add: runLayout_def)
next
  case (Cons t tabs)
  from Cons.prems obtain a b where
    a: "expectedTab n ui path t = Some a" and
    b: "concat_opt (map (expectedTab n ui path) tabs) = Some b" and l: "l = a @ b"
    by (auto split: option.splits)
  from saveLegacyTab_expected[OF a, of D ms] Cons.IH[OF b, of "runLayout D a ms"]
  show ?case by (simp add: l runLayout_append)
qed

lemma saveLegacyUiDefinition_expected:
  assumes "expectedLegacy D n ui path = Some (f, m)"
  shows "\<exists>st'. saveLegacyUiDefinition D n ui path (ma, st) = (Inr (), (ma @ [m], st')) \<and> wrote st st' f"
proof -
  from assms obtain tabs l where
    t: "ui_tabs ui = Some tabs" and
    c: "concat_opt (map (expectedTab n ui path) tabs) = Some l" and
    f: "f = layoutFiles D l" and m: "m = ui\<lparr>ui_sections := Some (layoutMetas l)\<rparr>"
    by (auto simp: expectedLegacy_def split: option.splits)
  from runLayout_writes[of D l "[]" st] obtain st' where
    r: "runLayout D l ([], st) = (layoutMetas l, st')" and w: "wrote st st' (layoutFiles D l)"
    by auto
  from forEach_tabs_expected[OF c, of D "([], st)"] r
  have "saveLegacyUiDefinition D n ui path (ma, st) = (Inr (), (ma @ [m], st'))"
    by (simp add: saveLegacyUiDefinition_def t m)
  with w f show ?thesis by blast
qed

lemma forEach_layout_throws:
  assumes IH: "\<And>path pid ms. layout n secs path pid = None \<Longrightarrow>
                 \<exists>e ms'. saveLegacySections D n secs path pid ms = (Inl e, ms')"
  shows "concat_opt (map (\<lambda>c. let childPath = path @ ''/'' @ sec_label c in
                 map_option ((#) (childPath, c)) (layout n secs childPath (sec_id c))) cs) = None
     \<Longrightarrow> \<exists>e ms'. forEach (\<lambda>c ms1. let childPath = path @ ''/'' @ sec_label c in
           saveLegacySections D n secs childPath (sec_id c)
             (saveLegacySectionFiles D c childPath ms1)) cs ms = (Inl e, ms')"
proof (induction cs arbitrary: ms)
  case Nil
  then show ?case by simp
next
  case (Cons c cs)
  show ?case
  proof (cases "layout n secs (path @ ''/'' @ sec_label c) (sec_id c)")
    case None
    from IH[OF None, of "saveLegacySectionFiles D c (path @ ''/'' @ sec_label c) ms"]
    obtain e ms' where
      "saveLegacySections D n secs (path @ ''/'' @ sec_label c) (sec_id c)
         (saveLegacySectionFiles D c (path @ ''/'' @ sec_label c) ms) = (Inl e, ms')" by blast
    then show ?thesis by (simp add: Let_def)
  next
    case (Some lc)
    with Cons.prems have
      "concat_opt (map (\<lambda>c. let childPath = path @ ''/'' @ sec_label c in
                 map_option ((#) (childPath, c)) (layout n secs childPath (sec_id c))) cs) = None"
      by (auto simp: Let_def split: option.splits)
    from Cons.IH[OF this]
      saveLegacySections_layout[OF Some, of D "saveLegacySectionFiles D c (path @ ''/'' @ sec_label c) ms"]
    show ?thesis by (simp add: Let_def)
  qed
qed

lemma saveLegacySections_throws:
  "layout n secs path pid = None \<Longrightarrow>
     \<exists>e ms'. saveLegacySections D n secs path pid ms = (Inl e, ms')"
proof (induction n arbitrary: path pid ms)
  case 0
  then show ?case by simp
next
  case (Suc n)
  show ?case
    using forEach_layout_throws[where D=D and n=n and secs=secs, OF Suc.IH] Suc.prems
    by (simp add: Let_def)
qed

lemma saveLegacyTab_throws:
  assumes "expectedTab n ui path tab = None"
  shows "\<exists>e ms'. saveLegacyTab D n ui path tab ms = (Inl e, ms')"
proof (cases "ui_sections ui")
  case None
  then show ?thesis by (simp add: saveLegacyTab_def)
next
  case (Some sections)
  with assms have
    "layout n (filter (\<lambda>section. sec_page section = tab_id tab) sections)
       (path @ ''/'' @ tab_name tab) Undefined = None"
    by (simp add: expectedTab_def)
  from saveLegacySections_throws[OF this, of D ms] Some show ?thesis
    by (simp add: saveLegacyTab_def)
qed

lemma forEach_tabs_throws:
  "concat_opt (map (expectedTab n ui path) tabs) = None \<Longrightarrow>
     \<exists>e ms'. forEach (saveLegacyTab D n ui path) tabs ms = (Inl e, ms')"
proof (induction tabs arbitrary: ms)
  case Nil
  then show ?case by simp
next
  case (Cons t tabs)
  show ?case
  proof (cases "expectedTab n ui path t")
    case None
    from saveLegacyTab_throws[OF None, of D ms] obtain e ms' where
      "saveLegacyTab D n ui path t ms = (Inl e, ms')" by blast
    then show ?thesis by simp
  next
    case (Some a)
    with Cons.prems have "concat_opt (map (expectedTab n ui path) tabs) = None"
      by (auto split: option.splits)
    from Cons.IH[OF this] saveLegacyTab_expected[OF Some, of D ms] show ?thesis by simp
  qed
qed

lemma saveLegacyUiDefinition_throws:
  assumes "expectedLegacy D n ui path = None"
  shows "\<exists>e ma'. saveLegacyUiDefinition D n ui path ma = (Inl e, ma')"
proof (cases "ui_tabs ui")
  case None
  then show ?thesis by (simp add: saveLegacyUiDefinition_def)
next
  case (Some tabs)
  with assms have "concat_opt (map (expectedTab n ui path) tabs) = None"
    by (simp add: expectedLegacy_def)
  from forEach_tabs_throws[OF this, of D "([], snd ma)"] obtain e secs st where
    "forEach (saveLegacyTab D n ui path) tabs ([], snd ma) = (Inl e, (secs, st))" by auto
  with Some show ?thesis by (simp add: saveLegacyUiDefinition_def)
qed

section \<open>Modern elements: proofs\<close>

lemma saveElement_scriptless:
  "scriptless D el \<Longrightarrow> saveElement D el path st = (Inr None, st)"
  by (cases el) (auto simp: scriptless_def split: option.splits)

lemma saveElement_name:
  "saveElement D el path st = (Inr nm, st') \<Longrightarrow>
     appendName acc nm = acc @ (case elementName D el of None \<Rightarrow> [] | Some n \<Rightarrow> [n])"
  by (cases el)
     (auto simp: elementName_def appendName_def Let_def
           split: option.splits if_splits sum.splits prod.splits)

lemma saveChildren_names:
  "saveChildren D cs path acc st = (Inr names, st') \<Longrightarrow>
     names = acc @ List.map_filter (elementName D) cs"
proof (induction cs arbitrary: acc st)
  case Nil
  then show ?case by simp
next
  case (Cons c cs)
  from Cons.prems obtain nm st1 where
    c: "saveElement D c path st = (Inr nm, st1)" and
    r: "saveChildren D cs path (appendName acc nm) st1 = (Inr names, st')"
    by (auto split: prod.splits sum.splits)
  from Cons.IH[OF r] saveElement_name[OF c, of acc]
  show ?case by (simp split: option.splits)
qed

lemma saveChildren_skip:
  "scriptless D el \<Longrightarrow>
     saveChildren D (pre @ el # post) path acc st = saveChildren D (pre @ post) path acc st"
proof (induction pre arbitrary: acc st)
  case Nil
  then show ?case by (simp add: saveElement_scriptless appendName_def)
next
  case (Cons c pre)
  then show ?case by (simp split: prod.splits sum.splits)
qed

lemma saveElementChildren_skip:
  "scriptless D el \<Longrightarrow>
     saveElementChildren D (pre @ el # post) path st = saveElementChildren D (pre @ post) path st"
proof (induction pre arbitrary: st)
  case Nil
  then show ?case by (simp add: saveElement_scriptless)
next
  case (Cons c pre)
  then show ?case by (simp split: prod.splits sum.splits)
qed

lemma elementName_nonempty: "elementName D el \<noteq> Some []"
  by (simp add: elementName_def split: option.splits sum.splits)

lemma in_set_map_filter: "y \<in> set (List.map_filter f xs) \<longleftrightarrow> (\<exists>x \<in> set xs. f x = Some y)"
  by (induction xs) (auto split: option.splits)

lemma saveUiDefinition_children:
  "saveUiDefinition D (ui\<lparr>ui_children := Some cs\<rparr>) path st =
     (case saveChildren D cs path [] st of
        (Inl e, st') \<Rightarrow> (Inl e, st')
      | (Inr names, st') \<Rightarrow>
          (Inr (), writeFileSafe path ''metadata.json''
                     (UiMetadataJson (ui\<lparr>ui_children := None\<rparr>) names) st'))"
  by (simp add: saveUiDefinition_def split: prod.splits sum.splits)

lemma saveElement_writes:
  "extractorAnswers D el \<Longrightarrow>
     \<exists>nm st'. saveElement D el path st = (Inr nm, st') \<and> wrote st st' (elementFiles D el path)"
  "extractorAnswersAll D cs \<Longrightarrow>
     \<exists>st'. saveElementChildren D cs path st = (Inr (), st') \<and> wrote st st' (childrenFiles D cs path)"
proof (induction D el path st and D cs path st rule: saveElement_saveElementChildren.induct)
  case (1 D script0 styles0 template0 children0 rest0 path st)
  show ?case
  proof (cases "blob script0")
    case None
    then show ?thesis by (simp add: wrote_nothing)
  next
    case (Some b)
    show ?thesis
    proof (cases "fromBase64 D b = []")
      case True
      with Some show ?thesis by (simp add: wrote_nothing)
    next
      case False
      with Some "1.prems" obtain elName where
        e: "extractName D (fromBase64 D b) = Inr elName" and a: "extractorAnswersAll D children0"
        by (auto split: sum.splits)
      define dir where "dir = path @ ''/'' @ showName elName"
      define st2 where "st2 = writeFileSafe dir ''script.ts'' (Text (fromBase64 D b)) (mkdirIfAbsent dir st)"
      define st3 where "st3 = (case blob styles0 of None \<Rightarrow> st2
                  | Some c \<Rightarrow> writeFileSafe dir ''styles.css'' (Text (fromBase64 D c)) st2)"
      define st4 where "st4 = (case blob template0 of None \<Rightarrow> st3
                  | Some c \<Rightarrow> writeFileSafe dir ''template.html'' (Text (fromBase64 D c)) st3)"
      from "1.IH"[OF Some refl False e refl refl refl refl refl a]
      obtain st5 where
        c: "saveElementChildren D children0 dir st4 = (Inr (), st5)" and
        w: "wrote st4 st5 (childrenFiles D children0 dir)"
        unfolding dir_def st2_def st3_def st4_def by blast
      have w2: "wrote st st2 [(dir, ''script.ts'', Text (fromBase64 D b))]"
        unfolding st2_def by (rule wrote_mkdir_write)
      have w3: "wrote st2 st3 (blobFile dir ''styles.css'' (blob styles0) (\<lambda>c. Text (fromBase64 D c)))"
        unfolding st3_def by (rule wrote_blobFile)
      have w4: "wrote st3 st4 (blobFile dir ''template.html'' (blob template0) (\<lambda>c. Text (fromBase64 D c)))"
        unfolding st4_def by (rule wrote_blobFile)
      have ef: "elementFiles D (UiElement script0 styles0 template0 children0 rest0) path =
                  ([(dir, ''script.ts'', Text (fromBase64 D b))]
                   @ blobFile dir ''styles.css'' (blob styles0) (\<lambda>c. Text (fromBase64 D c))
                   @ blobFile dir ''template.html'' (blob template0) (\<lambda>c. Text (fromBase64 D c)))
                  @ childrenFiles D children0 dir"
        using Some False e unfolding dir_def by simp
      from wrote_then[OF wrote_then[OF wrote_then[OF w2 w3] w4] w]
      have "wrote st st5 (elementFiles D (UiElement script0 styles0 template0 children0 rest0) path)"
        unfolding ef by simp
      moreover have "saveElement D (UiElement script0 styles0 template0 children0 rest0) path st
                       = (case saveElementChildren D children0 dir st4 of
                            (Inl e, st5) \<Rightarrow> (Inl e, st5)
                          | (Inr u, st5) \<Rightarrow> (Inr elName, st5))"
        by (simp only: saveElement.simps Some option.case False if_False e sum.case Let_def
              dir_def st2_def st3_def st4_def)
      then have "saveElement D (UiElement script0 styles0 template0 children0 rest0) path st
                       = (Inr elName, st5)"
        unfolding c by simp
      ultimately show ?thesis by blast
    qed
  qed
next
  case (2 D path st)
  show ?case by (simp add: wrote_nothing)
next
  case (3 D c cs path st)
  from "3.prems" have a: "extractorAnswers D c" and b: "extractorAnswersAll D cs" by simp_all
  from "3.IH"(1)[OF a] obtain nm st1 where
    s1: "saveElement D c path st = (Inr nm, st1)" and w1: "wrote st st1 (elementFiles D c path)"
    by blast
  from "3.IH"(2)[OF s1[symmetric] refl b] obtain st2 where
    s2: "saveElementChildren D cs path st1 = (Inr (), st2)" and
    w2: "wrote st1 st2 (childrenFiles D cs path)"
    by blast
  from s1 s2 wrote_then[OF w1 w2] show ?case by simp
qed

lemma childrenFiles_append:
  "childrenFiles D (xs @ ys) path = childrenFiles D xs path @ childrenFiles D ys path"
  by (induction xs) simp_all

lemma extractorAnswersAll_append:
  "extractorAnswersAll D (xs @ ys) = (extractorAnswersAll D xs \<and> extractorAnswersAll D ys)"
  by (induction xs) simp_all

lemma elementFiles_scriptless: "scriptless D el \<Longrightarrow> elementFiles D el path = []"
  by (cases el) (auto simp: scriptless_def split: option.splits)

lemma extractorAnswers_scriptless: "scriptless D el \<Longrightarrow> extractorAnswers D el"
  by (cases el) (auto simp: scriptless_def split: option.splits)

lemma saveChildren_writes:
  "extractorAnswersAll D cs \<Longrightarrow>
     \<exists>st'. saveChildren D cs path acc st = (Inr (acc @ List.map_filter (elementName D) cs), st')
           \<and> wrote st st' (childrenFiles D cs path)"
proof (induction cs arbitrary: acc st)
  case Nil
  show ?case by (simp add: wrote_nothing)
next
  case (Cons c cs)
  from Cons.prems have a: "extractorAnswers D c" and b: "extractorAnswersAll D cs" by simp_all
  from saveElement_writes(1)[OF a] obtain nm st1 where
    s1: "saveElement D c path st = (Inr nm, st1)" and w1: "wrote st st1 (elementFiles D c path)"
    by blast
  from Cons.IH[OF b] obtain st2 where
    s2: "saveChildren D cs path (appendName acc nm) st1
           = (Inr (appendName acc nm @ List.map_filter (elementName D) cs), st2)" and
    w2: "wrote st1 st2 (childrenFiles D cs path)"
    by blast
  have n: "appendName acc nm @ List.map_filter (elementName D) cs
             = acc @ List.map_filter (elementName D) (c # cs)"
    using saveElement_name[OF s1, of acc] by (simp split: option.splits)
  from s1 s2 n wrote_then[OF w1 w2] show ?case by simp
qed

lemma saveUiDefinition_writes:
  assumes "extractorAnswersAll D cs"
  shows "\<exists>st'. saveUiDefinition D (ui\<lparr>ui_children := Some cs\<rparr>) path st = (Inr (), st')
           \<and> wrote st st'
                (childrenFiles D cs path
                 @ [(path, ''metadata.json'',
                     UiMetadataJson (ui\<lparr>ui_children := None\<rparr>) (List.map_filter (elementName D) cs))])"
proof -
  from saveChildren_writes[OF assms, of path "[]" st] obtain st1 where
    s: "saveChildren D cs path [] st = (Inr (List.map_filter (elementName D) cs), st1)" and
    w: "wrote st st1 (childrenFiles D cs path)"
    by auto
  from s have "saveUiDefinition D (ui\<lparr>ui_children := Some cs\<rparr>) path st
      = (Inr (), writeFileSafe path ''metadata.json''
                   (UiMetadataJson (ui\<lparr>ui_children := None\<rparr>) (List.map_filter (elementName D) cs)) st1)"
    by (simp add: saveUiDefinition_children)
  with wrote_then[OF w wrote_writeFileSafe] show ?thesis by blast
qed

lemma saveElement_throws:
  "\<not> extractorAnswers D el \<Longrightarrow> \<exists>e st'. saveElement D el path st = (Inl e, st')"
  "\<not> extractorAnswersAll D cs \<Longrightarrow> \<exists>e st'. saveElementChildren D cs path st = (Inl e, st')"
proof (induction D el path st and D cs path st rule: saveElement_saveElementChildren.induct)
  case (1 D script0 styles0 template0 children0 rest0 path st)
  from "1.prems" obtain b where Some: "blob script0 = Some b" and ne: "fromBase64 D b \<noteq> []"
    by (auto split: option.splits if_splits)
  show ?case
  proof (cases "extractName D (fromBase64 D b)")
    case (Inl e)
    with Some ne show ?thesis by simp
  next
    case (Inr elName)
    with "1.prems" Some ne have na: "\<not> extractorAnswersAll D children0" by simp
    define dir where "dir = path @ ''/'' @ showName elName"
    define st2 where "st2 = writeFileSafe dir ''script.ts'' (Text (fromBase64 D b)) (mkdirIfAbsent dir st)"
    define st3 where "st3 = (case blob styles0 of None \<Rightarrow> st2
                | Some c \<Rightarrow> writeFileSafe dir ''styles.css'' (Text (fromBase64 D c)) st2)"
    define st4 where "st4 = (case blob template0 of None \<Rightarrow> st3
                | Some c \<Rightarrow> writeFileSafe dir ''template.html'' (Text (fromBase64 D c)) st3)"
    from "1.IH"[OF Some refl ne Inr refl refl refl refl refl na]
    obtain e st5 where c: "saveElementChildren D children0 dir st4 = (Inl e, st5)"
      unfolding dir_def st2_def st3_def st4_def by blast
    have "saveElement D (UiElement script0 styles0 template0 children0 rest0) path st
            = (case saveElementChildren D children0 dir st4 of
                 (Inl e, st5) \<Rightarrow> (Inl e, st5)
               | (Inr u, st5) \<Rightarrow> (Inr elName, st5))"
      by (simp only: saveElement.simps Some option.case ne if_False Inr sum.case Let_def
            dir_def st2_def st3_def st4_def)
    then show ?thesis unfolding c by simp
  qed
next
  case (2 D path st)
  then show ?case by simp
next
  case (3 D c cs path st)
  obtain r st1 where s1: "saveElement D c path st = (r, st1)"
    by (cases "saveElement D c path st")
  show ?case
  proof (cases r)
    case (Inl e)
    with s1 show ?thesis by simp
  next
    case (Inr nm)
    have a: "extractorAnswers D c"
    proof (rule ccontr)
      assume "\<not> extractorAnswers D c"
      from "3.IH"(1)[OF this] s1 Inr show False by simp
    qed
    with "3.prems" have na: "\<not> extractorAnswersAll D cs" by simp
    from s1 Inr have s: "saveElement D c path st = (Inr nm, st1)" by simp
    from "3.IH"(2)[OF s[symmetric] refl na] s show ?thesis by simp
  qed
qed

lemma saveChildren_throws:
  "\<not> extractorAnswersAll D cs \<Longrightarrow> \<exists>e st'. saveChildren D cs path acc st = (Inl e, st')"
proof (induction cs arbitrary: acc st)
  case Nil
  then show ?case by simp
next
  case (Cons c cs)
  obtain r st1 where s1: "saveElement D c path st = (r, st1)"
    by (cases "saveElement D c path st")
  show ?case
  proof (cases r)
    case (Inl e)
    with s1 show ?thesis by simp
  next
    case (Inr nm)
    have a: "extractorAnswers D c"
    proof (rule ccontr)
      assume "\<not> extractorAnswers D c"
      from saveElement_throws(1)[OF this, of path st] s1 Inr show False by simp
    qed
    with Cons.prems have na: "\<not> extractorAnswersAll D cs" by simp
    from Cons.IH[OF na, of "appendName acc nm" st1] s1 Inr show ?thesis by simp
  qed
qed

text \<open>
  Claim C3, as the code has it. An element without script (missing, empty, or decoding to
  the empty text) changes nothing: \<^verbatim>\<open>saveElement\<close> returns no name and the file system as
  it was, and no file is its own; saving a list of elements or a definition with such an
  element gives what saving it without the element gives. Its siblings are written in
  full where the extractor throws on none of them: then the definition is saved, and what
  was written is exactly the files of the elements before it, those of the elements after
  it, each element with its script, styles, template and children, and the
  \<^verbatim>\<open>metadata.json\<close> with the names of the siblings; so it is for any list of children on
  which the extractor does not throw, and where it does throw the definition is not saved.
  The \<^verbatim>\<open>metadata.json\<close> of a definition whose children were all saved is written last and
  lists, in order, the non-empty names the extractor gave for the children with a script,
  and nothing for a child without a name.
\<close>

theorem scriptless_element_is_skipped:
  "(scriptless D el \<longrightarrow>
      saveElement D el path st = (Inr None, st)
      \<and> elementFiles D el path = []
      \<and> saveElementChildren D (pre @ el # post) path st = saveElementChildren D (pre @ post) path st
      \<and> saveChildren D (pre @ el # post) path acc st = saveChildren D (pre @ post) path acc st
      \<and> saveUiDefinition D (ui\<lparr>ui_children := Some (pre @ el # post)\<rparr>) path st
          = saveUiDefinition D (ui\<lparr>ui_children := Some (pre @ post)\<rparr>) path st)
   \<and> (scriptless D el \<and> extractorAnswersAll D (pre @ post) \<longrightarrow>
        (\<exists>st'. saveUiDefinition D (ui\<lparr>ui_children := Some (pre @ el # post)\<rparr>) path st = (Inr (), st')
              \<and> wrote st st'
                   (childrenFiles D pre path @ childrenFiles D post path
                    @ [(path, ''metadata.json'',
                        UiMetadataJson (ui\<lparr>ui_children := None\<rparr>)
                          (List.map_filter (elementName D) (pre @ post)))])))
   \<and> (extractorAnswersAll D cs \<longrightarrow>
        (\<exists>st'. saveUiDefinition D (ui\<lparr>ui_children := Some cs\<rparr>) path st = (Inr (), st')
              \<and> wrote st st'
                   (childrenFiles D cs path
                    @ [(path, ''metadata.json'',
                        UiMetadataJson (ui\<lparr>ui_children := None\<rparr>)
                          (List.map_filter (elementName D) cs))])))
   \<and> (\<not> extractorAnswersAll D cs \<longrightarrow>
        (\<exists>e st'. saveUiDefinition D (ui\<lparr>ui_children := Some cs\<rparr>) path st = (Inl e, st')))
   \<and> (case saveUiDefinition D (ui\<lparr>ui_children := Some cs\<rparr>) path st of
         (Inl e, st') \<Rightarrow> True
       | (Inr u, st') \<Rightarrow>
           last (files st') =
             (path, ''metadata.json'',
              UiMetadataJson (ui\<lparr>ui_children := None\<rparr>) (List.map_filter (elementName D) cs))
           \<and> [] \<notin> set (List.map_filter (elementName D) cs))"
proof -
  have skip: "saveUiDefinition D (ui\<lparr>ui_children := Some (pre @ el # post)\<rparr>) path st
          = saveUiDefinition D (ui\<lparr>ui_children := Some (pre @ post)\<rparr>) path st"
    if "scriptless D el"
    by (simp only: saveUiDefinition_children saveChildren_skip[OF that])
  have full: "\<exists>st'. saveUiDefinition D (ui\<lparr>ui_children := Some (pre @ el # post)\<rparr>) path st = (Inr (), st')
              \<and> wrote st st'
                   (childrenFiles D pre path @ childrenFiles D post path
                    @ [(path, ''metadata.json'',
                        UiMetadataJson (ui\<lparr>ui_children := None\<rparr>)
                          (List.map_filter (elementName D) (pre @ post)))])"
    if s: "scriptless D el" and a: "extractorAnswersAll D (pre @ post)"
    using saveUiDefinition_writes[OF a, of ui path st] unfolding skip[OF s]
    by (simp add: childrenFiles_append)
  have ne: "[] \<notin> set (List.map_filter (elementName D) cs)"
    by (simp add: in_set_map_filter elementName_nonempty)
  obtain r st1 where c: "saveChildren D cs path [] st = (r, st1)"
    by (cases "saveChildren D cs path [] st")
  have meta: "(case saveUiDefinition D (ui\<lparr>ui_children := Some cs\<rparr>) path st of
         (Inl e, st') \<Rightarrow> True
       | (Inr u, st') \<Rightarrow>
           last (files st') =
             (path, ''metadata.json'',
              UiMetadataJson (ui\<lparr>ui_children := None\<rparr>) (List.map_filter (elementName D) cs))
           \<and> [] \<notin> set (List.map_filter (elementName D) cs))"
  proof (cases r)
    case (Inl e)
    with c show ?thesis by (simp add: saveUiDefinition_children)
  next
    case (Inr names)
    with c saveChildren_names[of D cs path "[]" st names st1]
    have "names = List.map_filter (elementName D) cs" by simp
    with c Inr ne show ?thesis
      by (simp add: saveUiDefinition_children files_writeFileSafe)
  qed
  have first: "scriptless D el \<longrightarrow>
      saveElement D el path st = (Inr None, st)
      \<and> elementFiles D el path = []
      \<and> saveElementChildren D (pre @ el # post) path st = saveElementChildren D (pre @ post) path st
      \<and> saveChildren D (pre @ el # post) path acc st = saveChildren D (pre @ post) path acc st
      \<and> saveUiDefinition D (ui\<lparr>ui_children := Some (pre @ el # post)\<rparr>) path st
          = saveUiDefinition D (ui\<lparr>ui_children := Some (pre @ post)\<rparr>) path st"
    using skip
    by (simp add: saveElement_scriptless elementFiles_scriptless saveChildren_skip
          saveElementChildren_skip)
  have thr: "\<exists>e st'. saveUiDefinition D (ui\<lparr>ui_children := Some cs\<rparr>) path st = (Inl e, st')"
    if "\<not> extractorAnswersAll D cs"
  proof -
    from saveChildren_throws[OF that, of path "[]" st] obtain e st' where
      "saveChildren D cs path [] st = (Inl e, st')" by blast
    then show ?thesis by (simp add: saveUiDefinition_children)
  qed
  from first full saveUiDefinition_writes[of D cs ui path st] thr meta show ?thesis by blast
qed

text \<open>
  Claim C3 as stated fails for an element whose script is there but carries no name, however
  the extractor reports it: with the name \<^verbatim>\<open>undefined\<close> the script is written under
  \<^verbatim>\<open>ui/undefined\<close>, with the empty name under \<^verbatim>\<open>ui/\<close>, and when the extractor throws
  the sibling after it is not written.
\<close>

theorem nameless_element_is_written:
  "saveElement (withExtractor (\<lambda>s. Inr None)) (scriptEl ''YQ=='' []) ''ui'' emptyFs
     = (Inr None, \<lparr>dirs = [''ui/undefined''], files = [(''ui/undefined'', ''script.ts'', Text ''a'')]\<rparr>)
   \<and> saveElement (withExtractor (\<lambda>s. Inr (Some []))) (scriptEl ''YQ=='' []) ''ui'' emptyFs
     = (Inr (Some []), \<lparr>dirs = [''ui/''], files = [(''ui/'', ''script.ts'', Text ''a'')]\<rparr>)
   \<and> saveChildren (withExtractor (\<lambda>s. Inl (Thrown ''no name'')))
         [scriptEl ''YQ=='' [], scriptEl ''Yg=='' []] ''ui'' [] emptyFs
     = (Inl (Thrown ''no name''), emptyFs)"
  by (simp add: withExtractor_def exDeps_def scriptEl_def blob_def unbase64_a showName_def
        mkdirIfAbsent_def writeFileSafe_def emptyFs_def Let_def)

lemma files_of_examples:
  "childrenFiles exDeps [scriptEl ''YQ=='' []] ''ui'' = [(''ui/a'', ''script.ts'', Text ''a'')]"
  "childrenFiles exDeps [fullEl] ''ui'' =
     [(''ui/b'', ''script.ts'', Text ''b''), (''ui/b'', ''styles.css'', Text ''a''),
      (''ui/b'', ''template.html'', Text ''b''), (''ui/b/a'', ''script.ts'', Text ''a'')]"
  "List.map_filter (elementName exDeps) ([scriptEl ''YQ=='' []] @ [fullEl]) = [''a'', ''b'']"
  "extractorAnswersAll exDeps ([scriptEl ''YQ=='' []] @ [fullEl])"
  by (simp_all add: scriptEl_def fullEl_def exDeps_def blob_def unbase64_a unbase64_b showName_def
        blobFile_def elementName_def List.map_filter_simps)

text \<open>
  Claim C3 at an element without script, with a child of its own, between a named sibling
  and one with styles, a template and a child.
\<close>

theorem scriptless_element_is_skipped_witness:
  "scriptless exDeps (noScriptEl [scriptEl ''YQ=='' []])
   \<and> extractorAnswersAll exDeps ([scriptEl ''YQ=='' []] @ [fullEl])
   \<and> saveElement exDeps (noScriptEl [scriptEl ''YQ=='' []]) ''ui'' emptyFs = (Inr None, emptyFs)
   \<and> saveChildren exDeps ([scriptEl ''YQ=='' []] @ noScriptEl [scriptEl ''YQ=='' []] # [fullEl])
        ''ui'' [] emptyFs
       = saveChildren exDeps ([scriptEl ''YQ=='' []] @ [fullEl]) ''ui'' [] emptyFs
   \<and> fst (saveUiDefinition exDeps
             (modernUi\<lparr>ui_children :=
                Some ([scriptEl ''YQ=='' []] @ noScriptEl [scriptEl ''YQ=='' []] # [fullEl])\<rparr>)
             ''ui'' emptyFs) = Inr ()
   \<and> files (snd (saveUiDefinition exDeps
             (modernUi\<lparr>ui_children :=
                Some ([scriptEl ''YQ=='' []] @ noScriptEl [scriptEl ''YQ=='' []] # [fullEl])\<rparr>)
             ''ui'' emptyFs))
       = [(''ui/a'', ''script.ts'', Text ''a''),
          (''ui/b'', ''script.ts'', Text ''b''),
          (''ui/b'', ''styles.css'', Text ''a''),
          (''ui/b'', ''template.html'', Text ''b''),
          (''ui/b/a'', ''script.ts'', Text ''a''),
          (''ui'', ''metadata.json'', UiMetadataJson (modernUi\<lparr>ui_children := None\<rparr>) [''a'', ''b''])]
   \<and> set (dirs (snd (saveUiDefinition exDeps
             (modernUi\<lparr>ui_children :=
                Some ([scriptEl ''YQ=='' []] @ noScriptEl [scriptEl ''YQ=='' []] # [fullEl])\<rparr>)
             ''ui'' emptyFs)))
       = {''ui/a'', ''ui/b'', ''ui/b/a'', ''ui''}
   \<and> \<not> extractorAnswersAll (withExtractor (\<lambda>s. Inl (Thrown ''no name'')))
         [scriptEl ''YQ=='' [], fullEl]
   \<and> (\<exists>e st'. saveUiDefinition (withExtractor (\<lambda>s. Inl (Thrown ''no name'')))
                  (modernUi\<lparr>ui_children := Some [scriptEl ''YQ=='' [], fullEl]\<rparr>) ''ui'' emptyFs
                = (Inl e, st'))"
proof -
  have n: "\<not> extractorAnswersAll (withExtractor (\<lambda>s. Inl (Thrown ''no name'')))
             [scriptEl ''YQ=='' [], fullEl]"
    by (simp add: withExtractor_def exDeps_def scriptEl_def blob_def unbase64_a)
  from scriptless_element_is_skipped[where D="withExtractor (\<lambda>s. Inl (Thrown ''no name''))"
      and cs="[scriptEl ''YQ=='' [], fullEl]" and ui=modernUi and path="''ui''" and st=emptyFs] n
  have t: "\<exists>e st'. saveUiDefinition (withExtractor (\<lambda>s. Inl (Thrown ''no name'')))
                  (modernUi\<lparr>ui_children := Some [scriptEl ''YQ=='' [], fullEl]\<rparr>) ''ui'' emptyFs
                = (Inl e, st')"
    by blast
  have h: "scriptless exDeps (noScriptEl [scriptEl ''YQ=='' []])"
    by (simp add: scriptless_def noScriptEl_def blob_def)
  note a = files_of_examples(4)
  from scriptless_element_is_skipped[of exDeps "noScriptEl [scriptEl ''YQ=='' []]" "''ui''" emptyFs
      "[scriptEl ''YQ=='' []]" "[fullEl]" "[]" modernUi "[]"] h a
  obtain st' where
    s: "saveUiDefinition exDeps
          (modernUi\<lparr>ui_children :=
             Some ([scriptEl ''YQ=='' []] @ noScriptEl [scriptEl ''YQ=='' []] # [fullEl])\<rparr>)
          ''ui'' emptyFs = (Inr (), st')" and
    w: "wrote emptyFs st'
          (childrenFiles exDeps [scriptEl ''YQ=='' []] ''ui'' @ childrenFiles exDeps [fullEl] ''ui''
           @ [(''ui'', ''metadata.json'',
               UiMetadataJson (modernUi\<lparr>ui_children := None\<rparr>)
                 (List.map_filter (elementName exDeps) ([scriptEl ''YQ=='' []] @ [fullEl])))])"
    and e: "saveElement exDeps (noScriptEl [scriptEl ''YQ=='' []]) ''ui'' emptyFs = (Inr None, emptyFs)"
    and c: "saveChildren exDeps ([scriptEl ''YQ=='' []] @ noScriptEl [scriptEl ''YQ=='' []] # [fullEl])
              ''ui'' [] emptyFs
            = saveChildren exDeps ([scriptEl ''YQ=='' []] @ [fullEl]) ''ui'' [] emptyFs"
    by blast
  from w have f: "files st' = [(''ui/a'', ''script.ts'', Text ''a''),
          (''ui/b'', ''script.ts'', Text ''b''),
          (''ui/b'', ''styles.css'', Text ''a''),
          (''ui/b'', ''template.html'', Text ''b''),
          (''ui/b/a'', ''script.ts'', Text ''a''),
          (''ui'', ''metadata.json'', UiMetadataJson (modernUi\<lparr>ui_children := None\<rparr>) [''a'', ''b''])]"
    and d: "set (dirs st') = {''ui/a'', ''ui/b'', ''ui/b/a'', ''ui''}"
    unfolding files_of_examples(1,2,3) by (auto simp: wrote_def emptyFs_def)
  from h a e c n t show ?thesis unfolding s by (simp add: f d)
qed

lemma saveUiDefinition_expected:
  assumes "expectedModern D ui path = Some f"
  shows "\<exists>st'. saveUiDefinition D ui path st = (Inr (), st') \<and> wrote st st' f"
proof -
  from assms obtain cs where
    c: "ui_children ui = Some cs" and a: "extractorAnswersAll D cs" and
    f: "f = childrenFiles D cs path
              @ [(path, ''metadata.json'',
                  UiMetadataJson (ui\<lparr>ui_children := None\<rparr>) (List.map_filter (elementName D) cs))]"
    by (auto simp: expectedModern_def split: option.splits if_splits)
  from c have u: "ui\<lparr>ui_children := Some cs\<rparr> = ui" by simp
  from saveUiDefinition_writes[OF a, of ui path st] show ?thesis unfolding u f .
qed

lemma saveUiDefinition_throws:
  assumes "expectedModern D ui path = None"
  shows "\<exists>e st'. saveUiDefinition D ui path st = (Inl e, st')"
proof (cases "ui_children ui")
  case None
  then show ?thesis by (simp add: saveUiDefinition_def)
next
  case (Some cs)
  with assms have "\<not> extractorAnswersAll D cs"
    by (simp add: expectedModern_def split: if_splits)
  from saveChildren_throws[OF this, of path "[]" st] obtain e st' where
    "saveChildren D cs path [] st = (Inl e, st')" by blast
  with Some show ?thesis by (simp add: saveUiDefinition_def)
qed

section \<open>Pull: proofs\<close>

lemma forEach_append:
  "forEach f (xs @ ys) s =
     (case forEach f xs s of (Inl e, s') \<Rightarrow> (Inl e, s') | (Inr u, s') \<Rightarrow> forEach f ys s')"
  by (induction xs arbitrary: s) (auto split: prod.splits sum.splits)

lemma pullRecord_unparsable:
  "parseUiDefs D (snd pc) = Inl err \<Longrightarrow>
     pullRecord D n incl mark sp pc s = (Inr (), s\<lparr>ps_log := ps_log s @ [failedToParse pc]\<rparr>)"
  by (simp add: pullRecord_def failedToParse_def Let_def)

lemma pullRecord_sameOutput:
  assumes "sameOutput s t"
  shows "fst (pullRecord D n incl mark sp pc s) = fst (pullRecord D n incl mark sp pc t)
       \<and> sameOutput (snd (pullRecord D n incl mark sp pc s)) (snd (pullRecord D n incl mark sp pc t))"
  using assms
  by (simp add: pullRecord_def sameOutput_def Let_def split: sum.splits prod.splits)

lemma forEach_sameOutput:
  "sameOutput s t \<Longrightarrow>
     fst (forEach (pullRecord D n incl mark sp) cs s) = fst (forEach (pullRecord D n incl mark sp) cs t)
     \<and> sameOutput (snd (forEach (pullRecord D n incl mark sp) cs s))
                    (snd (forEach (pullRecord D n incl mark sp) cs t))"
proof (induction cs arbitrary: s t)
  case Nil
  then show ?case by simp
next
  case (Cons c cs)
  from pullRecord_sameOutput[OF Cons.prems, of D n incl mark sp c]
  have a: "fst (pullRecord D n incl mark sp c s) = fst (pullRecord D n incl mark sp c t)"
    and b: "sameOutput (snd (pullRecord D n incl mark sp c s)) (snd (pullRecord D n incl mark sp c t))"
    by simp_all
  obtain r1 s1 where p1: "pullRecord D n incl mark sp c s = (r1, s1)" by (cases "pullRecord D n incl mark sp c s")
  obtain r2 t1 where p2: "pullRecord D n incl mark sp c t = (r2, t1)" by (cases "pullRecord D n incl mark sp c t")
  from a b p1 p2 have r: "r1 = r2" and st: "sameOutput s1 t1" by simp_all
  show ?case
  proof (cases r1)
    case (Inl e)
    with r have "r2 = Inl e" by simp
    with Inl p1 p2 st show ?thesis by simp
  next
    case (Inr u)
    with r have "r2 = Inr u" by simp
    with Inr p1 p2 Cons.IH[OF st] show ?thesis by simp
  qed
qed

lemma pullRecord_log_grows:
  "set (ps_log s) \<subseteq> set (ps_log (snd (pullRecord D n incl mark sp pc s)))"
  by (auto simp: pullRecord_def Let_def split: sum.splits prod.splits)

lemma forEach_log_grows:
  "set (ps_log s) \<subseteq> set (ps_log (snd (forEach (pullRecord D n incl mark sp) cs s)))"
proof (induction cs arbitrary: s)
  case Nil
  then show ?case by simp
next
  case (Cons c cs)
  obtain r1 s1 where p1: "pullRecord D n incl mark sp c s = (r1, s1)" by (cases "pullRecord D n incl mark sp c s")
  from pullRecord_log_grows[of s D n incl mark sp c] p1 have g: "set (ps_log s) \<subseteq> set (ps_log s1)" by simp
  show ?case
  proof (cases r1)
    case (Inl e)
    with p1 g show ?thesis by simp
  next
    case (Inr u)
    with p1 g Cons.IH[of s1] show ?thesis by auto
  qed
qed

lemma batch_with_unparsable:
  assumes bad: "parseUiDefs D (snd bad) = Inl err"
  shows "fst (forEach (pullRecord D n incl mark sp) (xs @ bad # ys) s)
           = fst (forEach (pullRecord D n incl mark sp) (xs @ ys) s)
       \<and> sameOutput (snd (forEach (pullRecord D n incl mark sp) (xs @ bad # ys) s))
                      (snd (forEach (pullRecord D n incl mark sp) (xs @ ys) s))
       \<and> (case fst (forEach (pullRecord D n incl mark sp) xs s) of
             Inl e \<Rightarrow> True
           | Inr u \<Rightarrow> failedToParse bad
                        \<in> set (ps_log (snd (forEach (pullRecord D n incl mark sp) (xs @ bad # ys) s))))"
proof -
  obtain r1 s1 where p1: "forEach (pullRecord D n incl mark sp) xs s = (r1, s1)"
    by (cases "forEach (pullRecord D n incl mark sp) xs s")
  show ?thesis
  proof (cases r1)
    case (Inl e)
    with p1 show ?thesis by (simp add: forEach_append sameOutput_def)
  next
    case (Inr u)
    let ?s2 = "s1\<lparr>ps_log := ps_log s1 @ [failedToParse bad]\<rparr>"
    have so: "sameOutput ?s2 s1" by (simp add: sameOutput_def)
    have m: "failedToParse bad \<in> set (ps_log ?s2)" by simp
    from forEach_log_grows[of ?s2 D n incl mark sp ys] m
    have lg: "failedToParse bad \<in> set (ps_log (snd (forEach (pullRecord D n incl mark sp) ys ?s2)))"
      by blast
    from Inr p1 forEach_sameOutput[OF so, of D n incl mark sp ys] lg
    show ?thesis
      by (simp add: forEach_append pullRecord_unparsable[OF bad])
  qed
qed

lemma pullUI_loop:
  "pullUI D n sp dumpAll uis cs st =
     (case forEach (pullRecord D n (includeUiName dumpAll uis) True sp) cs (startState st) of
        (Inl e, s) \<Rightarrow> (Inl e, s)
      | (Inr u, s) \<Rightarrow> (Inr \<lparr>uiRecords = map fst cs, uiPmsToDump = ps_uiPmsToDump s\<rparr>, s))"
  by (simp add: pullUI_def startState_def)

lemma snd_pullUI:
  "snd (pullUI D n sp dumpAll uis cs st) =
     snd (forEach (pullRecord D n (includeUiName dumpAll uis) True sp) cs (startState st))"
  by (simp add: pullUI_loop split: prod.splits sum.splits)

lemma returnedNames_pullUI:
  "returnedNames (fst (pullUI D n sp dumpAll uis cs st)) =
     (case forEach (pullRecord D n (includeUiName dumpAll uis) True sp) cs (startState st) of
        (Inl e, s) \<Rightarrow> Inl e
      | (Inr u, s) \<Rightarrow> Inr (ps_uiPmsToDump s))"
  by (simp add: pullUI_loop returnedNames_def split: prod.splits sum.splits)

lemma isl_pullUI:
  "(case fst (pullUI D n sp dumpAll uis cs st) of Inl e \<Rightarrow> P | Inr r \<Rightarrow> Q) =
   (case fst (forEach (pullRecord D n (includeUiName dumpAll uis) True sp) cs (startState st)) of
      Inl e \<Rightarrow> P | Inr u \<Rightarrow> Q)"
  by (simp add: pullUI_loop split: prod.splits sum.splits)

lemma fetchUiDefinitions_loop:
  "fetchUiDefinitions D n memberUi sp flags cs st =
     forEach (pullRecord D n (includeUiNameCli memberUi flags) False sp) cs (startState st)"
  by (simp add: fetchUiDefinitions_def startState_def)

lemma pullDefinition_shapeless:
  "ui_tabs ui = None \<Longrightarrow> ui_children ui = None \<Longrightarrow> incl ui \<Longrightarrow>
     pullDefinition D n incl path ui ma = (Inl (shapeError D ui), ma)"
  by (simp add: pullDefinition_def shapeError_def saveLegacyUiDefinition_def saveUiDefinition_def
        Let_def split: sum.splits bool.splits)

lemma pullRecord_shapeless:
  assumes "ui_tabs ui = None" and "ui_children ui = None" and "incl (pm_Name (fst pc)) ui"
    and "parseUiDefs D (snd pc) = Inr (Some (pre @ ui # post))"
    and "forEach (pullDefinition D n (incl (pm_Name (fst pc))) (sp @ ''/'' @ pm_Name (fst pc))) pre
           ([], ps_fs s) = (Inr (), ma)"
  shows "pullRecord D n incl mark sp pc s = (Inl (shapeError D ui), s\<lparr>ps_fs := snd ma\<rparr>)"
  using assms(4,5) pullDefinition_shapeless[where incl="incl (pm_Name (fst pc))" and ui=ui and D=D and n=n
      and path="sp @ ''/'' @ pm_Name (fst pc)" and ma=ma, OF assms(1,2,3)]
  by (simp add: pullRecord_def Let_def forEach_append split: prod.splits)

text \<open>
  Claim C5, as the code has it. Processing an included definition that has neither
  \<^verbatim>\<open>tabs\<close> nor \<^verbatim>\<open>children\<close> throws, whatever the detector answers, and writes nothing
  for it; the exception is not caught, so the record stops there with the files of the
  definitions before it, and the loop over the records, \<^verbatim>\<open>pullUI\<close> and
  \<^verbatim>\<open>fetchUiDefinitions\<close> stop with that exception: the definitions and the records after it
  are not processed.
\<close>

theorem shapeless_definition_aborts_pull:
  assumes "ui_tabs ui = None" and "ui_children ui = None" and "incl (pm_Name (fst pc)) ui"
    and "parseUiDefs D (snd pc) = Inr (Some (pre @ ui # post))"
    and "forEach (pullDefinition D n (incl (pm_Name (fst pc))) (sp @ ''/'' @ pm_Name (fst pc))) pre
           ([], ps_fs s) = (Inr (), ma)"
  shows
    "pullDefinition D n (incl (pm_Name (fst pc))) (sp @ ''/'' @ pm_Name (fst pc)) ui ma
       = (Inl (shapeError D ui), ma)
     \<and> pullRecord D n incl mark sp pc s = (Inl (shapeError D ui), s\<lparr>ps_fs := snd ma\<rparr>)
     \<and> forEach (pullRecord D n incl mark sp) (pc # rest) s
         = (Inl (shapeError D ui), s\<lparr>ps_fs := snd ma\<rparr>)
     \<and> (incl = includeUiName dumpAll uis \<and> s = startState st \<longrightarrow>
          pullUI D n sp dumpAll uis (pc # rest) st
            = (Inl (shapeError D ui), s\<lparr>ps_fs := snd ma\<rparr>))
     \<and> (incl = includeUiNameCli memberUi flags \<and> s = startState st \<longrightarrow>
          fetchUiDefinitions D n memberUi sp flags (pc # rest) st
            = (Inl (shapeError D ui), s\<lparr>ps_fs := snd ma\<rparr>))"
proof -
  note d = pullDefinition_shapeless[where incl="incl (pm_Name (fst pc))" and ui=ui and D=D and n=n
      and path="sp @ ''/'' @ pm_Name (fst pc)" and ma=ma, OF assms(1,2,3)]
  have r: "pullRecord D n incl mark sp pc s = (Inl (shapeError D ui), s\<lparr>ps_fs := snd ma\<rparr>)" for mark
    by (rule pullRecord_shapeless[where incl=incl and ui=ui and pc=pc, OF assms])
  have lib: "incl = includeUiName dumpAll uis \<and> s = startState st \<longrightarrow>
          pullUI D n sp dumpAll uis (pc # rest) st
            = (Inl (shapeError D ui), s\<lparr>ps_fs := snd ma\<rparr>)"
  proof (intro impI, elim conjE)
    assume i: "incl = includeUiName dumpAll uis" and s: "s = startState st"
    from r[of True] have "pullRecord D n (includeUiName dumpAll uis) True sp pc (startState st)
        = (Inl (shapeError D ui), s\<lparr>ps_fs := snd ma\<rparr>)"
      unfolding i s .
    then show "pullUI D n sp dumpAll uis (pc # rest) st
            = (Inl (shapeError D ui), s\<lparr>ps_fs := snd ma\<rparr>)"
      by (simp add: pullUI_loop)
  qed
  have cli: "incl = includeUiNameCli memberUi flags \<and> s = startState st \<longrightarrow>
          fetchUiDefinitions D n memberUi sp flags (pc # rest) st
            = (Inl (shapeError D ui), s\<lparr>ps_fs := snd ma\<rparr>)"
  proof (intro impI, elim conjE)
    assume i: "incl = includeUiNameCli memberUi flags" and s: "s = startState st"
    from r[of False] have "pullRecord D n (includeUiNameCli memberUi flags) False sp pc (startState st)
        = (Inl (shapeError D ui), s\<lparr>ps_fs := snd ma\<rparr>)"
      unfolding i s .
    then show "fetchUiDefinitions D n memberUi sp flags (pc # rest) st
            = (Inl (shapeError D ui), s\<lparr>ps_fs := snd ma\<rparr>)"
      by (simp add: fetchUiDefinitions_loop)
  qed
  have loop: "forEach (pullRecord D n incl mark sp) (pc # rest) s
         = (Inl (shapeError D ui), s\<lparr>ps_fs := snd ma\<rparr>)"
    using r[of mark] by simp
  from d r[of mark] loop lib cli show ?thesis by blast
qed

lemma saveModern:
  "saveUiDefinition (docDeps det) modernUi path st =
     (Inr (),
      writeFileSafe path ''metadata.json'' (UiMetadataJson (modernUi\<lparr>ui_children := None\<rparr>) [''a''])
        (writeFileSafe (path @ ''/a'') ''script.ts'' (Text ''a'') (mkdirIfAbsent (path @ ''/a'') st)))"
  by (simp add: saveUiDefinition_def modernUi_def scriptEl_def docDeps_def blob_def unbase64_a
        showName_def appendName_def Let_def)

lemma pull_modern_record:
  "pullRecord (docDeps byTabs) n (\<lambda>Name ui. True) mark ''src'' (pm ''A'', ''m'') s =
     (Inr (),
      s\<lparr>ps_fs := writeFileSafe ''src/A/m'' ''metadata.json''
                     (UiMetadataJson (modernUi\<lparr>ui_children := None\<rparr>) [''a''])
                     (writeFileSafe ''src/A/m/a'' ''script.ts'' (Text ''a'')
                        (mkdirIfAbsent ''src/A/m/a'' (ps_fs s))),
        ps_uiPmsToDump := (if mark then setAdd ''A'' (ps_uiPmsToDump s) else ps_uiPmsToDump s)\<rparr>)"
proof -
  have p: "parseUiDefs (docDeps byTabs) ''m'' = Inr (Some [modernUi])" by (simp add: docDeps_def)
  have l: "isLegacyDefinition (docDeps byTabs) modernUi = Inr False"
    by (simp add: docDeps_def byTabs_def modernUi_def)
  have n: "ui_name modernUi = ''m''" by (simp add: modernUi_def)
  from saveModern[of byTabs "''src/A/m''"] show ?thesis
    by (simp add: pullRecord_def pm_def p pullDefinition_def l n Let_def)
qed

lemma includeAll: "includeUiName True uis = (\<lambda>Name ui. True)"
  by (intro ext) (simp add: includeUiName_def)

lemma parse_docs:
  "parseUiDefs (docDeps det) ''m'' = Inr (Some [modernUi])"
  "parseUiDefs (docDeps det) ''s'' = Inr (Some [shapelessUi, modernUi])"
  "parseUiDefs (docDeps det) ''{'' = Inl SyntaxError"
  by (simp_all add: docDeps_def)

text \<open>Claim C5 at a document whose first definition has no collection.\<close>

theorem shapeless_definition_aborts_pull_witness:
  "ui_tabs shapelessUi = None \<and> ui_children shapelessUi = None
   \<and> includeUiName True [] (pm_Name (fst (pm ''S'', ''s''))) shapelessUi
   \<and> parseUiDefs (docDeps byTabs) (snd (pm ''S'', ''s'')) = Inr (Some ([] @ shapelessUi # [modernUi]))
   \<and> pullUI (docDeps byTabs) 8 ''src'' True [] [(pm ''S'', ''s''), (pm ''A'', ''m'')] emptyFs
       = (Inl TypeError, startState emptyFs)"
proof -
  have h1: "ui_tabs shapelessUi = None" and h2: "ui_children shapelessUi = None"
    by (simp_all add: shapelessUi_def)
  have h3: "includeUiName True [] (pm_Name (fst (pm ''S'', ''s''))) shapelessUi"
    by (simp add: includeAll)
  have h4: "parseUiDefs (docDeps byTabs) (snd (pm ''S'', ''s'')) = Inr (Some ([] @ shapelessUi # [modernUi]))"
    by (simp add: parse_docs)
  have h5: "forEach (pullDefinition (docDeps byTabs) 8 (includeUiName True [] (pm_Name (fst (pm ''S'', ''s''))))
                (''src'' @ ''/'' @ pm_Name (fst (pm ''S'', ''s'')))) []
              ([], ps_fs (startState emptyFs)) = (Inr (), ([], emptyFs))"
    by (simp add: startState_def)
  have e: "shapeError (docDeps byTabs) shapelessUi = TypeError"
    by (simp add: shapeError_def docDeps_def byTabs_def)
  have s: "(startState emptyFs)\<lparr>ps_fs := snd ([], emptyFs)\<rparr> = startState emptyFs"
    by (simp add: startState_def)
  from shapeless_definition_aborts_pull[where incl="includeUiName True []" and ui=shapelessUi
      and pc="(pm ''S'', ''s'')" and D="docDeps byTabs" and n=8 and sp="''src''" and pre="[]"
      and post="[modernUi]" and s="startState emptyFs" and ma="([], emptyFs)"
      and dumpAll=True and uis="[]" and st=emptyFs and rest="[(pm ''A'', ''m'')]",
      OF h1 h2 h3 h4 h5]
  have "pullUI (docDeps byTabs) 8 ''src'' True [] [(pm ''S'', ''s''), (pm ''A'', ''m'')] emptyFs
       = (Inl TypeError, startState emptyFs)"
    unfolding e s by blast
  with h1 h2 h3 h4 show ?thesis by blast
qed

lemma shapeless_record_aborts:
  assumes "isLegacyDefinition (docDeps det) shapelessUi = r"
  shows "pullUI (docDeps det) 8 ''src'' True [] [(pm ''S'', ''s''), (pm ''A'', ''m'')] emptyFs
       = (Inl (case r of Inl e \<Rightarrow> e | Inr b \<Rightarrow> TypeError), startState emptyFs)"
  using assms
  by (simp add: pullUI_loop includeAll pullRecord_def parse_docs pullDefinition_def
        saveLegacyUiDefinition_def saveUiDefinition_def shapelessUi_def startState_def Let_def
      split: sum.splits bool.splits)

text \<open>
  Claim C5 as stated fails. With a detector that answers false, one that answers true and
  one that throws "unrecognized definition shape", the pull of a record whose first
  definition has no collection is rejected and the modern definition after it is not
  written; alone, that definition is written.
\<close>

theorem shapeless_definition_is_not_skipped:
  "pullUI (docDeps byTabs) 8 ''src'' True [] [(pm ''S'', ''s''), (pm ''A'', ''m'')] emptyFs
     = (Inl TypeError, startState emptyFs)
   \<and> pullUI (docDeps (\<lambda>ui. Inr True)) 8 ''src'' True [] [(pm ''S'', ''s''), (pm ''A'', ''m'')] emptyFs
     = (Inl TypeError, startState emptyFs)
   \<and> pullUI (docDeps (\<lambda>ui. Inl (Thrown ''unrecognized definition shape''))) 8 ''src'' True []
        [(pm ''S'', ''s''), (pm ''A'', ''m'')] emptyFs
     = (Inl (Thrown ''unrecognized definition shape''), startState emptyFs)
   \<and> files (ps_fs (snd (pullUI (docDeps byTabs) 8 ''src'' True [] [(pm ''A'', ''m'')] emptyFs)))
     = [(''src/A/m/a'', ''script.ts'', Text ''a''),
        (''src/A/m'', ''metadata.json'', UiMetadataJson (modernUi\<lparr>ui_children := None\<rparr>) [''a''])]"
proof -
  have a: "isLegacyDefinition (docDeps byTabs) shapelessUi = Inr False"
    by (simp add: docDeps_def byTabs_def shapelessUi_def)
  have b: "isLegacyDefinition (docDeps (\<lambda>ui. Inr True)) shapelessUi = Inr True"
    by (simp add: docDeps_def)
  have c: "isLegacyDefinition (docDeps (\<lambda>ui. Inl (Thrown ''unrecognized definition shape''))) shapelessUi
             = Inl (Thrown ''unrecognized definition shape'')"
    by (simp add: docDeps_def)
  have d: "files (ps_fs (snd (pullUI (docDeps byTabs) 8 ''src'' True [] [(pm ''A'', ''m'')] emptyFs)))
     = [(''src/A/m/a'', ''script.ts'', Text ''a''),
        (''src/A/m'', ''metadata.json'', UiMetadataJson (modernUi\<lparr>ui_children := None\<rparr>) [''a''])]"
    by (simp add: pullUI_loop includeAll pull_modern_record startState_def files_writeFileSafe
          mkdirIfAbsent_def emptyFs_def)
  from shapeless_record_aborts[OF a] shapeless_record_aborts[OF b] shapeless_record_aborts[OF c] d
  show ?thesis by simp
qed

lemma pullRecord_outcome:
  assumes "pullRecord D n incl True sp pc s = (Inr u, s1)"
  shows "if parsed D pc
         then ps_uiPmsToDump s1 = setAdd (pm_Name (fst pc)) (ps_uiPmsToDump s) \<and> ps_log s1 = ps_log s
         else ps_uiPmsToDump s1 = ps_uiPmsToDump s \<and> ps_log s1 = ps_log s @ [failedToParse pc]"
proof (cases "parseUiDefs D (snd pc)")
  case (Inl e)
  with assms have "s1 = s\<lparr>ps_log := ps_log s @ [failedToParse pc]\<rparr>"
    by (simp add: pullRecord_unparsable)
  with Inl show ?thesis by (simp add: parsed_def)
next
  case (Inr uiDefs)
  obtain r arr st where
    f: "forEach (pullDefinition D n (incl (pm_Name (fst pc))) (sp @ ''/'' @ pm_Name (fst pc)))
          (case uiDefs of None \<Rightarrow> [] | Some l \<Rightarrow> l) ([], ps_fs s) = (r, (arr, st))"
    by (metis prod_cases3)
  show ?thesis
  proof (cases r)
    case (Inl e)
    with assms Inr f show ?thesis by (simp add: pullRecord_def Let_def)
  next
    case r: (Inr v)
    with assms Inr f have
      "ps_uiPmsToDump s1 = setAdd (pm_Name (fst pc)) (ps_uiPmsToDump s) \<and> ps_log s1 = ps_log s"
      by (auto simp: pullRecord_def Let_def)
    with Inr show ?thesis by (simp add: parsed_def)
  qed
qed

lemma set_setAdd: "set (setAdd x xs) = insert x (set xs)"
  by (auto simp: setAdd_def)

lemma distinct_setAdd: "distinct xs \<Longrightarrow> distinct (setAdd x xs)"
  by (simp add: setAdd_def)

lemma forEach_outcome:
  "forEach (pullRecord D n incl True sp) cs s = (Inr u, s') \<Longrightarrow>
     set (ps_uiPmsToDump s') = set (ps_uiPmsToDump s) \<union> set (map (pm_Name \<circ> fst) (filter (parsed D) cs))
     \<and> (distinct (ps_uiPmsToDump s) \<longrightarrow> distinct (ps_uiPmsToDump s'))
     \<and> ps_log s' = ps_log s @ map failedToParse (filter (\<lambda>pc. \<not> parsed D pc) cs)"
proof (induction cs arbitrary: s)
  case Nil
  then show ?case by simp
next
  case (Cons c cs)
  obtain r1 s1 where p: "pullRecord D n incl True sp c s = (r1, s1)"
    by (cases "pullRecord D n incl True sp c s")
  show ?case
  proof (cases r1)
    case (Inl e)
    with p Cons.prems show ?thesis by simp
  next
    case (Inr v)
    with p Cons.prems have r: "forEach (pullRecord D n incl True sp) cs s1 = (Inr u, s')" by simp
    from p Inr have c: "pullRecord D n incl True sp c s = (Inr v, s1)" by simp
    note ih = Cons.IH[OF r]
    show ?thesis
    proof (cases "parsed D c")
      case True
      with pullRecord_outcome[OF c] have
        "ps_uiPmsToDump s1 = setAdd (pm_Name (fst c)) (ps_uiPmsToDump s)" "ps_log s1 = ps_log s"
        by simp_all
      with ih True show ?thesis by (simp add: set_setAdd distinct_setAdd)
    next
      case False
      with pullRecord_outcome[OF c] have
        "ps_uiPmsToDump s1 = ps_uiPmsToDump s" "ps_log s1 = ps_log s @ [failedToParse c]"
        by simp_all
      with ih False show ?thesis by simp
    qed
  qed
qed

text \<open>
  Claim C9, as the code has it. A pull that returns gives all the fetched records and the
  set of the names of the records whose document parsed; the log holds one line for each
  record that did not parse, in order.
\<close>

theorem pull_reports_parsed_records:
  "(case pullUI D n sp dumpAll uis contents st of
      (Inl e, s) \<Rightarrow> True
    | (Inr r, s) \<Rightarrow>
        uiRecords r = map fst contents
        \<and> set (uiPmsToDump r) = set (map (pm_Name \<circ> fst) (filter (parsed D) contents))
        \<and> distinct (uiPmsToDump r)
        \<and> ps_log s = map failedToParse (filter (\<lambda>pc. \<not> parsed D pc) contents))"
proof -
  obtain r0 s0 where
    f: "forEach (pullRecord D n (includeUiName dumpAll uis) True sp) contents (startState st) = (r0, s0)"
    by (cases "forEach (pullRecord D n (includeUiName dumpAll uis) True sp) contents (startState st)")
  show ?thesis
  proof (cases r0)
    case (Inl e)
    with f show ?thesis by (simp add: pullUI_loop)
  next
    case (Inr u)
    with f have "forEach (pullRecord D n (includeUiName dumpAll uis) True sp) contents (startState st)
                   = (Inr u, s0)" by simp
    from forEach_outcome[OF this] f Inr show ?thesis
      by (simp add: pullUI_loop startState_def)
  qed
qed

lemma pullDefinition_expected:
  assumes "expectedDefinition D n incl path ui = Some (f, m)"
  shows "\<exists>st'. pullDefinition D n incl path ui (ma, st) = (Inr (), (ma @ m, st')) \<and> wrote st st' f"
proof (cases "incl ui")
  case False
  with assms show ?thesis by (auto simp: expectedDefinition_def pullDefinition_def wrote_nothing)
next
  case True
  show ?thesis
  proof (cases "isLegacyDefinition D ui")
    case (Inl e)
    with True assms show ?thesis by (simp add: expectedDefinition_def)
  next
    case (Inr b)
    show ?thesis
    proof (cases b)
      case True
      with Inr \<open>incl ui\<close> assms obtain m1 where
        e: "expectedLegacy D n ui (path @ ''/'' @ ui_name ui) = Some (f, m1)" and m: "m = [m1]"
        by (auto simp: expectedDefinition_def)
      from saveLegacyUiDefinition_expected[OF e, of ma st] obtain st' where
        "saveLegacyUiDefinition D n ui (path @ ''/'' @ ui_name ui) (ma, st) = (Inr (), (ma @ [m1], st'))"
        "wrote st st' f" by blast
      with True Inr \<open>incl ui\<close> m show ?thesis
        by (auto simp: pullDefinition_def Let_def)
    next
      case False
      with Inr \<open>incl ui\<close> assms have
        e: "expectedModern D ui (path @ ''/'' @ ui_name ui) = Some f" and m: "m = []"
        by (auto simp: expectedDefinition_def)
      from saveUiDefinition_expected[OF e, of st] obtain st' where
        "saveUiDefinition D ui (path @ ''/'' @ ui_name ui) st = (Inr (), st')"
        "wrote st st' f" by blast
      with False Inr \<open>incl ui\<close> m show ?thesis
        by (auto simp: pullDefinition_def Let_def)
    qed
  qed
qed

lemma forEach_definitions_expected:
  "expectedDefinitions D n incl path uis = Some (f, m) \<Longrightarrow>
     \<exists>st'. forEach (pullDefinition D n incl path) uis (ma, st) = (Inr (), (ma @ m, st')) \<and> wrote st st' f"
proof (induction uis arbitrary: f m ma st)
  case Nil
  then show ?case by (simp add: wrote_nothing)
next
  case (Cons ui uis)
  from Cons.prems obtain f1 m1 f2 m2 where
    a: "expectedDefinition D n incl path ui = Some (f1, m1)" and
    b: "expectedDefinitions D n incl path uis = Some (f2, m2)" and
    f: "f = f1 @ f2" and m: "m = m1 @ m2"
    by (auto split: option.splits)
  from pullDefinition_expected[OF a, of ma st] obtain st1 where
    s1: "pullDefinition D n incl path ui (ma, st) = (Inr (), (ma @ m1, st1))" and
    w1: "wrote st st1 f1" by blast
  from Cons.IH[OF b, of "ma @ m1" st1] obtain st2 where
    s2: "forEach (pullDefinition D n incl path) uis (ma @ m1, st1) = (Inr (), ((ma @ m1) @ m2, st2))" and
    w2: "wrote st1 st2 f2" by blast
  from s1 s2 wrote_then[OF w1 w2] show ?case by (simp add: f m)
qed

lemma pullRecord_expected:
  assumes "expectedRecord D n incl sp pc = Some f"
  shows "\<exists>s'. pullRecord D n incl mark sp pc s = (Inr (), s') \<and> wrote (ps_fs s) (ps_fs s') f"
proof (cases "parseUiDefs D (snd pc)")
  case (Inl e)
  with assms have "f = []" by (simp add: expectedRecord_def)
  with pullRecord_unparsable[OF Inl, of n incl mark sp s] show ?thesis
    by (simp add: wrote_nothing)
next
  case (Inr uiDefs)
  with assms obtain f1 m1 where
    e: "expectedDefinitions D n (incl (pm_Name (fst pc))) (sp @ ''/'' @ pm_Name (fst pc))
          (case uiDefs of None \<Rightarrow> [] | Some l \<Rightarrow> l) = Some (f1, m1)" and
    f: "f = f1 @ (if m1 \<noteq> [] then [(sp @ ''/'' @ pm_Name (fst pc), ''metadata.json'',
                               LegacyMetadataJson m1)] else [])"
    by (auto simp: expectedRecord_def split: option.splits)
  from forEach_definitions_expected[OF e, of "[]" "ps_fs s"] obtain st1 where
    s1: "forEach (pullDefinition D n (incl (pm_Name (fst pc))) (sp @ ''/'' @ pm_Name (fst pc)))
          (case uiDefs of None \<Rightarrow> [] | Some l \<Rightarrow> l) ([], ps_fs s) = (Inr (), (m1, st1))" and
    w1: "wrote (ps_fs s) st1 f1" by auto
  define st2 where "st2 = (if m1 \<noteq> [] then writeFileSafe (sp @ ''/'' @ pm_Name (fst pc)) ''metadata.json''
                                 (LegacyMetadataJson m1) st1 else st1)"
  have w2: "wrote st1 st2 (if m1 \<noteq> [] then [(sp @ ''/'' @ pm_Name (fst pc), ''metadata.json'',
                               LegacyMetadataJson m1)] else [])"
    unfolding st2_def by (simp add: wrote_nothing wrote_writeFileSafe)
  have "pullRecord D n incl mark sp pc s =
          (Inr (), s\<lparr>ps_fs := st2,
                     ps_uiPmsToDump := (if mark then setAdd (pm_Name (fst pc)) (ps_uiPmsToDump s)
                                        else ps_uiPmsToDump s)\<rparr>)"
    unfolding pullRecord_def Let_def Inr sum.case s1 prod.case st2_def by simp
  with wrote_then[OF w1 w2] f show ?thesis by auto
qed

lemma forEach_records_expected:
  "expectedBatch D n incl sp cs = Some f \<Longrightarrow>
     \<exists>s'. forEach (pullRecord D n incl mark sp) cs s = (Inr (), s') \<and> wrote (ps_fs s) (ps_fs s') f"
proof (induction cs arbitrary: f s)
  case Nil
  then show ?case by (simp add: expectedBatch_def wrote_nothing)
next
  case (Cons c cs)
  from Cons.prems obtain f1 f2 where
    a: "expectedRecord D n incl sp c = Some f1" and
    b: "expectedBatch D n incl sp cs = Some f2" and f: "f = f1 @ f2"
    by (auto simp: expectedBatch_def split: option.splits)
  from pullRecord_expected[OF a, of mark s] obtain s1 where
    s1: "pullRecord D n incl mark sp c s = (Inr (), s1)" and w1: "wrote (ps_fs s) (ps_fs s1) f1"
    by blast
  from Cons.IH[OF b, of s1] obtain s2 where
    s2: "forEach (pullRecord D n incl mark sp) cs s1 = (Inr (), s2)" and
    w2: "wrote (ps_fs s1) (ps_fs s2) f2" by blast
  from s1 s2 wrote_then[OF w1 w2] show ?case by (simp add: f)
qed

lemma concat_opt_append:
  "concat_opt (as @ bs) =
     (case concat_opt as of None \<Rightarrow> None | Some a \<Rightarrow> map_option ((@) a) (concat_opt bs))"
proof (induction as)
  case Nil
  show ?case by (cases "concat_opt bs") simp_all
next
  case (Cons a as)
  show ?case
    by (cases a; cases "concat_opt as"; cases "concat_opt bs") (simp_all add: Cons)
qed

lemma expectedRecord_unparsable:
  "parseUiDefs D (snd bad) = Inl err \<Longrightarrow> expectedRecord D n incl sp bad = Some []"
  by (simp add: expectedRecord_def)

lemma expectedBatch_unparsable:
  assumes "parseUiDefs D (snd bad) = Inl err"
  shows "expectedBatch D n incl sp (xs @ bad # ys) = expectedBatch D n incl sp (xs @ ys)"
proof -
  have "concat_opt (expectedRecord D n incl sp bad # map (expectedRecord D n incl sp) ys)
          = concat_opt (map (expectedRecord D n incl sp) ys)"
    by (cases "concat_opt (map (expectedRecord D n incl sp) ys)")
       (simp_all add: expectedRecord_unparsable[OF assms])
  then show ?thesis
    by (simp only: expectedBatch_def map_append list.map concat_opt_append)
qed

lemma pullRecord_log:
  assumes "pullRecord D n incl mark sp pc s = (Inr u, s1)"
  shows "ps_log s1 = ps_log s @ (if parsed D pc then [] else [failedToParse pc])"
proof (cases "parseUiDefs D (snd pc)")
  case (Inl e)
  with assms have "s1 = s\<lparr>ps_log := ps_log s @ [failedToParse pc]\<rparr>"
    by (simp add: pullRecord_unparsable)
  with Inl show ?thesis by (simp add: parsed_def)
next
  case (Inr uiDefs)
  obtain r arr st where
    f: "forEach (pullDefinition D n (incl (pm_Name (fst pc))) (sp @ ''/'' @ pm_Name (fst pc)))
          (case uiDefs of None \<Rightarrow> [] | Some l \<Rightarrow> l) ([], ps_fs s) = (r, (arr, st))"
    by (metis prod_cases3)
  show ?thesis
  proof (cases r)
    case (Inl e)
    with assms Inr f show ?thesis by (simp add: pullRecord_def Let_def)
  next
    case r: (Inr v)
    with assms Inr f have "ps_log s1 = ps_log s"
      by (auto simp: pullRecord_def Let_def)
    with Inr show ?thesis by (simp add: parsed_def)
  qed
qed

lemma forEach_log:
  "forEach (pullRecord D n incl mark sp) cs s = (Inr u, s') \<Longrightarrow>
     ps_log s' = ps_log s @ map failedToParse (filter (\<lambda>pc. \<not> parsed D pc) cs)"
proof (induction cs arbitrary: s)
  case Nil
  then show ?case by simp
next
  case (Cons c cs)
  obtain r1 s1 where p: "pullRecord D n incl mark sp c s = (r1, s1)"
    by (cases "pullRecord D n incl mark sp c s")
  show ?case
  proof (cases r1)
    case (Inl e)
    with p Cons.prems show ?thesis by simp
  next
    case (Inr v)
    with p Cons.prems have r: "forEach (pullRecord D n incl mark sp) cs s1 = (Inr u, s')" by simp
    from p Inr have c: "pullRecord D n incl mark sp c s = (Inr v, s1)" by simp
    from pullRecord_log[OF c] Cons.IH[OF r] show ?thesis by simp
  qed
qed

lemma parsed_unparsable: "parseUiDefs D (snd bad) = Inl err \<Longrightarrow> \<not> parsed D bad"
  by (simp add: parsed_def)

lemma pullUI_expected:
  assumes "expectedBatch D n (includeUiName dumpAll uis) sp cs = Some out"
  shows "\<exists>r s'. pullUI D n sp dumpAll uis cs st = (Inr r, s')
           \<and> wrote st (ps_fs s') out
           \<and> uiRecords r = map fst cs
           \<and> set (uiPmsToDump r) = set (map (pm_Name \<circ> fst) (filter (parsed D) cs))
           \<and> ps_log s' = map failedToParse (filter (\<lambda>pc. \<not> parsed D pc) cs)"
proof -
  from forEach_records_expected[OF assms, of True "startState st"] obtain s' where
    f: "forEach (pullRecord D n (includeUiName dumpAll uis) True sp) cs (startState st) = (Inr (), s')"
    and w: "wrote (ps_fs (startState st)) (ps_fs s') out" by blast
  from forEach_outcome[OF f] have
    o: "set (ps_uiPmsToDump s') = set (map (pm_Name \<circ> fst) (filter (parsed D) cs))"
       "ps_log s' = map failedToParse (filter (\<lambda>pc. \<not> parsed D pc) cs)"
    by (simp_all add: startState_def)
  from f have "pullUI D n sp dumpAll uis cs st
                 = (Inr \<lparr>uiRecords = map fst cs, uiPmsToDump = ps_uiPmsToDump s'\<rparr>, s')"
    by (simp add: pullUI_loop)
  with w o show ?thesis by (simp add: startState_def)
qed

lemma fetchUiDefinitions_expected:
  assumes "expectedBatch D n (includeUiNameCli memberUi flags) sp cs = Some out"
  shows "\<exists>s'. fetchUiDefinitions D n memberUi sp flags cs st = (Inr (), s')
           \<and> wrote st (ps_fs s') out
           \<and> ps_log s' = map failedToParse (filter (\<lambda>pc. \<not> parsed D pc) cs)"
proof -
  from forEach_records_expected[OF assms, of False "startState st"] obtain s' where
    f: "forEach (pullRecord D n (includeUiNameCli memberUi flags) False sp) cs (startState st) = (Inr (), s')"
    and w: "wrote (ps_fs (startState st)) (ps_fs s') out" by blast
  from forEach_log[OF f] have "ps_log s' = map failedToParse (filter (\<lambda>pc. \<not> parsed D pc) cs)"
    by (simp add: startState_def)
  with f w show ?thesis by (simp add: fetchUiDefinitions_loop startState_def)
qed

lemma pullDefinition_throws:
  assumes "expectedDefinition D n incl path ui = None"
  shows "\<exists>e ma'. pullDefinition D n incl path ui ma = (Inl e, ma')"
proof -
  from assms have i: "incl ui" by (auto simp: expectedDefinition_def split: if_splits)
  show ?thesis
  proof (cases "isLegacyDefinition D ui")
    case (Inl e)
    with i show ?thesis by (simp add: pullDefinition_def)
  next
    case (Inr b)
    show ?thesis
    proof (cases b)
      case True
      with Inr i assms have "expectedLegacy D n ui (path @ ''/'' @ ui_name ui) = None"
        by (simp add: expectedDefinition_def)
      from saveLegacyUiDefinition_throws[OF this, of ma] obtain e ma' where
        "saveLegacyUiDefinition D n ui (path @ ''/'' @ ui_name ui) ma = (Inl e, ma')" by blast
      with True Inr i show ?thesis by (simp add: pullDefinition_def Let_def)
    next
      case False
      with Inr i assms have "expectedModern D ui (path @ ''/'' @ ui_name ui) = None"
        by (simp add: expectedDefinition_def)
      from saveUiDefinition_throws[OF this, of "snd ma"] obtain e st' where
        "saveUiDefinition D ui (path @ ''/'' @ ui_name ui) (snd ma) = (Inl e, st')" by blast
      with False Inr i show ?thesis by (simp add: pullDefinition_def Let_def)
    qed
  qed
qed

lemma forEach_definitions_throws:
  "expectedDefinitions D n incl path uis = None \<Longrightarrow>
     \<exists>e ma'. forEach (pullDefinition D n incl path) uis ma = (Inl e, ma')"
proof (induction uis arbitrary: ma)
  case Nil
  then show ?case by simp
next
  case (Cons ui uis)
  show ?case
  proof (cases "expectedDefinition D n incl path ui")
    case None
    from pullDefinition_throws[OF None, of ma] obtain e ma' where
      "pullDefinition D n incl path ui ma = (Inl e, ma')" by blast
    then show ?thesis by simp
  next
    case (Some fm)
    obtain f m where fm: "fm = (f, m)" by (cases fm)
    obtain a st where ma: "ma = (a, st)" by (cases ma)
    from Some Cons.prems have n: "expectedDefinitions D n incl path uis = None"
      by (auto split: option.splits)
    from pullDefinition_expected[OF Some[unfolded fm], of a st] obtain st' where
      p: "pullDefinition D n incl path ui (a, st) = (Inr (), (a @ m, st'))" by blast
    from Cons.IH[OF n, of "(a @ m, st')"] p show ?thesis by (simp add: ma)
  qed
qed

lemma pullRecord_throws:
  assumes "expectedRecord D n incl sp pc = None"
  shows "\<exists>e s'. pullRecord D n incl mark sp pc s = (Inl e, s')"
proof (cases "parseUiDefs D (snd pc)")
  case (Inl e)
  with assms show ?thesis by (simp add: expectedRecord_def)
next
  case (Inr uiDefs)
  with assms have
    "expectedDefinitions D n (incl (pm_Name (fst pc))) (sp @ ''/'' @ pm_Name (fst pc))
          (case uiDefs of None \<Rightarrow> [] | Some l \<Rightarrow> l) = None"
    by (auto simp: expectedRecord_def split: option.splits)
  from forEach_definitions_throws[OF this, of "([], ps_fs s)"] obtain e a st where
    f: "forEach (pullDefinition D n (incl (pm_Name (fst pc))) (sp @ ''/'' @ pm_Name (fst pc)))
          (case uiDefs of None \<Rightarrow> [] | Some l \<Rightarrow> l) ([], ps_fs s) = (Inl e, (a, st))" by auto
  show ?thesis
    unfolding pullRecord_def Let_def Inr sum.case f prod.case by simp
qed

lemma forEach_records_throws:
  "expectedBatch D n incl sp cs = None \<Longrightarrow>
     \<exists>e s'. forEach (pullRecord D n incl mark sp) cs s = (Inl e, s')"
proof (induction cs arbitrary: s)
  case Nil
  then show ?case by (simp add: expectedBatch_def)
next
  case (Cons c cs)
  show ?case
  proof (cases "expectedRecord D n incl sp c")
    case None
    from pullRecord_throws[OF None, of mark s] obtain e s' where
      "pullRecord D n incl mark sp c s = (Inl e, s')" by blast
    then show ?thesis by simp
  next
    case (Some f1)
    with Cons.prems have n: "expectedBatch D n incl sp cs = None"
      by (auto simp: expectedBatch_def split: option.splits)
    from pullRecord_expected[OF Some, of mark s] obtain s1 where
      p: "pullRecord D n incl mark sp c s = (Inr (), s1)" by blast
    from Cons.IH[OF n, of s1] p show ?thesis by simp
  qed
qed

lemma pullUI_throws:
  assumes "expectedBatch D n (includeUiName dumpAll uis) sp cs = None"
  shows "\<exists>e s'. pullUI D n sp dumpAll uis cs st = (Inl e, s')"
proof -
  from forEach_records_throws[OF assms, of True "startState st"] obtain e s' where
    "forEach (pullRecord D n (includeUiName dumpAll uis) True sp) cs (startState st) = (Inl e, s')"
    by blast
  then show ?thesis by (simp add: pullUI_loop)
qed

lemma fetchUiDefinitions_throws:
  assumes "expectedBatch D n (includeUiNameCli memberUi flags) sp cs = None"
  shows "\<exists>e s'. fetchUiDefinitions D n memberUi sp flags cs st = (Inl e, s')"
  using forEach_records_throws[OF assms, of False "startState st"]
  by (simp add: fetchUiDefinitions_loop)

text \<open>
  Claim C4, as the code has it. A record whose document does not parse is passed over with
  one logged line naming it and nothing else changed. A batch with such a record, in
  \<^verbatim>\<open>pullUI\<close> and in the command's \<^verbatim>\<open>fetchUiDefinitions\<close> alike, ends as the batch
  without it does: the same exception or the same returned names, the same files and
  directories; and when the records before it were processed, its line is in the log.
  Where the processing of the other records throws nowhere, so that their output \<open>out\<close> is
  defined, the pull with the record completes: what was written is exactly \<open>out\<close>, the
  files of the other records in order; \<^verbatim>\<open>pullUI\<close> returns all the records and the names
  of the other records whose document parsed; and the log is the lines of the records that
  did not parse. Where the output of the other records is not defined, the pull with the
  record is rejected with an exception.
\<close>

theorem unparsable_record_is_skipped:
  assumes bad: "parseUiDefs D (snd bad) = Inl err"
  shows
    "pullRecord D n incl mark sp bad s = (Inr (), s\<lparr>ps_log := ps_log s @ [failedToParse bad]\<rparr>)
     \<and> (let withBad = pullUI D n sp dumpAll uis (xs @ bad # ys) st;
             without = pullUI D n sp dumpAll uis (xs @ ys) st
         in returnedNames (fst withBad) = returnedNames (fst without)
          \<and> sameOutput (snd withBad) (snd without)
          \<and> (case fst (pullUI D n sp dumpAll uis xs st) of
                Inl e \<Rightarrow> True
              | Inr r \<Rightarrow> failedToParse bad \<in> set (ps_log (snd withBad))))
     \<and> (let withBad = fetchUiDefinitions D n memberUi sp flags (xs @ bad # ys) st;
             without = fetchUiDefinitions D n memberUi sp flags (xs @ ys) st
         in fst withBad = fst without
          \<and> sameOutput (snd withBad) (snd without)
          \<and> (case fst (fetchUiDefinitions D n memberUi sp flags xs st) of
                Inl e \<Rightarrow> True
              | Inr u \<Rightarrow> failedToParse bad \<in> set (ps_log (snd withBad))))
     \<and> (expectedBatch D n (includeUiName dumpAll uis) sp (xs @ ys) = Some out \<longrightarrow>
          (\<exists>r s'. pullUI D n sp dumpAll uis (xs @ bad # ys) st = (Inr r, s')
             \<and> wrote st (ps_fs s') out
             \<and> uiRecords r = map fst (xs @ bad # ys)
             \<and> set (uiPmsToDump r) = set (map (pm_Name \<circ> fst) (filter (parsed D) (xs @ ys)))
             \<and> ps_log s' = map failedToParse (filter (\<lambda>pc. \<not> parsed D pc) (xs @ bad # ys))))
     \<and> (expectedBatch D n (includeUiNameCli memberUi flags) sp (xs @ ys) = Some out' \<longrightarrow>
          (\<exists>s'. fetchUiDefinitions D n memberUi sp flags (xs @ bad # ys) st = (Inr (), s')
             \<and> wrote st (ps_fs s') out'
             \<and> ps_log s' = map failedToParse (filter (\<lambda>pc. \<not> parsed D pc) (xs @ bad # ys))))
     \<and> (expectedBatch D n (includeUiName dumpAll uis) sp (xs @ ys) = None \<longrightarrow>
          (\<exists>e s'. pullUI D n sp dumpAll uis (xs @ bad # ys) st = (Inl e, s')))
     \<and> (expectedBatch D n (includeUiNameCli memberUi flags) sp (xs @ ys) = None \<longrightarrow>
          (\<exists>e s'. fetchUiDefinitions D n memberUi sp flags (xs @ bad # ys) st = (Inl e, s')))"
proof -
  note lib = batch_with_unparsable[OF bad, of n "includeUiName dumpAll uis" True sp xs ys "startState st"]
  note cli = batch_with_unparsable[OF bad, of n "includeUiNameCli memberUi flags" False sp xs ys "startState st"]
  have a: "returnedNames (fst (pullUI D n sp dumpAll uis (xs @ bad # ys) st))
             = returnedNames (fst (pullUI D n sp dumpAll uis (xs @ ys) st))"
    using lib unfolding returnedNames_pullUI
    by (auto simp: sameOutput_def split: prod.splits sum.splits)
  have b: "sameOutput (snd (pullUI D n sp dumpAll uis (xs @ bad # ys) st))
                      (snd (pullUI D n sp dumpAll uis (xs @ ys) st))"
    using lib unfolding snd_pullUI by simp
  have c: "(case fst (pullUI D n sp dumpAll uis xs st) of
                Inl e \<Rightarrow> True
              | Inr r \<Rightarrow> failedToParse bad \<in> set (ps_log (snd (pullUI D n sp dumpAll uis (xs @ bad # ys) st))))"
    using lib unfolding snd_pullUI isl_pullUI by simp
  have old: "pullRecord D n incl mark sp bad s = (Inr (), s\<lparr>ps_log := ps_log s @ [failedToParse bad]\<rparr>)
     \<and> (let withBad = pullUI D n sp dumpAll uis (xs @ bad # ys) st;
             without = pullUI D n sp dumpAll uis (xs @ ys) st
         in returnedNames (fst withBad) = returnedNames (fst without)
          \<and> sameOutput (snd withBad) (snd without)
          \<and> (case fst (pullUI D n sp dumpAll uis xs st) of
                Inl e \<Rightarrow> True
              | Inr r \<Rightarrow> failedToParse bad \<in> set (ps_log (snd withBad))))
     \<and> (let withBad = fetchUiDefinitions D n memberUi sp flags (xs @ bad # ys) st;
             without = fetchUiDefinitions D n memberUi sp flags (xs @ ys) st
         in fst withBad = fst without
          \<and> sameOutput (snd withBad) (snd without)
          \<and> (case fst (fetchUiDefinitions D n memberUi sp flags xs st) of
                Inl e \<Rightarrow> True
              | Inr u \<Rightarrow> failedToParse bad \<in> set (ps_log (snd withBad))))"
    using a b c cli pullRecord_unparsable[OF bad, of n incl mark sp s]
    unfolding fetchUiDefinitions_loop Let_def by simp
  have np: "filter (parsed D) (xs @ bad # ys) = filter (parsed D) (xs @ ys)"
    using parsed_unparsable[OF bad] by simp
  have full: "\<exists>r s'. pullUI D n sp dumpAll uis (xs @ bad # ys) st = (Inr r, s')
             \<and> wrote st (ps_fs s') out
             \<and> uiRecords r = map fst (xs @ bad # ys)
             \<and> set (uiPmsToDump r) = set (map (pm_Name \<circ> fst) (filter (parsed D) (xs @ ys)))
             \<and> ps_log s' = map failedToParse (filter (\<lambda>pc. \<not> parsed D pc) (xs @ bad # ys))"
    if e: "expectedBatch D n (includeUiName dumpAll uis) sp (xs @ ys) = Some out"
  proof -
    from e have "expectedBatch D n (includeUiName dumpAll uis) sp (xs @ bad # ys) = Some out"
      by (simp only: expectedBatch_unparsable[OF bad])
    from pullUI_expected[OF this, of st] show ?thesis unfolding np .
  qed
  have fullCli: "\<exists>s'. fetchUiDefinitions D n memberUi sp flags (xs @ bad # ys) st = (Inr (), s')
             \<and> wrote st (ps_fs s') out'
             \<and> ps_log s' = map failedToParse (filter (\<lambda>pc. \<not> parsed D pc) (xs @ bad # ys))"
    if e: "expectedBatch D n (includeUiNameCli memberUi flags) sp (xs @ ys) = Some out'"
  proof -
    from e have "expectedBatch D n (includeUiNameCli memberUi flags) sp (xs @ bad # ys) = Some out'"
      by (simp only: expectedBatch_unparsable[OF bad])
    from fetchUiDefinitions_expected[OF this, of st] show ?thesis .
  qed
  have thr: "\<exists>e s'. pullUI D n sp dumpAll uis (xs @ bad # ys) st = (Inl e, s')"
    if e: "expectedBatch D n (includeUiName dumpAll uis) sp (xs @ ys) = None"
  proof -
    from e have "expectedBatch D n (includeUiName dumpAll uis) sp (xs @ bad # ys) = None"
      by (simp only: expectedBatch_unparsable[OF bad])
    from pullUI_throws[OF this, of st] show ?thesis .
  qed
  have thrCli: "\<exists>e s'. fetchUiDefinitions D n memberUi sp flags (xs @ bad # ys) st = (Inl e, s')"
    if e: "expectedBatch D n (includeUiNameCli memberUi flags) sp (xs @ ys) = None"
  proof -
    from e have "expectedBatch D n (includeUiNameCli memberUi flags) sp (xs @ bad # ys) = None"
      by (simp only: expectedBatch_unparsable[OF bad])
    from fetchUiDefinitions_throws[OF this, of st] show ?thesis .
  qed
  from old full fullCli thr thrCli show ?thesis by blast
qed

lemma includeAllCli: "includeUiNameCli memberUi None = (\<lambda>Name ui. True)"
  by (intro ext) (simp add: includeUiNameCli_def blob_def Let_def)

lemma parse_legacy_doc:
  "parseUiDefs (docDeps det) ''l'' = Inr (Some [legacyUi (abcSections Undefined)])"
  by (simp add: docDeps_def)

lemma layout_abc_record:
  "layout 8 (abcSections Undefined) ''src/C/ui/tab'' Undefined =
     Some [(''src/C/ui/tab/A'', plainSection (Num 1) Undefined ''A''),
           (''src/C/ui/tab/A/B'', plainSection (Num 2) (Num 1) ''B''),
           (''src/C/ui/tab/A/B/C'', plainSection (Num 3) (Num 2) ''C'')]"
  by (simp add: eval_nat_numeral abcSections_def plainSection_def)

lemma expected_modern_record:
  "expectedRecord (docDeps byTabs) 8 (\<lambda>Name ui. True) ''src'' (pm ''A'', ''m'') =
     Some [(''src/A/m/a'', ''script.ts'', Text ''a''),
           (''src/A/m'', ''metadata.json'', UiMetadataJson (modernUi\<lparr>ui_children := None\<rparr>) [''a''])]"
proof -
  have l: "isLegacyDefinition (docDeps byTabs) modernUi = Inr False"
    by (simp add: docDeps_def byTabs_def modernUi_def)
  have m: "expectedModern (docDeps byTabs) modernUi ''src/A/m'' =
     Some [(''src/A/m/a'', ''script.ts'', Text ''a''),
           (''src/A/m'', ''metadata.json'', UiMetadataJson (modernUi\<lparr>ui_children := None\<rparr>) [''a''])]"
    by (simp add: expectedModern_def modernUi_def scriptEl_def docDeps_def blob_def unbase64_a
          showName_def blobFile_def elementName_def List.map_filter_simps)
  have n: "ui_name modernUi = ''m''" by (simp add: modernUi_def)
  have d: "expectedDefinition (docDeps byTabs) 8 (\<lambda>ui. True) ''src/A'' modernUi =
     Some ([(''src/A/m/a'', ''script.ts'', Text ''a''),
           (''src/A/m'', ''metadata.json'', UiMetadataJson (modernUi\<lparr>ui_children := None\<rparr>) [''a''])], [])"
    using m by (simp add: expectedDefinition_def l n)
  show ?thesis
    using d by (simp add: expectedRecord_def parse_docs pm_def)
qed

lemma expected_legacy_record:
  "expectedRecord (docDeps byTabs) 8 (\<lambda>Name ui. True) ''src'' (pm ''C'', ''l'') =
     Some [(''src/C'', ''metadata.json'', LegacyMetadataJson [legacyUi (abcSections Undefined)])]"
proof -
  have l: "isLegacyDefinition (docDeps byTabs) (legacyUi (abcSections Undefined)) = Inr True"
    by (simp add: docDeps_def byTabs_def legacyUi_def)
  have t: "expectedTab 8 (legacyUi (abcSections Undefined)) ''src/C/ui'' exTab =
     Some [(''src/C/ui/tab/A'', plainSection (Num 1) Undefined ''A''),
           (''src/C/ui/tab/A/B'', plainSection (Num 2) (Num 1) ''B''),
           (''src/C/ui/tab/A/B/C'', plainSection (Num 3) (Num 2) ''C'')]"
    using layout_abc_record
    by (simp add: expectedTab_def legacyUi_def exTab_def abcSections_def plainSection_def)
  have e: "expectedLegacy (docDeps byTabs) 8 (legacyUi (abcSections Undefined)) ''src/C/ui'' =
     Some ([], legacyUi (abcSections Undefined))"
    using t
    by (simp add: expectedLegacy_def legacyUi_def layoutFiles_def layoutMetas_def
          sectionFiles_def sectionMeta_def blobFile_def blob_def jblob_def abcSections_def
          plainSection_def)
  have n: "ui_name (legacyUi (abcSections Undefined)) = ''ui''" by (simp add: legacyUi_def)
  have d: "expectedDefinition (docDeps byTabs) 8 (\<lambda>ui. True) ''src/C''
             (legacyUi (abcSections Undefined)) = Some ([], [legacyUi (abcSections Undefined)])"
    using e by (simp add: expectedDefinition_def l n)
  show ?thesis
    using d by (simp add: expectedRecord_def parse_legacy_doc pm_def)
qed

lemma expected_shapeless_record:
  "expectedRecord (docDeps byTabs) 8 (\<lambda>Name ui. True) ''src'' (pm ''S'', ''s'') = None"
proof -
  have l: "isLegacyDefinition (docDeps byTabs) shapelessUi = Inr False"
    by (simp add: docDeps_def byTabs_def shapelessUi_def)
  have m: "expectedModern (docDeps byTabs) shapelessUi p = None" for p
    by (simp add: expectedModern_def shapelessUi_def)
  have d: "expectedDefinition (docDeps byTabs) 8 (\<lambda>ui. True) ''src/S'' shapelessUi = None"
    by (simp add: expectedDefinition_def l m)
  show ?thesis
    using d by (simp add: expectedRecord_def parse_docs pm_def)
qed

lemma expected_example_batch:
  "expectedBatch (docDeps byTabs) 8 (\<lambda>Name ui. True) ''src''
      ([(pm ''A'', ''m'')] @ [(pm ''C'', ''l'')]) =
     Some [(''src/A/m/a'', ''script.ts'', Text ''a''),
           (''src/A/m'', ''metadata.json'', UiMetadataJson (modernUi\<lparr>ui_children := None\<rparr>) [''a'']),
           (''src/C'', ''metadata.json'', LegacyMetadataJson [legacyUi (abcSections Undefined)])]"
  by (simp add: expectedBatch_def expected_modern_record expected_legacy_record)

text \<open>
  Claim C4 at three records, the first with a modern definition, the second with a
  document that does not parse, the third with a legacy definition; and at the record that
  does not parse before a record whose first definition has no collection.
\<close>

theorem unparsable_record_is_skipped_witness:
  "parseUiDefs (docDeps byTabs) (snd (pm ''B'', ''{'')) = Inl SyntaxError
   \<and> expectedBatch (docDeps byTabs) 8 (includeUiName True []) ''src''
        ([(pm ''A'', ''m'')] @ [(pm ''C'', ''l'')]) =
       Some [(''src/A/m/a'', ''script.ts'', Text ''a''),
             (''src/A/m'', ''metadata.json'', UiMetadataJson (modernUi\<lparr>ui_children := None\<rparr>) [''a'']),
             (''src/C'', ''metadata.json'', LegacyMetadataJson [legacyUi (abcSections Undefined)])]
   \<and> expectedBatch (docDeps byTabs) 8 (includeUiNameCli ''ui'' None) ''src''
        ([(pm ''A'', ''m'')] @ [(pm ''C'', ''l'')]) =
       Some [(''src/A/m/a'', ''script.ts'', Text ''a''),
             (''src/A/m'', ''metadata.json'', UiMetadataJson (modernUi\<lparr>ui_children := None\<rparr>) [''a'']),
             (''src/C'', ''metadata.json'', LegacyMetadataJson [legacyUi (abcSections Undefined)])]
   \<and> (\<exists>r s'. pullUI (docDeps byTabs) 8 ''src'' True []
                 ([(pm ''A'', ''m'')] @ (pm ''B'', ''{'') # [(pm ''C'', ''l'')]) emptyFs = (Inr r, s')
          \<and> files (ps_fs s') =
              [(''src/A/m/a'', ''script.ts'', Text ''a''),
               (''src/A/m'', ''metadata.json'', UiMetadataJson (modernUi\<lparr>ui_children := None\<rparr>) [''a'']),
               (''src/C'', ''metadata.json'', LegacyMetadataJson [legacyUi (abcSections Undefined)])]
          \<and> set (dirs (ps_fs s')) = {''src/A/m/a'', ''src/A/m'', ''src/C''}
          \<and> uiRecords r = [pm ''A'', pm ''B'', pm ''C'']
          \<and> set (uiPmsToDump r) = {''A'', ''C''}
          \<and> ps_log s' = [''Failed to parse document content: B''])
   \<and> (\<exists>s'. fetchUiDefinitions (docDeps byTabs) 8 ''ui'' ''src'' None
                 ([(pm ''A'', ''m'')] @ (pm ''B'', ''{'') # [(pm ''C'', ''l'')]) emptyFs = (Inr (), s')
          \<and> files (ps_fs s') =
              [(''src/A/m/a'', ''script.ts'', Text ''a''),
               (''src/A/m'', ''metadata.json'', UiMetadataJson (modernUi\<lparr>ui_children := None\<rparr>) [''a'']),
               (''src/C'', ''metadata.json'', LegacyMetadataJson [legacyUi (abcSections Undefined)])]
          \<and> set (dirs (ps_fs s')) = {''src/A/m/a'', ''src/A/m'', ''src/C''}
          \<and> ps_log s' = [''Failed to parse document content: B''])
   \<and> sameOutput
        (snd (pullUI (docDeps byTabs) 8 ''src'' True [] ([(pm ''A'', ''m'')] @ (pm ''B'', ''{'') # [(pm ''C'', ''l'')]) emptyFs))
        (snd (pullUI (docDeps byTabs) 8 ''src'' True [] ([(pm ''A'', ''m'')] @ [(pm ''C'', ''l'')]) emptyFs))
   \<and> ''Failed to parse document content: B''
        \<in> set (ps_log (snd (pullUI (docDeps byTabs) 8 ''src'' True []
               ([(pm ''A'', ''m'')] @ (pm ''B'', ''{'') # [(pm ''C'', ''l'')]) emptyFs)))
   \<and> expectedBatch (docDeps byTabs) 8 (includeUiName True []) ''src''
        ([] @ [(pm ''S'', ''s''), (pm ''A'', ''m'')]) = None
   \<and> (\<exists>e s'. pullUI (docDeps byTabs) 8 ''src'' True []
                 ([] @ (pm ''B'', ''{'') # [(pm ''S'', ''s''), (pm ''A'', ''m'')]) emptyFs = (Inl e, s'))"
proof -
  have h: "parseUiDefs (docDeps byTabs) (snd (pm ''B'', ''{'')) = Inl SyntaxError"
    by (simp add: parse_docs)
  have e3: "expectedBatch (docDeps byTabs) 8 (includeUiName True []) ''src''
        ([] @ [(pm ''S'', ''s''), (pm ''A'', ''m'')]) = None"
    unfolding includeAll by (simp add: expected_shapeless_record expectedBatch_def)
  from unparsable_record_is_skipped[OF h, where xs="[]" and ys="[(pm ''S'', ''s''), (pm ''A'', ''m'')]"
      and n=8 and dumpAll=True and uis="[]" and sp="''src''" and st=emptyFs] e3
  have c4: "\<exists>e s'. pullUI (docDeps byTabs) 8 ''src'' True []
                 ([] @ (pm ''B'', ''{'') # [(pm ''S'', ''s''), (pm ''A'', ''m'')]) emptyFs = (Inl e, s')"
    by blast
  have e1: "expectedBatch (docDeps byTabs) 8 (includeUiName True []) ''src''
        ([(pm ''A'', ''m'')] @ [(pm ''C'', ''l'')]) =
       Some [(''src/A/m/a'', ''script.ts'', Text ''a''),
             (''src/A/m'', ''metadata.json'', UiMetadataJson (modernUi\<lparr>ui_children := None\<rparr>) [''a'']),
             (''src/C'', ''metadata.json'', LegacyMetadataJson [legacyUi (abcSections Undefined)])]"
    unfolding includeAll by (rule expected_example_batch)
  have e2: "expectedBatch (docDeps byTabs) 8 (includeUiNameCli ''ui'' None) ''src''
        ([(pm ''A'', ''m'')] @ [(pm ''C'', ''l'')]) =
       Some [(''src/A/m/a'', ''script.ts'', Text ''a''),
             (''src/A/m'', ''metadata.json'', UiMetadataJson (modernUi\<lparr>ui_children := None\<rparr>) [''a'']),
             (''src/C'', ''metadata.json'', LegacyMetadataJson [legacyUi (abcSections Undefined)])]"
    unfolding includeAllCli by (rule expected_example_batch)
  have ok: "fst (pullUI (docDeps byTabs) 8 ''src'' True [] [(pm ''A'', ''m'')] emptyFs)
              = Inr \<lparr>uiRecords = [pm ''A''], uiPmsToDump = [''A'']\<rparr>"
    by (simp add: pullUI_loop includeAll pull_modern_record startState_def setAdd_def)
  have f: "failedToParse (pm ''B'', ''{'') = ''Failed to parse document content: B''"
    by (simp add: failedToParse_def pm_def)
  have p: "parsed (docDeps byTabs) (pm ''A'', ''m'')" "parsed (docDeps byTabs) (pm ''C'', ''l'')"
          "\<not> parsed (docDeps byTabs) (pm ''B'', ''{'')"
    by (simp_all add: parsed_def parse_docs parse_legacy_doc)
  have nm: "pm_Name (pm ''A'') = ''A''" "pm_Name (pm ''C'') = ''C''" by (simp_all add: pm_def)
  note t = unparsable_record_is_skipped[OF h, of 8 "\<lambda>Name ui. True" True "''src''" "startState emptyFs"
      True "[]" "[(pm ''A'', ''m'')]" "[(pm ''C'', ''l'')]" emptyFs "''ui''" None]
  from t e1 obtain r s' where
    a: "pullUI (docDeps byTabs) 8 ''src'' True []
          ([(pm ''A'', ''m'')] @ (pm ''B'', ''{'') # [(pm ''C'', ''l'')]) emptyFs = (Inr r, s')"
       "wrote emptyFs (ps_fs s')
          [(''src/A/m/a'', ''script.ts'', Text ''a''),
           (''src/A/m'', ''metadata.json'', UiMetadataJson (modernUi\<lparr>ui_children := None\<rparr>) [''a'']),
           (''src/C'', ''metadata.json'', LegacyMetadataJson [legacyUi (abcSections Undefined)])]"
       "uiRecords r = map fst ([(pm ''A'', ''m'')] @ (pm ''B'', ''{'') # [(pm ''C'', ''l'')])"
       "set (uiPmsToDump r) = set (map (pm_Name \<circ> fst)
           (filter (parsed (docDeps byTabs)) ([(pm ''A'', ''m'')] @ [(pm ''C'', ''l'')])))"
       "ps_log s' = map failedToParse (filter (\<lambda>pc. \<not> parsed (docDeps byTabs) pc)
           ([(pm ''A'', ''m'')] @ (pm ''B'', ''{'') # [(pm ''C'', ''l'')]))"
    by blast
  from t e2 obtain s2 where
    b: "fetchUiDefinitions (docDeps byTabs) 8 ''ui'' ''src'' None
          ([(pm ''A'', ''m'')] @ (pm ''B'', ''{'') # [(pm ''C'', ''l'')]) emptyFs = (Inr (), s2)"
       "wrote emptyFs (ps_fs s2)
          [(''src/A/m/a'', ''script.ts'', Text ''a''),
           (''src/A/m'', ''metadata.json'', UiMetadataJson (modernUi\<lparr>ui_children := None\<rparr>) [''a'']),
           (''src/C'', ''metadata.json'', LegacyMetadataJson [legacyUi (abcSections Undefined)])]"
       "ps_log s2 = map failedToParse (filter (\<lambda>pc. \<not> parsed (docDeps byTabs) pc)
           ([(pm ''A'', ''m'')] @ (pm ''B'', ''{'') # [(pm ''C'', ''l'')]))"
    by blast
  have c1: "\<exists>r s'. pullUI (docDeps byTabs) 8 ''src'' True []
                 ([(pm ''A'', ''m'')] @ (pm ''B'', ''{'') # [(pm ''C'', ''l'')]) emptyFs = (Inr r, s')
          \<and> files (ps_fs s') =
              [(''src/A/m/a'', ''script.ts'', Text ''a''),
               (''src/A/m'', ''metadata.json'', UiMetadataJson (modernUi\<lparr>ui_children := None\<rparr>) [''a'']),
               (''src/C'', ''metadata.json'', LegacyMetadataJson [legacyUi (abcSections Undefined)])]
          \<and> set (dirs (ps_fs s')) = {''src/A/m/a'', ''src/A/m'', ''src/C''}
          \<and> uiRecords r = [pm ''A'', pm ''B'', pm ''C'']
          \<and> set (uiPmsToDump r) = {''A'', ''C''}
          \<and> ps_log s' = [''Failed to parse document content: B'']"
    using a p f nm by (intro exI[of _ r] exI[of _ s']) (simp add: wrote_def emptyFs_def)
  have c2: "\<exists>s'. fetchUiDefinitions (docDeps byTabs) 8 ''ui'' ''src'' None
                 ([(pm ''A'', ''m'')] @ (pm ''B'', ''{'') # [(pm ''C'', ''l'')]) emptyFs = (Inr (), s')
          \<and> files (ps_fs s') =
              [(''src/A/m/a'', ''script.ts'', Text ''a''),
               (''src/A/m'', ''metadata.json'', UiMetadataJson (modernUi\<lparr>ui_children := None\<rparr>) [''a'']),
               (''src/C'', ''metadata.json'', LegacyMetadataJson [legacyUi (abcSections Undefined)])]
          \<and> set (dirs (ps_fs s')) = {''src/A/m/a'', ''src/A/m'', ''src/C''}
          \<and> ps_log s' = [''Failed to parse document content: B'']"
    using b p f by (intro exI[of _ s2]) (simp add: wrote_def emptyFs_def)
  have c3: "sameOutput
        (snd (pullUI (docDeps byTabs) 8 ''src'' True [] ([(pm ''A'', ''m'')] @ (pm ''B'', ''{'') # [(pm ''C'', ''l'')]) emptyFs))
        (snd (pullUI (docDeps byTabs) 8 ''src'' True [] ([(pm ''A'', ''m'')] @ [(pm ''C'', ''l'')]) emptyFs))
   \<and> ''Failed to parse document content: B''
        \<in> set (ps_log (snd (pullUI (docDeps byTabs) 8 ''src'' True []
               ([(pm ''A'', ''m'')] @ (pm ''B'', ''{'') # [(pm ''C'', ''l'')]) emptyFs)))"
    using t unfolding Let_def ok f by simp
  from h e1 e2 c1 c2 c3 e3 c4 show ?thesis by blast
qed

lemma shapeless_after_unparsable:
  "pullUI (docDeps byTabs) 8 ''src'' True []
      [(pm ''B'', ''{''), (pm ''S'', ''s''), (pm ''A'', ''m'')] emptyFs
     = (Inl TypeError,
        \<lparr>ps_fs = emptyFs, ps_log = [''Failed to parse document content: B''], ps_uiPmsToDump = []\<rparr>)"
  by (simp add: pullUI_loop includeAll pullRecord_def parse_docs pullDefinition_def
        saveLegacyUiDefinition_def saveUiDefinition_def shapelessUi_def startState_def Let_def
        failedToParse_def pm_def docDeps_def byTabs_def
      split: sum.splits bool.splits)

text \<open>
  Claim C4 as stated fails: another record of the batch is not always processed. After a
  record whose document does not parse, a record whose definition has no collection stops
  the pull with its exception, and the record after it, written when pulled alone, is not
  written; the failure of the first record is logged all the same.
\<close>

theorem other_records_are_not_shielded:
  "pullUI (docDeps byTabs) 8 ''src'' True []
      [(pm ''B'', ''{''), (pm ''S'', ''s''), (pm ''A'', ''m'')] emptyFs
     = (Inl TypeError,
        \<lparr>ps_fs = emptyFs, ps_log = [''Failed to parse document content: B''], ps_uiPmsToDump = []\<rparr>)
   \<and> fetchUiDefinitions (docDeps byTabs) 8 ''ui'' ''src'' None
      [(pm ''B'', ''{''), (pm ''S'', ''s''), (pm ''A'', ''m'')] emptyFs
     = (Inl TypeError,
        \<lparr>ps_fs = emptyFs, ps_log = [''Failed to parse document content: B''], ps_uiPmsToDump = []\<rparr>)
   \<and> files (ps_fs (snd (pullUI (docDeps byTabs) 8 ''src'' True [] [(pm ''A'', ''m'')] emptyFs)))
     = [(''src/A/m/a'', ''script.ts'', Text ''a''),
        (''src/A/m'', ''metadata.json'', UiMetadataJson (modernUi\<lparr>ui_children := None\<rparr>) [''a''])]"
proof -
  have c: "fetchUiDefinitions (docDeps byTabs) 8 ''ui'' ''src'' None
      [(pm ''B'', ''{''), (pm ''S'', ''s''), (pm ''A'', ''m'')] emptyFs
     = (Inl TypeError,
        \<lparr>ps_fs = emptyFs, ps_log = [''Failed to parse document content: B''], ps_uiPmsToDump = []\<rparr>)"
    by (simp add: fetchUiDefinitions_loop includeAllCli pullRecord_def parse_docs pullDefinition_def
        saveLegacyUiDefinition_def saveUiDefinition_def shapelessUi_def startState_def Let_def
        failedToParse_def pm_def docDeps_def byTabs_def
      split: sum.splits bool.splits)
  have d: "files (ps_fs (snd (pullUI (docDeps byTabs) 8 ''src'' True [] [(pm ''A'', ''m'')] emptyFs)))
     = [(''src/A/m/a'', ''script.ts'', Text ''a''),
        (''src/A/m'', ''metadata.json'', UiMetadataJson (modernUi\<lparr>ui_children := None\<rparr>) [''a''])]"
    by (simp add: pullUI_loop includeAll pull_modern_record startState_def files_writeFileSafe
          mkdirIfAbsent_def emptyFs_def)
  from shapeless_after_unparsable c d show ?thesis by simp
qed

section \<open>Push and filters: proofs\<close>

text \<open>
  Claim C9 as stated fails. A push of two records (a folder created, one document updated,
  one created) returns what a push of none returns; and a pull is rejected at the first
  exception that is not a parse failure.
\<close>

theorem return_value_ignores_processed_records:
  "fst (pushUI exZlib exRemote exPack ''src'' [pm ''A'', pm ''B''])
     = \<lparr>push_uiRecords = [], push_uiPmsToUpload = []\<rparr>
   \<and> length (snd (pushUI exZlib exRemote exPack ''src'' [pm ''A'', pm ''B''])) = 3
   \<and> fst (pushUI exZlib exRemote exPack ''src'' []) = \<lparr>push_uiRecords = [], push_uiPmsToUpload = []\<rparr>
   \<and> fst (pullUI (docDeps byTabs) 8 ''src'' True [] [(pm ''S'', ''s''), (pm ''A'', ''m'')] emptyFs)
     = Inl TypeError"
proof -
  have a: "isLegacyDefinition (docDeps byTabs) shapelessUi = Inr False"
    by (simp add: docDeps_def byTabs_def shapelessUi_def)
  from shapeless_record_aborts[OF a] show ?thesis
    by (simp add: pushUI_def exRemote_def blob_def Let_def)
qed

text \<open>
  Claim C7. \<^verbatim>\<open>pushUI\<close> creates the folder when it is not found, and then makes one call
  per record: the document is looked up by the record's reference
  \<^verbatim>\<open>VELOCPQ__UiDefinitionsId__c\<close>; when it is found (with an \<^verbatim>\<open>Id\<close>) that document is
  updated, otherwise a document is created, in both cases with the body that carries the
  folder's id, the encoded definitions and the record's name.
\<close>

theorem push_updates_or_creates:
  "snd (pushUI Z R packJson sp productModels) =
     (case blob (fetchFolder R FOLDER_NAME) of None \<Rightarrow> [CreateFolder FOLDER_NAME] | Some i \<Rightarrow> [])
     @ map (\<lambda>p. case blob (fetchDocument R (pm_UiDefinitionsId p)) of
                   Some docId \<Rightarrow> UpdateDocument docId (bodyOf Z R packJson sp p)
                 | None \<Rightarrow> CreateDocument (bodyOf Z R packJson sp p))
         productModels"
  by (simp add: pushUI_def pushRecord_def bodyOf_def containerFolder_def Let_def
      split: option.splits)

text \<open>The calls of a push of two records, the first with a document in the store.\<close>

lemma push_example:
  "pushUI exZlib exRemote exPack ''src'' [pm ''A'', pm ''B''] =
     (\<lparr>push_uiRecords = [], push_uiPmsToUpload = []\<rparr>,
      [CreateFolder ''velo_product_models'',
       UpdateDocument ''D1'' \<lparr>db_folderId = Some ''F1'', db_body = ''WjNvNlcxMD0='', db_name = ''A''\<rparr>,
       CreateDocument \<lparr>db_folderId = Some ''F1'', db_body = ''WjNvNlcxMD0='', db_name = ''B''\<rparr>])"
proof -
  have e: "encode exZlib (exPack ''src'' n) = ''WjNvNlcxMD0=''" for n
    using wire_example by (simp add: exPack_def)
  show ?thesis
    by (simp add: pushUI_def pushRecord_def e exRemote_def blob_def pm_def FOLDER_NAME_def Let_def)
qed

text \<open>
  A record named as a member every object inherits is left out by \<^verbatim>\<open>pullUI\<close> unless
  everything is pulled or a pair gives the record a definition name of its own; a record
  named \<^verbatim>\<open>__proto__\<close> is left out whatever the pairs.
\<close>

lemma inherited_name_is_excluded:
  "includeUiName False [] ''constructor'' ui = False
   \<and> includeUiName False [''constructor:a''] ''constructor'' (modernUi\<lparr>ui_name := ''a''\<rparr>) = True
   \<and> includeUiName False [''__proto__:a''] ''__proto__'' (modernUi\<lparr>ui_name := ''a''\<rparr>) = False
   \<and> includeUiName True [] ''__proto__'' ui = True"
  by (simp add: includeUiName_def uiDefNamesMap_def namesMapAt_def falsy_def objectPrototypeKeys_def
        blob_def Let_def)

text \<open>
  With one pair for the record's model, a model named \<^verbatim>\<open>__proto__\<close> apart, the two filters
  include the same definitions.
\<close>

lemma split_str_none: "sep \<notin> set w \<Longrightarrow> split_str sep w = [w]"
  by (induction w) auto

lemma split_str_first:
  "sep \<notin> set w \<Longrightarrow> split_str sep (w @ sep # rest) = w # split_str sep rest"
  by (induction w) (auto split: list.splits)

lemma filters_agree_on_one_pair:
  assumes "CHR '':'' \<notin> set m" "CHR '':'' \<notin> set d" "CHR '':'' \<notin> set memberUi"
    and "CHR '','' \<notin> set m" "CHR '','' \<notin> set d" "CHR '','' \<notin> set memberUi"
    and "m \<noteq> ''__proto__''"
  shows "includeUiName False [m @ '':'' @ d] m ui
         = includeUiNameCli memberUi (Some (memberUi @ '':'' @ m @ '':'' @ d)) m ui"
proof -
  have lib: "split_str CHR '':'' (m @ '':'' @ d) = [m, d]"
    using split_str_first[OF assms(1), of d] split_str_none[OF assms(2)] by simp
  have c: "CHR '','' \<notin> set (memberUi @ '':'' @ m @ '':'' @ d)"
    using assms(4,5,6) by simp
  have cli1: "split_str CHR '','' (memberUi @ '':'' @ m @ '':'' @ d) = [memberUi @ '':'' @ m @ '':'' @ d]"
    by (rule split_str_none[OF c])
  have cli2: "split_str CHR '':'' (memberUi @ '':'' @ m @ '':'' @ d) = [memberUi, m, d]"
    using split_str_first[OF assms(3), of "m @ '':'' @ d"] lib by simp
  have ne: "memberUi @ '':'' @ m @ '':'' @ d \<noteq> []" by simp
  have l: "includeUiName False [m @ '':'' @ d] m ui = (blob (Some d) = None \<or> d = ui_name ui)"
    using lib assms(7)
    by (simp add: includeUiName_def uiDefNamesMap_def namesMapAt_def falsy_def Let_def)
  have r: "includeUiNameCli memberUi (Some (memberUi @ '':'' @ m @ '':'' @ d)) m ui
             = (blob (Some d) = None \<or> d = ui_name ui)"
    unfolding includeUiNameCli_def getMembersByTypes_def Let_def
    using cli1 cli2 by (simp add: blob_def eval_nat_numeral)
  from l r show ?thesis by simp
qed

text \<open>
  Claim C8 fails on the code. For the record \<^verbatim>\<open>M\<close> with the pairs \<^verbatim>\<open>M:a\<close> and
  \<^verbatim>\<open>M:b\<close>, \<^verbatim>\<open>pullUI\<close> leaves the definition \<^verbatim>\<open>a\<close> out (the map keeps the last
  pair of a model only) and the command includes it.
\<close>

theorem filters_differ_on_two_definitions:
  "includeUiName False [''M:a'', ''M:b''] ''M'' (modernUi\<lparr>ui_name := ''a''\<rparr>) = False
   \<and> includeUiNameCli ''config-ui'' (Some ''config-ui:M:a,config-ui:M:b'') ''M''
        (modernUi\<lparr>ui_name := ''a''\<rparr>) = True"
  by (simp add: includeUiName_def includeUiNameCli_def uiDefNamesMap_def namesMapAt_def falsy_def
        getMembersByTypes_def blob_def Let_def eval_nat_numeral)

end
